(* ===== verification/BF_Prelude.thy ===== *)
theory BF_Prelude
  imports Complex_Main
    "HOL-Library.Word"
    "HOL-Library.Char_ord"
    "HOL-Library.List_Lexorder"
    "HOL-Library.Product_Lexorder"
    "HOL-Library.Monad_Syntax"
    "HOL-Library.Multiset"
begin

text \<open>
  Shared vocabulary of the Batch Fabric development: the machine types, the collections of
  facts that the component theories extend, big-endian byte strings of words, and a few
  lemmas on lists and options that several components need.
\<close>

section \<open>Machine types\<close>

unbundle bit_operations_syntax

type_synonym u8 = "8 word"
type_synonym u16 = "16 word"
type_synonym u32 = "32 word"
type_synonym u64 = "64 word"

text \<open>
  A \<open>TimePoint\<close> is a signed 64-bit count of nanoseconds. It is read as a mathematical
  integer; \<open>time_ok\<close> says that the value fits the machine type, and only the byte codecs
  depend on it.
\<close>

type_synonym TimePoint = int

definition time_ok :: "int \<Rightarrow> bool" where
  "time_ok t \<longleftrightarrow> - (2 ^ 63) \<le> t \<and> t < 2 ^ 63"

section \<open>Collections of facts\<close>

named_theorems codec \<comment> \<open>reading back what a writer wrote\<close>
named_theorems wlen \<comment> \<open>lengths of written byte strings\<close>
named_theorems frame \<comment> \<open>fields an operation leaves alone\<close>
named_theorems lookup \<comment> \<open>what a lookup finds after an operation\<close>

section \<open>Options and sums\<close>

text \<open>Sequencing of fallible computations: \<open>Inl\<close> is the error that stops the rest.\<close>

definition rbind :: "'e + 'a \<Rightarrow> ('a \<Rightarrow> 'e + 'b) \<Rightarrow> 'e + 'b" where
  "rbind m f = (case m of Inl e \<Rightarrow> Inl e | Inr x \<Rightarrow> f x)"

lemma rbind_simps [simp]:
  "rbind (Inl e) f = Inl e"
  "rbind (Inr x) f = f x"
  by (simp_all add: rbind_def)

lemma rbind_eq_Inr: "rbind m f = Inr y \<longleftrightarrow> (\<exists>x. m = Inr x \<and> f x = Inr y)"
  by (cases m) auto

lemma rbind_eq_Inl: "rbind m f = Inl e \<longleftrightarrow> m = Inl e \<or> (\<exists>x. m = Inr x \<and> f x = Inl e)"
  by (cases m) auto

definition guard :: "bool \<Rightarrow> unit option" where
  "guard b = (if b then Some () else None)"

lemma guard_simps [simp]:
  "guard True = Some ()"
  "guard False = None"
  "guard b = Some u \<longleftrightarrow> b"
  by (simp_all add: guard_def)

section \<open>Lists\<close>

lemma hd_sort_key_in: "xs \<noteq> [] \<Longrightarrow> hd (sort_key f xs) \<in> set xs"
  by (metis hd_in_set set_sort sort_key_simps(1) length_sort length_0_conv)

text \<open>A left fold over a list keeps what every step keeps.\<close>

lemma fold_invariant_on:
  assumes "P s" and "\<And>x s. x \<in> set xs \<Longrightarrow> P s \<Longrightarrow> P (f x s)"
  shows "P (fold f xs s)"
  using assms by (induction xs arbitrary: s) auto

lemma fold_unchanged:
  assumes "\<And>x s. g (f x s) = g s"
  shows "g (fold f xs s) = g s"
  by (induction xs arbitrary: s) (auto simp: assms)

section \<open>Big-endian byte strings\<close>

text \<open>
  \<open>be_bytes n v\<close> is the \<open>n\<close> low bytes of a word, most significant first, and \<open>be_val\<close> reads a
  byte string back by shifting and or-ing, as the readers do.
\<close>

primrec be_bytes :: "nat \<Rightarrow> 'a::len word \<Rightarrow> u8 list" where
  "be_bytes 0 v = []"
| "be_bytes (Suc n) v = be_bytes n (drop_bit 8 v) @ [ucast v]"

definition be_val :: "u8 list \<Rightarrow> 'a::len word" where
  "be_val bs = foldl (\<lambda>v b. push_bit 8 v OR ucast b) 0 bs"

lemma length_be_bytes [simp]: "length (be_bytes n v) = n"
  by (induction n arbitrary: v) auto

lemma be_val_snoc: "be_val (bs @ [b]) = push_bit 8 (be_val bs) OR ucast b"
  by (simp add: be_val_def)

lemma be_val_be_bytes:
  fixes v :: "'a::len word"
  shows "be_val (be_bytes n v) = take_bit (8 * n) v"
proof (induction n arbitrary: v)
  case 0
  show ?case by (simp add: be_val_def)
next
  case (Suc n)
  have "be_val (be_bytes (Suc n) v)
      = push_bit 8 (take_bit (8 * n) (drop_bit 8 v)) OR ucast (ucast v :: u8)"
    by (simp add: be_val_snoc Suc.IH)
  also have "\<dots> = take_bit (8 * Suc n) v"
    by (rule bit_word_eqI) (auto simp: bit_simps)
  finally show ?case .
qed

end
