(* ===== verification/Enums.thy ===== *)
theory Enums
  imports BF_Prelude
begin

text \<open>
  The enumerations of the runtime (\<open>enums.hpp\<close>, \<open>identity.hpp\<close>, \<open>error.hpp\<close>, \<open>event.hpp\<close>,
  \<open>transport.hpp\<close>) with their printed names and their numeric values.

  A scoped C++ enumeration with a fixed underlying type can hold every value of that type, and
  the wire readers cast unchecked bytes. The enumerations that are read that way have a
  constructor \<open>_raw\<close> for the values without an enumerator, which their \<open>to_string\<close> prints as
  ``unknown''; \<open>_value\<close> is the cast to the underlying type and \<open>_cast\<close> the cast from it. The
  enumerations that are only cast after a range check have a partial \<open>_cast\<close>.
\<close>

section \<open>The enumerations\<close>

subsection \<open>Phase\<close>

datatype Phase =
    PH_prefill
  | PH_decode
  | PH_raw u8

primrec Phase_to_string :: "Phase \<Rightarrow> string" where
  "Phase_to_string PH_prefill = ''prefill''"
| "Phase_to_string PH_decode = ''decode''"
| "Phase_to_string (PH_raw _) = ''unknown''"

primrec Phase_value :: "Phase \<Rightarrow> u8" where
  "Phase_value PH_prefill = 0"
| "Phase_value PH_decode = 1"
| "Phase_value (PH_raw v) = v"

definition Phase_cast :: "u8 \<Rightarrow> Phase" where
  "Phase_cast v =
     (if v = 0 then PH_prefill
      else if v = 1 then PH_decode
      else PH_raw v)"

subsection \<open>LatencyClass\<close>

datatype LatencyClass =
    LC_batch
  | LC_low_latency
  | LC_interactive
  | LC_deadline_bounded
  | LC_best_effort
  | LC_raw u8

primrec LatencyClass_to_string :: "LatencyClass \<Rightarrow> string" where
  "LatencyClass_to_string LC_batch = ''batch''"
| "LatencyClass_to_string LC_low_latency = ''low_latency''"
| "LatencyClass_to_string LC_interactive = ''interactive''"
| "LatencyClass_to_string LC_deadline_bounded = ''deadline_bounded''"
| "LatencyClass_to_string LC_best_effort = ''best_effort''"
| "LatencyClass_to_string (LC_raw _) = ''unknown''"

primrec LatencyClass_value :: "LatencyClass \<Rightarrow> u8" where
  "LatencyClass_value LC_batch = 0"
| "LatencyClass_value LC_low_latency = 1"
| "LatencyClass_value LC_interactive = 2"
| "LatencyClass_value LC_deadline_bounded = 3"
| "LatencyClass_value LC_best_effort = 4"
| "LatencyClass_value (LC_raw v) = v"

definition LatencyClass_cast :: "u8 \<Rightarrow> LatencyClass" where
  "LatencyClass_cast v =
     (if v = 0 then LC_batch
      else if v = 1 then LC_low_latency
      else if v = 2 then LC_interactive
      else if v = 3 then LC_deadline_bounded
      else if v = 4 then LC_best_effort
      else LC_raw v)"

subsection \<open>PriorityClass\<close>

datatype PriorityClass =
    PC_high
  | PC_normal
  | PC_low
  | PC_background
  | PC_raw u8

primrec PriorityClass_to_string :: "PriorityClass \<Rightarrow> string" where
  "PriorityClass_to_string PC_high = ''high''"
| "PriorityClass_to_string PC_normal = ''normal''"
| "PriorityClass_to_string PC_low = ''low''"
| "PriorityClass_to_string PC_background = ''background''"
| "PriorityClass_to_string (PC_raw _) = ''unknown''"

primrec PriorityClass_value :: "PriorityClass \<Rightarrow> u8" where
  "PriorityClass_value PC_high = 0"
| "PriorityClass_value PC_normal = 1"
| "PriorityClass_value PC_low = 2"
| "PriorityClass_value PC_background = 3"
| "PriorityClass_value (PC_raw v) = v"

definition PriorityClass_cast :: "u8 \<Rightarrow> PriorityClass" where
  "PriorityClass_cast v =
     (if v = 0 then PC_high
      else if v = 1 then PC_normal
      else if v = 2 then PC_low
      else if v = 3 then PC_background
      else PC_raw v)"

subsection \<open>RequestState\<close>

datatype RequestState =
    RS_created
  | RS_eligible
  | RS_waiting
  | RS_reserved
  | RS_batched
  | RS_sealed
  | RS_dispatched
  | RS_running
  | RS_completed
  | RS_cancelled
  | RS_expired
  | RS_rejected
  | RS_failed

primrec RequestState_to_string :: "RequestState \<Rightarrow> string" where
  "RequestState_to_string RS_created = ''created''"
| "RequestState_to_string RS_eligible = ''eligible''"
| "RequestState_to_string RS_waiting = ''waiting''"
| "RequestState_to_string RS_reserved = ''reserved''"
| "RequestState_to_string RS_batched = ''batched''"
| "RequestState_to_string RS_sealed = ''sealed''"
| "RequestState_to_string RS_dispatched = ''dispatched''"
| "RequestState_to_string RS_running = ''running''"
| "RequestState_to_string RS_completed = ''completed''"
| "RequestState_to_string RS_cancelled = ''cancelled''"
| "RequestState_to_string RS_expired = ''expired''"
| "RequestState_to_string RS_rejected = ''rejected''"
| "RequestState_to_string RS_failed = ''failed''"

primrec RequestState_value :: "RequestState \<Rightarrow> u8" where
  "RequestState_value RS_created = 0"
| "RequestState_value RS_eligible = 1"
| "RequestState_value RS_waiting = 2"
| "RequestState_value RS_reserved = 3"
| "RequestState_value RS_batched = 4"
| "RequestState_value RS_sealed = 5"
| "RequestState_value RS_dispatched = 6"
| "RequestState_value RS_running = 7"
| "RequestState_value RS_completed = 8"
| "RequestState_value RS_cancelled = 9"
| "RequestState_value RS_expired = 10"
| "RequestState_value RS_rejected = 11"
| "RequestState_value RS_failed = 12"

definition RequestState_cast :: "u8 \<Rightarrow> RequestState option" where
  "RequestState_cast v =
     (let names = [RS_created, RS_eligible, RS_waiting, RS_reserved, RS_batched, RS_sealed, RS_dispatched, RS_running, RS_completed, RS_cancelled, RS_expired, RS_rejected, RS_failed]
      in if unat v < length names then Some (names ! unat v) else None)"

subsection \<open>BatchState\<close>

datatype BatchState =
    BS_forming
  | BS_sealed
  | BS_dispatched
  | BS_running
  | BS_partially_completed
  | BS_completed
  | BS_cancelled
  | BS_failed
  | BS_superseded

primrec BatchState_to_string :: "BatchState \<Rightarrow> string" where
  "BatchState_to_string BS_forming = ''forming''"
| "BatchState_to_string BS_sealed = ''sealed''"
| "BatchState_to_string BS_dispatched = ''dispatched''"
| "BatchState_to_string BS_running = ''running''"
| "BatchState_to_string BS_partially_completed = ''partially_completed''"
| "BatchState_to_string BS_completed = ''completed''"
| "BatchState_to_string BS_cancelled = ''cancelled''"
| "BatchState_to_string BS_failed = ''failed''"
| "BatchState_to_string BS_superseded = ''superseded''"

primrec BatchState_value :: "BatchState \<Rightarrow> u8" where
  "BatchState_value BS_forming = 0"
| "BatchState_value BS_sealed = 1"
| "BatchState_value BS_dispatched = 2"
| "BatchState_value BS_running = 3"
| "BatchState_value BS_partially_completed = 4"
| "BatchState_value BS_completed = 5"
| "BatchState_value BS_cancelled = 6"
| "BatchState_value BS_failed = 7"
| "BatchState_value BS_superseded = 8"

definition BatchState_cast :: "u8 \<Rightarrow> BatchState option" where
  "BatchState_cast v =
     (let names = [BS_forming, BS_sealed, BS_dispatched, BS_running, BS_partially_completed, BS_completed, BS_cancelled, BS_failed, BS_superseded]
      in if unat v < length names then Some (names ! unat v) else None)"

subsection \<open>SealReason\<close>

datatype SealReason =
    SR_max_count_reached
  | SR_max_tokens_reached
  | SR_max_work_reached
  | SR_max_wait_elapsed
  | SR_deadline_derived
  | SR_policy_derived
  | SR_immediate
  | SR_queue_drained
  | SR_executor_required
  | SR_minimum_batch_met
  | SR_admission_fill

primrec SealReason_to_string :: "SealReason \<Rightarrow> string" where
  "SealReason_to_string SR_max_count_reached = ''max_count_reached''"
| "SealReason_to_string SR_max_tokens_reached = ''max_tokens_reached''"
| "SealReason_to_string SR_max_work_reached = ''max_work_reached''"
| "SealReason_to_string SR_max_wait_elapsed = ''max_wait_elapsed''"
| "SealReason_to_string SR_deadline_derived = ''deadline_derived''"
| "SealReason_to_string SR_policy_derived = ''policy_derived''"
| "SealReason_to_string SR_immediate = ''immediate''"
| "SealReason_to_string SR_queue_drained = ''queue_drained''"
| "SealReason_to_string SR_executor_required = ''executor_required''"
| "SealReason_to_string SR_minimum_batch_met = ''minimum_batch_met''"
| "SealReason_to_string SR_admission_fill = ''admission_fill''"

primrec SealReason_value :: "SealReason \<Rightarrow> u8" where
  "SealReason_value SR_max_count_reached = 0"
| "SealReason_value SR_max_tokens_reached = 1"
| "SealReason_value SR_max_work_reached = 2"
| "SealReason_value SR_max_wait_elapsed = 3"
| "SealReason_value SR_deadline_derived = 4"
| "SealReason_value SR_policy_derived = 5"
| "SealReason_value SR_immediate = 6"
| "SealReason_value SR_queue_drained = 7"
| "SealReason_value SR_executor_required = 8"
| "SealReason_value SR_minimum_batch_met = 9"
| "SealReason_value SR_admission_fill = 10"

definition SealReason_cast :: "u8 \<Rightarrow> SealReason option" where
  "SealReason_cast v =
     (let names = [SR_max_count_reached, SR_max_tokens_reached, SR_max_work_reached, SR_max_wait_elapsed, SR_deadline_derived, SR_policy_derived, SR_immediate, SR_queue_drained, SR_executor_required, SR_minimum_batch_met, SR_admission_fill]
      in if unat v < length names then Some (names ! unat v) else None)"

subsection \<open>SplitReason\<close>

datatype SplitReason =
    SP_capacity_shrink
  | SP_token_violation
  | SP_work_violation
  | SP_deadline_pressure
  | SP_worker_batch_size_constraint
  | SP_cancellation
  | SP_partial_readiness
  | SP_policy
  | SP_executor_rejection
  | SP_oversized

primrec SplitReason_to_string :: "SplitReason \<Rightarrow> string" where
  "SplitReason_to_string SP_capacity_shrink = ''capacity_shrink''"
| "SplitReason_to_string SP_token_violation = ''token_violation''"
| "SplitReason_to_string SP_work_violation = ''work_violation''"
| "SplitReason_to_string SP_deadline_pressure = ''deadline_pressure''"
| "SplitReason_to_string SP_worker_batch_size_constraint = ''worker_batch_size_constraint''"
| "SplitReason_to_string SP_cancellation = ''cancellation''"
| "SplitReason_to_string SP_partial_readiness = ''partial_readiness''"
| "SplitReason_to_string SP_policy = ''policy''"
| "SplitReason_to_string SP_executor_rejection = ''executor_rejection''"
| "SplitReason_to_string SP_oversized = ''oversized''"

subsection \<open>MergeReason\<close>

datatype MergeReason =
    MR_policy
  | MR_aggregate_budget_valid
  | MR_compatibility_match
  | MR_executor_allowed
  | MR_latency_valid

primrec MergeReason_to_string :: "MergeReason \<Rightarrow> string" where
  "MergeReason_to_string MR_policy = ''policy''"
| "MergeReason_to_string MR_aggregate_budget_valid = ''aggregate_budget_valid''"
| "MergeReason_to_string MR_compatibility_match = ''compatibility_match''"
| "MergeReason_to_string MR_executor_allowed = ''executor_allowed''"
| "MergeReason_to_string MR_latency_valid = ''latency_valid''"

subsection \<open>CancellationReason\<close>

datatype CancellationReason =
    CR_client_request
  | CR_deadline_expired
  | CR_preempted
  | CR_superseded
  | CR_shutdown
  | CR_executor_error
  | CR_raw u8

primrec CancellationReason_to_string :: "CancellationReason \<Rightarrow> string" where
  "CancellationReason_to_string CR_client_request = ''client_request''"
| "CancellationReason_to_string CR_deadline_expired = ''deadline_expired''"
| "CancellationReason_to_string CR_preempted = ''preempted''"
| "CancellationReason_to_string CR_superseded = ''superseded''"
| "CancellationReason_to_string CR_shutdown = ''shutdown''"
| "CancellationReason_to_string CR_executor_error = ''executor_error''"
| "CancellationReason_to_string (CR_raw _) = ''unknown''"

primrec CancellationReason_value :: "CancellationReason \<Rightarrow> u8" where
  "CancellationReason_value CR_client_request = 0"
| "CancellationReason_value CR_deadline_expired = 1"
| "CancellationReason_value CR_preempted = 2"
| "CancellationReason_value CR_superseded = 3"
| "CancellationReason_value CR_shutdown = 4"
| "CancellationReason_value CR_executor_error = 5"
| "CancellationReason_value (CR_raw v) = v"

definition CancellationReason_cast :: "u8 \<Rightarrow> CancellationReason" where
  "CancellationReason_cast v =
     (if v = 0 then CR_client_request
      else if v = 1 then CR_deadline_expired
      else if v = 2 then CR_preempted
      else if v = 3 then CR_superseded
      else if v = 4 then CR_shutdown
      else if v = 5 then CR_executor_error
      else CR_raw v)"

subsection \<open>CompletionStatus\<close>

datatype CompletionStatus =
    CS_success
  | CS_retryable_failure
  | CS_non_retryable_failure
  | CS_cancelled
  | CS_expired
  | CS_stale
  | CS_deferred
  | CS_raw u8

primrec CompletionStatus_to_string :: "CompletionStatus \<Rightarrow> string" where
  "CompletionStatus_to_string CS_success = ''success''"
| "CompletionStatus_to_string CS_retryable_failure = ''retryable_failure''"
| "CompletionStatus_to_string CS_non_retryable_failure = ''non_retryable_failure''"
| "CompletionStatus_to_string CS_cancelled = ''cancelled''"
| "CompletionStatus_to_string CS_expired = ''expired''"
| "CompletionStatus_to_string CS_stale = ''stale''"
| "CompletionStatus_to_string CS_deferred = ''deferred''"
| "CompletionStatus_to_string (CS_raw _) = ''unknown''"

primrec CompletionStatus_value :: "CompletionStatus \<Rightarrow> u8" where
  "CompletionStatus_value CS_success = 0"
| "CompletionStatus_value CS_retryable_failure = 1"
| "CompletionStatus_value CS_non_retryable_failure = 2"
| "CompletionStatus_value CS_cancelled = 3"
| "CompletionStatus_value CS_expired = 4"
| "CompletionStatus_value CS_stale = 5"
| "CompletionStatus_value CS_deferred = 6"
| "CompletionStatus_value (CS_raw v) = v"

definition CompletionStatus_cast :: "u8 \<Rightarrow> CompletionStatus" where
  "CompletionStatus_cast v =
     (if v = 0 then CS_success
      else if v = 1 then CS_retryable_failure
      else if v = 2 then CS_non_retryable_failure
      else if v = 3 then CS_cancelled
      else if v = 4 then CS_expired
      else if v = 5 then CS_stale
      else if v = 6 then CS_deferred
      else CS_raw v)"

subsection \<open>CompatibilityDecision\<close>

datatype CompatibilityDecision =
    CD_compatible
  | CD_incompatible_revision
  | CD_incompatible_adapter
  | CD_incompatible_phase
  | CD_incompatible_shape
  | CD_incompatible_executor
  | CD_incompatible_dtype
  | CD_incompatible_backend
  | CD_incompatible_device
  | CD_incompatible_execution_mode
  | CD_incompatible_sampling
  | CD_incompatible_extension
  | CD_incompatible_deadline
  | CD_incompatible_model
  | CD_compatible_deferred

primrec CompatibilityDecision_to_string :: "CompatibilityDecision \<Rightarrow> string" where
  "CompatibilityDecision_to_string CD_compatible = ''compatible''"
| "CompatibilityDecision_to_string CD_incompatible_revision = ''incompatible_revision''"
| "CompatibilityDecision_to_string CD_incompatible_adapter = ''incompatible_adapter''"
| "CompatibilityDecision_to_string CD_incompatible_phase = ''incompatible_phase''"
| "CompatibilityDecision_to_string CD_incompatible_shape = ''incompatible_shape''"
| "CompatibilityDecision_to_string CD_incompatible_executor = ''incompatible_executor''"
| "CompatibilityDecision_to_string CD_incompatible_dtype = ''incompatible_dtype''"
| "CompatibilityDecision_to_string CD_incompatible_backend = ''incompatible_backend''"
| "CompatibilityDecision_to_string CD_incompatible_device = ''incompatible_device''"
| "CompatibilityDecision_to_string CD_incompatible_execution_mode = ''incompatible_execution_mode''"
| "CompatibilityDecision_to_string CD_incompatible_sampling = ''incompatible_sampling''"
| "CompatibilityDecision_to_string CD_incompatible_extension = ''incompatible_extension''"
| "CompatibilityDecision_to_string CD_incompatible_deadline = ''incompatible_deadline''"
| "CompatibilityDecision_to_string CD_incompatible_model = ''incompatible_model''"
| "CompatibilityDecision_to_string CD_compatible_deferred = ''compatible_deferred''"

subsection \<open>FormationDecision\<close>

datatype FormationDecision =
    FD_noop
  | FD_wait_for_more
  | FD_seal
  | FD_split
  | FD_form_another
  | FD_reject
  | FD_defer

primrec FormationDecision_to_string :: "FormationDecision \<Rightarrow> string" where
  "FormationDecision_to_string FD_noop = ''noop''"
| "FormationDecision_to_string FD_wait_for_more = ''wait_for_more''"
| "FormationDecision_to_string FD_seal = ''seal''"
| "FormationDecision_to_string FD_split = ''split''"
| "FormationDecision_to_string FD_form_another = ''form_another''"
| "FormationDecision_to_string FD_reject = ''reject''"
| "FormationDecision_to_string FD_defer = ''defer''"

subsection \<open>AdmissionDecision\<close>

datatype AdmissionDecision =
    AD_admitted
  | AD_deferred
  | AD_capacity_exhausted
  | AD_expired
  | AD_oversized
  | AD_rejected
  | AD_raw u8

primrec AdmissionDecision_to_string :: "AdmissionDecision \<Rightarrow> string" where
  "AdmissionDecision_to_string AD_admitted = ''admitted''"
| "AdmissionDecision_to_string AD_deferred = ''deferred''"
| "AdmissionDecision_to_string AD_capacity_exhausted = ''capacity_exhausted''"
| "AdmissionDecision_to_string AD_expired = ''expired''"
| "AdmissionDecision_to_string AD_oversized = ''oversized''"
| "AdmissionDecision_to_string AD_rejected = ''rejected''"
| "AdmissionDecision_to_string (AD_raw _) = ''unknown''"

primrec AdmissionDecision_value :: "AdmissionDecision \<Rightarrow> u8" where
  "AdmissionDecision_value AD_admitted = 0"
| "AdmissionDecision_value AD_deferred = 1"
| "AdmissionDecision_value AD_capacity_exhausted = 2"
| "AdmissionDecision_value AD_expired = 3"
| "AdmissionDecision_value AD_oversized = 4"
| "AdmissionDecision_value AD_rejected = 5"
| "AdmissionDecision_value (AD_raw v) = v"

definition AdmissionDecision_cast :: "u8 \<Rightarrow> AdmissionDecision" where
  "AdmissionDecision_cast v =
     (if v = 0 then AD_admitted
      else if v = 1 then AD_deferred
      else if v = 2 then AD_capacity_exhausted
      else if v = 3 then AD_expired
      else if v = 4 then AD_oversized
      else if v = 5 then AD_rejected
      else AD_raw v)"

subsection \<open>Dtype\<close>

datatype Dtype =
    DT_float16
  | DT_bfloat16
  | DT_float32
  | DT_int8
  | DT_int4
  | DT_unknown
  | DT_raw u8

primrec Dtype_to_string :: "Dtype \<Rightarrow> string" where
  "Dtype_to_string DT_float16 = ''float16''"
| "Dtype_to_string DT_bfloat16 = ''bfloat16''"
| "Dtype_to_string DT_float32 = ''float32''"
| "Dtype_to_string DT_int8 = ''int8''"
| "Dtype_to_string DT_int4 = ''int4''"
| "Dtype_to_string DT_unknown = ''unknown''"
| "Dtype_to_string (DT_raw _) = ''unknown''"

primrec Dtype_value :: "Dtype \<Rightarrow> u8" where
  "Dtype_value DT_float16 = 0"
| "Dtype_value DT_bfloat16 = 1"
| "Dtype_value DT_float32 = 2"
| "Dtype_value DT_int8 = 3"
| "Dtype_value DT_int4 = 4"
| "Dtype_value DT_unknown = 255"
| "Dtype_value (DT_raw v) = v"

definition Dtype_cast :: "u8 \<Rightarrow> Dtype" where
  "Dtype_cast v =
     (if v = 0 then DT_float16
      else if v = 1 then DT_bfloat16
      else if v = 2 then DT_float32
      else if v = 3 then DT_int8
      else if v = 4 then DT_int4
      else if v = 255 then DT_unknown
      else DT_raw v)"

subsection \<open>Backend\<close>

datatype Backend =
    BK_cpu
  | BK_cuda
  | BK_rocm
  | BK_mps
  | BK_trt
  | BK_unknown
  | BK_raw u8

primrec Backend_to_string :: "Backend \<Rightarrow> string" where
  "Backend_to_string BK_cpu = ''cpu''"
| "Backend_to_string BK_cuda = ''cuda''"
| "Backend_to_string BK_rocm = ''rocm''"
| "Backend_to_string BK_mps = ''mps''"
| "Backend_to_string BK_trt = ''trt''"
| "Backend_to_string BK_unknown = ''unknown''"
| "Backend_to_string (BK_raw _) = ''unknown''"

primrec Backend_value :: "Backend \<Rightarrow> u8" where
  "Backend_value BK_cpu = 0"
| "Backend_value BK_cuda = 1"
| "Backend_value BK_rocm = 2"
| "Backend_value BK_mps = 3"
| "Backend_value BK_trt = 4"
| "Backend_value BK_unknown = 255"
| "Backend_value (BK_raw v) = v"

definition Backend_cast :: "u8 \<Rightarrow> Backend" where
  "Backend_cast v =
     (if v = 0 then BK_cpu
      else if v = 1 then BK_cuda
      else if v = 2 then BK_rocm
      else if v = 3 then BK_mps
      else if v = 4 then BK_trt
      else if v = 255 then BK_unknown
      else BK_raw v)"

subsection \<open>ExecutionMode\<close>

datatype ExecutionMode =
    XM_eager
  | XM_graph
  | XM_compiled
  | XM_unknown
  | XM_raw u8

primrec ExecutionMode_to_string :: "ExecutionMode \<Rightarrow> string" where
  "ExecutionMode_to_string XM_eager = ''eager''"
| "ExecutionMode_to_string XM_graph = ''graph''"
| "ExecutionMode_to_string XM_compiled = ''compiled''"
| "ExecutionMode_to_string XM_unknown = ''unknown''"
| "ExecutionMode_to_string (XM_raw _) = ''unknown''"

primrec ExecutionMode_value :: "ExecutionMode \<Rightarrow> u8" where
  "ExecutionMode_value XM_eager = 0"
| "ExecutionMode_value XM_graph = 1"
| "ExecutionMode_value XM_compiled = 2"
| "ExecutionMode_value XM_unknown = 255"
| "ExecutionMode_value (XM_raw v) = v"

definition ExecutionMode_cast :: "u8 \<Rightarrow> ExecutionMode" where
  "ExecutionMode_cast v =
     (if v = 0 then XM_eager
      else if v = 1 then XM_graph
      else if v = 2 then XM_compiled
      else if v = 255 then XM_unknown
      else XM_raw v)"

subsection \<open>ErrorCode\<close>

datatype ErrorCode =
    EC_ok
  | EC_invalid_argument
  | EC_invalid_state
  | EC_not_found
  | EC_already_exists
  | EC_capacity_exhausted
  | EC_deferred
  | EC_deadline_expired
  | EC_cancelled
  | EC_stale_epoch
  | EC_stale_worker
  | EC_stale_attempt
  | EC_incompatible
  | EC_batch_sealed
  | EC_batch_too_large
  | EC_split_required
  | EC_merge_rejected
  | EC_transport_failure
  | EC_persistence_failure
  | EC_corruption
  | EC_unsupported
  | EC_internal
  | EC_raw u32

primrec ErrorCode_to_string :: "ErrorCode \<Rightarrow> string" where
  "ErrorCode_to_string EC_ok = ''ok''"
| "ErrorCode_to_string EC_invalid_argument = ''invalid_argument''"
| "ErrorCode_to_string EC_invalid_state = ''invalid_state''"
| "ErrorCode_to_string EC_not_found = ''not_found''"
| "ErrorCode_to_string EC_already_exists = ''already_exists''"
| "ErrorCode_to_string EC_capacity_exhausted = ''capacity_exhausted''"
| "ErrorCode_to_string EC_deferred = ''deferred''"
| "ErrorCode_to_string EC_deadline_expired = ''deadline_expired''"
| "ErrorCode_to_string EC_cancelled = ''cancelled''"
| "ErrorCode_to_string EC_stale_epoch = ''stale_epoch''"
| "ErrorCode_to_string EC_stale_worker = ''stale_worker''"
| "ErrorCode_to_string EC_stale_attempt = ''stale_attempt''"
| "ErrorCode_to_string EC_incompatible = ''incompatible''"
| "ErrorCode_to_string EC_batch_sealed = ''batch_sealed''"
| "ErrorCode_to_string EC_batch_too_large = ''batch_too_large''"
| "ErrorCode_to_string EC_split_required = ''split_required''"
| "ErrorCode_to_string EC_merge_rejected = ''merge_rejected''"
| "ErrorCode_to_string EC_transport_failure = ''transport_failure''"
| "ErrorCode_to_string EC_persistence_failure = ''persistence_failure''"
| "ErrorCode_to_string EC_corruption = ''corruption''"
| "ErrorCode_to_string EC_unsupported = ''unsupported''"
| "ErrorCode_to_string EC_internal = ''internal''"
| "ErrorCode_to_string (EC_raw _) = ''unknown''"

primrec ErrorCode_value :: "ErrorCode \<Rightarrow> u32" where
  "ErrorCode_value EC_ok = 0"
| "ErrorCode_value EC_invalid_argument = 1"
| "ErrorCode_value EC_invalid_state = 2"
| "ErrorCode_value EC_not_found = 3"
| "ErrorCode_value EC_already_exists = 4"
| "ErrorCode_value EC_capacity_exhausted = 5"
| "ErrorCode_value EC_deferred = 6"
| "ErrorCode_value EC_deadline_expired = 7"
| "ErrorCode_value EC_cancelled = 8"
| "ErrorCode_value EC_stale_epoch = 9"
| "ErrorCode_value EC_stale_worker = 10"
| "ErrorCode_value EC_stale_attempt = 11"
| "ErrorCode_value EC_incompatible = 12"
| "ErrorCode_value EC_batch_sealed = 13"
| "ErrorCode_value EC_batch_too_large = 14"
| "ErrorCode_value EC_split_required = 15"
| "ErrorCode_value EC_merge_rejected = 16"
| "ErrorCode_value EC_transport_failure = 17"
| "ErrorCode_value EC_persistence_failure = 18"
| "ErrorCode_value EC_corruption = 19"
| "ErrorCode_value EC_unsupported = 20"
| "ErrorCode_value EC_internal = 21"
| "ErrorCode_value (EC_raw v) = v"

definition ErrorCode_cast :: "u32 \<Rightarrow> ErrorCode" where
  "ErrorCode_cast v =
     (if v = 0 then EC_ok
      else if v = 1 then EC_invalid_argument
      else if v = 2 then EC_invalid_state
      else if v = 3 then EC_not_found
      else if v = 4 then EC_already_exists
      else if v = 5 then EC_capacity_exhausted
      else if v = 6 then EC_deferred
      else if v = 7 then EC_deadline_expired
      else if v = 8 then EC_cancelled
      else if v = 9 then EC_stale_epoch
      else if v = 10 then EC_stale_worker
      else if v = 11 then EC_stale_attempt
      else if v = 12 then EC_incompatible
      else if v = 13 then EC_batch_sealed
      else if v = 14 then EC_batch_too_large
      else if v = 15 then EC_split_required
      else if v = 16 then EC_merge_rejected
      else if v = 17 then EC_transport_failure
      else if v = 18 then EC_persistence_failure
      else if v = 19 then EC_corruption
      else if v = 20 then EC_unsupported
      else if v = 21 then EC_internal
      else EC_raw v)"

subsection \<open>EventType\<close>

datatype EventType =
    ET_submit
  | ET_admit
  | ET_form
  | ET_seal
  | ET_dispatch
  | ET_complete
  | ET_cancel
  | ET_split
  | ET_merge
  | ET_retry
  | ET_expire
  | ET_epoch_roll
  | ET_worker_up
  | ET_worker_down
  | ET_stale_reject

primrec EventType_to_string :: "EventType \<Rightarrow> string" where
  "EventType_to_string ET_submit = ''submit''"
| "EventType_to_string ET_admit = ''admit''"
| "EventType_to_string ET_form = ''form''"
| "EventType_to_string ET_seal = ''seal''"
| "EventType_to_string ET_dispatch = ''dispatch''"
| "EventType_to_string ET_complete = ''complete''"
| "EventType_to_string ET_cancel = ''cancel''"
| "EventType_to_string ET_split = ''split''"
| "EventType_to_string ET_merge = ''merge''"
| "EventType_to_string ET_retry = ''retry''"
| "EventType_to_string ET_expire = ''expire''"
| "EventType_to_string ET_epoch_roll = ''epoch_roll''"
| "EventType_to_string ET_worker_up = ''worker_up''"
| "EventType_to_string ET_worker_down = ''worker_down''"
| "EventType_to_string ET_stale_reject = ''stale_reject''"

subsection \<open>MessageType\<close>

datatype MessageType =
    MT_hello
  | MT_register_worker
  | MT_submit
  | MT_cancel
  | MT_dispatch
  | MT_complete
  | MT_status
  | MT_status_response
  | MT_epoch
  | MT_ack
  | MT_ping
  | MT_pong
  | MT_error
  | MT_roll_epoch
  | MT_shutdown
  | MT_raw u8

primrec MessageType_to_string :: "MessageType \<Rightarrow> string" where
  "MessageType_to_string MT_hello = ''hello''"
| "MessageType_to_string MT_register_worker = ''register_worker''"
| "MessageType_to_string MT_submit = ''submit''"
| "MessageType_to_string MT_cancel = ''cancel''"
| "MessageType_to_string MT_dispatch = ''dispatch''"
| "MessageType_to_string MT_complete = ''complete''"
| "MessageType_to_string MT_status = ''status''"
| "MessageType_to_string MT_status_response = ''status_response''"
| "MessageType_to_string MT_epoch = ''epoch''"
| "MessageType_to_string MT_ack = ''ack''"
| "MessageType_to_string MT_ping = ''ping''"
| "MessageType_to_string MT_pong = ''pong''"
| "MessageType_to_string MT_error = ''error''"
| "MessageType_to_string MT_roll_epoch = ''roll_epoch''"
| "MessageType_to_string MT_shutdown = ''shutdown''"
| "MessageType_to_string (MT_raw _) = ''unknown''"

primrec MessageType_value :: "MessageType \<Rightarrow> u8" where
  "MessageType_value MT_hello = 0"
| "MessageType_value MT_register_worker = 1"
| "MessageType_value MT_submit = 2"
| "MessageType_value MT_cancel = 3"
| "MessageType_value MT_dispatch = 4"
| "MessageType_value MT_complete = 5"
| "MessageType_value MT_status = 6"
| "MessageType_value MT_status_response = 7"
| "MessageType_value MT_epoch = 8"
| "MessageType_value MT_ack = 9"
| "MessageType_value MT_ping = 10"
| "MessageType_value MT_pong = 11"
| "MessageType_value MT_error = 12"
| "MessageType_value MT_roll_epoch = 13"
| "MessageType_value MT_shutdown = 14"
| "MessageType_value (MT_raw v) = v"

definition MessageType_cast :: "u8 \<Rightarrow> MessageType" where
  "MessageType_cast v =
     (if v = 0 then MT_hello
      else if v = 1 then MT_register_worker
      else if v = 2 then MT_submit
      else if v = 3 then MT_cancel
      else if v = 4 then MT_dispatch
      else if v = 5 then MT_complete
      else if v = 6 then MT_status
      else if v = 7 then MT_status_response
      else if v = 8 then MT_epoch
      else if v = 9 then MT_ack
      else if v = 10 then MT_ping
      else if v = 11 then MT_pong
      else if v = 12 then MT_error
      else if v = 13 then MT_roll_epoch
      else if v = 14 then MT_shutdown
      else MT_raw v)"

section \<open>Casts\<close>

text \<open>
  \<open>_ok\<close> excludes a \<open>_raw\<close> value that has an enumerator; every value a cast produces is \<open>_ok\<close>.
\<close>

lemma Phase_value_cast [simp]: "Phase_value (Phase_cast v) = v"
  by (simp add: Phase_cast_def)

definition Phase_ok :: "Phase \<Rightarrow> bool" where
  "Phase_ok e \<longleftrightarrow> Phase_cast (Phase_value e) = e"

lemma Phase_cast_ok [simp]: "Phase_ok (Phase_cast v)"
  by (simp add: Phase_ok_def)

lemma Phase_ok_iff: "Phase_ok e \<longleftrightarrow> (\<forall>v. e = PH_raw v \<longrightarrow> v \<notin> {0, 1})"
  by (cases e) (simp_all add: Phase_ok_def Phase_cast_def)

lemma LatencyClass_value_cast [simp]: "LatencyClass_value (LatencyClass_cast v) = v"
  by (simp add: LatencyClass_cast_def)

definition LatencyClass_ok :: "LatencyClass \<Rightarrow> bool" where
  "LatencyClass_ok e \<longleftrightarrow> LatencyClass_cast (LatencyClass_value e) = e"

lemma LatencyClass_cast_ok [simp]: "LatencyClass_ok (LatencyClass_cast v)"
  by (simp add: LatencyClass_ok_def)

lemma LatencyClass_ok_iff: "LatencyClass_ok e \<longleftrightarrow> (\<forall>v. e = LC_raw v \<longrightarrow> v \<notin> {0, 1, 2, 3, 4})"
  by (cases e) (simp_all add: LatencyClass_ok_def LatencyClass_cast_def)

lemma PriorityClass_value_cast [simp]: "PriorityClass_value (PriorityClass_cast v) = v"
  by (simp add: PriorityClass_cast_def)

definition PriorityClass_ok :: "PriorityClass \<Rightarrow> bool" where
  "PriorityClass_ok e \<longleftrightarrow> PriorityClass_cast (PriorityClass_value e) = e"

lemma PriorityClass_cast_ok [simp]: "PriorityClass_ok (PriorityClass_cast v)"
  by (simp add: PriorityClass_ok_def)

lemma PriorityClass_ok_iff: "PriorityClass_ok e \<longleftrightarrow> (\<forall>v. e = PC_raw v \<longrightarrow> v \<notin> {0, 1, 2, 3})"
  by (cases e) (simp_all add: PriorityClass_ok_def PriorityClass_cast_def)

lemma RequestState_cast_value [simp]: "RequestState_cast (RequestState_value e) = Some e"
  by (cases e) (simp_all add: RequestState_cast_def)

lemma BatchState_cast_value [simp]: "BatchState_cast (BatchState_value e) = Some e"
  by (cases e) (simp_all add: BatchState_cast_def)

lemma SealReason_cast_value [simp]: "SealReason_cast (SealReason_value e) = Some e"
  by (cases e) (simp_all add: SealReason_cast_def)

lemma CancellationReason_value_cast [simp]: "CancellationReason_value (CancellationReason_cast v) = v"
  by (simp add: CancellationReason_cast_def)

definition CancellationReason_ok :: "CancellationReason \<Rightarrow> bool" where
  "CancellationReason_ok e \<longleftrightarrow> CancellationReason_cast (CancellationReason_value e) = e"

lemma CancellationReason_cast_ok [simp]: "CancellationReason_ok (CancellationReason_cast v)"
  by (simp add: CancellationReason_ok_def)

lemma CancellationReason_ok_iff: "CancellationReason_ok e \<longleftrightarrow> (\<forall>v. e = CR_raw v \<longrightarrow> v \<notin> {0, 1, 2, 3, 4, 5})"
  by (cases e) (simp_all add: CancellationReason_ok_def CancellationReason_cast_def)

lemma CompletionStatus_value_cast [simp]: "CompletionStatus_value (CompletionStatus_cast v) = v"
  by (simp add: CompletionStatus_cast_def)

definition CompletionStatus_ok :: "CompletionStatus \<Rightarrow> bool" where
  "CompletionStatus_ok e \<longleftrightarrow> CompletionStatus_cast (CompletionStatus_value e) = e"

lemma CompletionStatus_cast_ok [simp]: "CompletionStatus_ok (CompletionStatus_cast v)"
  by (simp add: CompletionStatus_ok_def)

lemma CompletionStatus_ok_iff: "CompletionStatus_ok e \<longleftrightarrow> (\<forall>v. e = CS_raw v \<longrightarrow> v \<notin> {0, 1, 2, 3, 4, 5, 6})"
  by (cases e) (simp_all add: CompletionStatus_ok_def CompletionStatus_cast_def)

lemma AdmissionDecision_value_cast [simp]: "AdmissionDecision_value (AdmissionDecision_cast v) = v"
  by (simp add: AdmissionDecision_cast_def)

definition AdmissionDecision_ok :: "AdmissionDecision \<Rightarrow> bool" where
  "AdmissionDecision_ok e \<longleftrightarrow> AdmissionDecision_cast (AdmissionDecision_value e) = e"

lemma AdmissionDecision_cast_ok [simp]: "AdmissionDecision_ok (AdmissionDecision_cast v)"
  by (simp add: AdmissionDecision_ok_def)

lemma AdmissionDecision_ok_iff: "AdmissionDecision_ok e \<longleftrightarrow> (\<forall>v. e = AD_raw v \<longrightarrow> v \<notin> {0, 1, 2, 3, 4, 5})"
  by (cases e) (simp_all add: AdmissionDecision_ok_def AdmissionDecision_cast_def)

lemma Dtype_value_cast [simp]: "Dtype_value (Dtype_cast v) = v"
  by (simp add: Dtype_cast_def)

definition Dtype_ok :: "Dtype \<Rightarrow> bool" where
  "Dtype_ok e \<longleftrightarrow> Dtype_cast (Dtype_value e) = e"

lemma Dtype_cast_ok [simp]: "Dtype_ok (Dtype_cast v)"
  by (simp add: Dtype_ok_def)

lemma Dtype_ok_iff: "Dtype_ok e \<longleftrightarrow> (\<forall>v. e = DT_raw v \<longrightarrow> v \<notin> {0, 1, 2, 3, 4, 255})"
  by (cases e) (simp_all add: Dtype_ok_def Dtype_cast_def)

lemma Backend_value_cast [simp]: "Backend_value (Backend_cast v) = v"
  by (simp add: Backend_cast_def)

definition Backend_ok :: "Backend \<Rightarrow> bool" where
  "Backend_ok e \<longleftrightarrow> Backend_cast (Backend_value e) = e"

lemma Backend_cast_ok [simp]: "Backend_ok (Backend_cast v)"
  by (simp add: Backend_ok_def)

lemma Backend_ok_iff: "Backend_ok e \<longleftrightarrow> (\<forall>v. e = BK_raw v \<longrightarrow> v \<notin> {0, 1, 2, 3, 4, 255})"
  by (cases e) (simp_all add: Backend_ok_def Backend_cast_def)

lemma ExecutionMode_value_cast [simp]: "ExecutionMode_value (ExecutionMode_cast v) = v"
  by (simp add: ExecutionMode_cast_def)

definition ExecutionMode_ok :: "ExecutionMode \<Rightarrow> bool" where
  "ExecutionMode_ok e \<longleftrightarrow> ExecutionMode_cast (ExecutionMode_value e) = e"

lemma ExecutionMode_cast_ok [simp]: "ExecutionMode_ok (ExecutionMode_cast v)"
  by (simp add: ExecutionMode_ok_def)

lemma ExecutionMode_ok_iff: "ExecutionMode_ok e \<longleftrightarrow> (\<forall>v. e = XM_raw v \<longrightarrow> v \<notin> {0, 1, 2, 255})"
  by (cases e) (simp_all add: ExecutionMode_ok_def ExecutionMode_cast_def)

lemma ErrorCode_value_cast [simp]: "ErrorCode_value (ErrorCode_cast v) = v"
  by (simp add: ErrorCode_cast_def)

definition ErrorCode_ok :: "ErrorCode \<Rightarrow> bool" where
  "ErrorCode_ok e \<longleftrightarrow> ErrorCode_cast (ErrorCode_value e) = e"

lemma ErrorCode_cast_ok [simp]: "ErrorCode_ok (ErrorCode_cast v)"
  by (simp add: ErrorCode_ok_def)

lemma ErrorCode_ok_iff: "ErrorCode_ok e \<longleftrightarrow> (\<forall>v. e = EC_raw v \<longrightarrow> v \<notin> {0, 1, 2, 3, 4, 5, 6, 7, 8, 9, 10, 11, 12, 13, 14, 15, 16, 17, 18, 19, 20, 21})"
  by (cases e) (simp_all add: ErrorCode_ok_def ErrorCode_cast_def)

lemma MessageType_value_cast [simp]: "MessageType_value (MessageType_cast v) = v"
  by (simp add: MessageType_cast_def)

definition MessageType_ok :: "MessageType \<Rightarrow> bool" where
  "MessageType_ok e \<longleftrightarrow> MessageType_cast (MessageType_value e) = e"

lemma MessageType_cast_ok [simp]: "MessageType_ok (MessageType_cast v)"
  by (simp add: MessageType_ok_def)

lemma MessageType_ok_iff: "MessageType_ok e \<longleftrightarrow> (\<forall>v. e = MT_raw v \<longrightarrow> v \<notin> {0, 1, 2, 3, 4, 5, 6, 7, 8, 9, 10, 11, 12, 13, 14})"
  by (cases e) (simp_all add: MessageType_ok_def MessageType_cast_def)

lemmas enum_ok_defs =
  Phase_ok_def LatencyClass_ok_def PriorityClass_ok_def CancellationReason_ok_def
  CompletionStatus_ok_def AdmissionDecision_ok_def Dtype_ok_def Backend_ok_def
  ExecutionMode_ok_def ErrorCode_ok_def MessageType_ok_def

section \<open>Classification of states\<close>

definition is_request_terminal :: "RequestState \<Rightarrow> bool" where
  "is_request_terminal s \<longleftrightarrow> s = RS_cancelled \<or> s = RS_expired \<or> s = RS_rejected \<or>
     s = RS_failed \<or> s = RS_completed"

definition is_request_active :: "RequestState \<Rightarrow> bool" where
  "is_request_active s \<longleftrightarrow> s = RS_eligible \<or> s = RS_waiting \<or> s = RS_reserved \<or>
     s = RS_batched \<or> s = RS_sealed \<or> s = RS_dispatched \<or> s = RS_running"

definition is_batch_terminal :: "BatchState \<Rightarrow> bool" where
  "is_batch_terminal s \<longleftrightarrow> s = BS_cancelled \<or> s = BS_failed \<or> s = BS_completed \<or>
     s = BS_superseded"

lemma request_state_partition:
  "s \<noteq> RS_created \<Longrightarrow> is_request_active s = (\<not> is_request_terminal s)"
  by (cases s) (simp_all add: is_request_active_def is_request_terminal_def)

section \<open>Parsing names\<close>

definition parse_phase :: "string \<Rightarrow> Phase option" where
  "parse_phase s =
     (if s = ''prefill'' then Some PH_prefill
      else if s = ''decode'' then Some PH_decode
      else None)"

definition parse_latency_class :: "string \<Rightarrow> LatencyClass option" where
  "parse_latency_class s =
     (if s = ''batch'' then Some LC_batch
      else if s = ''low_latency'' then Some LC_low_latency
      else if s = ''interactive'' then Some LC_interactive
      else if s = ''deadline_bounded'' then Some LC_deadline_bounded
      else if s = ''best_effort'' then Some LC_best_effort
      else None)"

definition parse_priority_class :: "string \<Rightarrow> PriorityClass option" where
  "parse_priority_class s =
     (if s = ''high'' then Some PC_high
      else if s = ''normal'' then Some PC_normal
      else if s = ''low'' then Some PC_low
      else if s = ''background'' then Some PC_background
      else None)"

text \<open>
  Parsing and printing are inverse on the named values: a name parses to the value it was
  printed from, and whatever parses is the printed name of its value.
\<close>

lemma parse_phase_iff:
  "parse_phase s = Some p \<longleftrightarrow> s = Phase_to_string p \<and> (\<forall>v. p \<noteq> PH_raw v)"
  by (cases p) (auto simp: parse_phase_def)

lemma parse_latency_class_iff:
  "parse_latency_class s = Some c \<longleftrightarrow> s = LatencyClass_to_string c \<and> (\<forall>v. c \<noteq> LC_raw v)"
  by (cases c) (auto simp: parse_latency_class_def)

lemma parse_priority_class_iff:
  "parse_priority_class s = Some c \<longleftrightarrow> s = PriorityClass_to_string c \<and> (\<forall>v. c \<noteq> PC_raw v)"
  by (cases c) (auto simp: parse_priority_class_def)

end
