(* ===== verification/Ids.thy ===== *)
theory Ids
  imports BF_Prelude
begin

text \<open>
  The strong identifiers of \<open>id.hpp\<close>. Each C++ class wraps a 64-bit value (or a string) and is
  a type of its own; here the classes are one datatype with a phantom parameter, so that a
  \<open>RequestId\<close> is still no \<open>BatchId\<close>. They are ordered by their value.
\<close>

section \<open>Numeric identifiers\<close>

datatype 'k Id = Id (id_value: u64)

datatype request_tag = RequestTag
datatype batch_tag = BatchTag
datatype tenant_tag = TenantTag
datatype session_tag = SessionTag
datatype sequence_tag = SequenceTag
datatype attempt_tag = AttemptTag
datatype generation_tag = GenerationTag
datatype epoch_tag = EpochTag
datatype boot_tag = BootTag
datatype worker_tag = WorkerTag

type_synonym RequestId = "request_tag Id"
type_synonym BatchId = "batch_tag Id"
type_synonym TenantId = "tenant_tag Id"
type_synonym SessionId = "session_tag Id"
type_synonym SequenceId = "sequence_tag Id"
type_synonym AttemptId = "attempt_tag Id"
type_synonym Generation = "generation_tag Id"
type_synonym BatchEpoch = "epoch_tag Id"
type_synonym WorkerBootId = "boot_tag Id"
type_synonym WorkerId = "worker_tag Id"

instantiation Id :: (type) linorder
begin

definition less_eq_Id :: "'a Id \<Rightarrow> 'a Id \<Rightarrow> bool" where
  "less_eq_Id a b \<longleftrightarrow> id_value a \<le> id_value b"

definition less_Id :: "'a Id \<Rightarrow> 'a Id \<Rightarrow> bool" where
  "less_Id a b \<longleftrightarrow> id_value a < id_value b"

instance
  by standard (auto simp: less_eq_Id_def less_Id_def Id.expand)

end

lemma Id_less_iff [simp]: "Id a < Id b \<longleftrightarrow> a < b"
  by (simp add: less_Id_def)

lemma Id_le_iff [simp]: "Id a \<le> Id b \<longleftrightarrow> a \<le> b"
  by (simp add: less_eq_Id_def)

text \<open>The default-constructed identifier is the null one.\<close>

definition null_id :: "'k Id" where
  "null_id = Id 0"

declare null_id_def [code_unfold]

definition is_null :: "'k Id \<Rightarrow> bool" where
  "is_null i \<longleftrightarrow> id_value i = 0"

lemma is_null_iff [simp]: "is_null i \<longleftrightarrow> i = null_id"
  by (cases i) (simp add: is_null_def null_id_def)

section \<open>Named identities\<close>

datatype 'k Name = Name (name_str: string)

datatype model_tag = ModelTag
datatype revision_tag = RevisionTag
datatype adapter_tag = AdapterTag
datatype tokenizer_tag = TokenizerTag
datatype shape_tag = ShapeTag

type_synonym ModelIdentity = "model_tag Name"
type_synonym ModelRevision = "revision_tag Name"
type_synonym AdapterIdentity = "adapter_tag Name"
type_synonym TokenizerIdentity = "tokenizer_tag Name"
type_synonym ShapeKey = "shape_tag Name"

definition name_empty :: "'k Name \<Rightarrow> bool" where
  "name_empty n \<longleftrightarrow> name_str n = []"

section \<open>Decimal printing\<close>

text \<open>\<open>std::to_string\<close> on unsigned values, and \<open>std::stoull\<close> on its output.\<close>

definition digit_char :: "nat \<Rightarrow> char" where
  "digit_char d = char_of (48 + d)"

fun nat_to_string :: "nat \<Rightarrow> string" where
  "nat_to_string n =
     (if n < 10 then [digit_char n] else nat_to_string (n div 10) @ [digit_char (n mod 10)])"

declare nat_to_string.simps [simp del]

definition to_string_u64 :: "u64 \<Rightarrow> string" where
  "to_string_u64 v = nat_to_string (unat v)"

definition to_string_i64 :: "int \<Rightarrow> string" where
  "to_string_i64 t = (if t < 0 then ''-'' @ nat_to_string (nat (- t)) else nat_to_string (nat t))"

definition is_digit :: "char \<Rightarrow> bool" where
  "is_digit c \<longleftrightarrow> 48 \<le> (of_char c :: nat) \<and> (of_char c :: nat) \<le> 57"

definition is_space :: "char \<Rightarrow> bool" where
  "is_space c \<longleftrightarrow> (of_char c :: nat) = 32 \<or> (9 \<le> (of_char c :: nat) \<and> (of_char c :: nat) \<le> 13)"

definition digits_val :: "string \<Rightarrow> nat" where
  "digits_val ds = foldl (\<lambda>n c. 10 * n + (of_char c - 48)) 0 ds"

text \<open>
  \<open>stoull\<close> skips white space, accepts a sign and reads the longest run of digits. It throws when
  there is no digit and when the magnitude does not fit; a minus sign negates modulo \<open>2 ^ 64\<close>.
  \<open>None\<close> is the exception.
\<close>

definition stoull :: "string \<Rightarrow> u64 option" where
  "stoull s =
     (let s1 = dropWhile is_space s;
          neg = (s1 \<noteq> [] \<and> hd s1 = CHR ''-'');
          s2 = (if s1 \<noteq> [] \<and> (hd s1 = CHR ''-'' \<or> hd s1 = CHR ''+'') then tl s1 else s1);
          ds = takeWhile is_digit s2;
          n = digits_val ds
      in if ds = [] \<or> n \<ge> 2 ^ 64 then None
         else Some (if neg then - of_nat n else of_nat n))"

lemma digit_char_props:
  assumes "d < 10"
  shows "(of_char (digit_char d) :: nat) = 48 + d" and "is_digit (digit_char d)"
proof -
  have m: "(48 + d) mod 256 = 48 + d" using assms by simp
  show "(of_char (digit_char d) :: nat) = 48 + d"
    by (simp add: digit_char_def m)
  with assms show "is_digit (digit_char d)"
    by (simp add: is_digit_def)
qed

lemma nat_to_string_digits:
  "nat_to_string n \<noteq> []" "\<forall>c \<in> set (nat_to_string n). is_digit c"
  "digits_val (nat_to_string n) = n"
proof (induction n rule: nat_to_string.induct)
  case (1 n)
  {
    case 1
    show ?case by (subst nat_to_string.simps) simp
  next
    case 2
    show ?case
      using "1"(2) by (subst nat_to_string.simps) (auto simp: digit_char_props)
  next
    case 3
    show ?case
      using "1"(3) by (subst nat_to_string.simps) (auto simp: digit_char_props digits_val_def)
  }
qed

lemma digit_not_space_sign:
  "is_digit c \<Longrightarrow> \<not> is_space c \<and> c \<noteq> CHR ''-'' \<and> c \<noteq> CHR ''+''"
  by (auto simp: is_digit_def is_space_def)

lemma stoull_to_string: "stoull (to_string_u64 v) = Some v"
proof -
  let ?s = "nat_to_string (unat v)"
  obtain c cs where s: "?s = c # cs"
    using nat_to_string_digits(1) by (meson neq_Nil_conv)
  have d: "\<forall>x \<in> set ?s. is_digit x" and val: "digits_val ?s = unat v"
    by (rule nat_to_string_digits)+
  then have c: "is_digit c" by (simp add: s)
  have run: "takeWhile is_digit ?s = ?s"
    using d by (simp add: takeWhile_eq_all_conv)
  have "unat v < 2 ^ 64"
    using unsigned_less [of v, where ?'a = nat] by simp
  then show ?thesis
    using digit_not_space_sign [OF c] run val
    by (simp add: stoull_def to_string_u64_def s Let_def)
qed

lemma nat_to_string_inj: "nat_to_string m = nat_to_string n \<Longrightarrow> m = n"
  by (metis nat_to_string_digits(3))

text \<open>\<open>string()\<close>: the class name, a colon and the value.\<close>

definition RequestId_string :: "RequestId \<Rightarrow> string" where
  "RequestId_string i = ''RequestId'' @ '':'' @ to_string_u64 (id_value i)"

definition BatchId_string :: "BatchId \<Rightarrow> string" where
  "BatchId_string i = ''BatchId'' @ '':'' @ to_string_u64 (id_value i)"

definition TenantId_string :: "TenantId \<Rightarrow> string" where
  "TenantId_string i = ''TenantId'' @ '':'' @ to_string_u64 (id_value i)"

lemma to_string_u64_inj [simp]: "to_string_u64 a = to_string_u64 b \<longleftrightarrow> a = b"
  by (metis option.inject stoull_to_string)

lemma id_string_inj [simp]:
  "RequestId_string a = RequestId_string b \<longleftrightarrow> a = b"
  "BatchId_string c = BatchId_string d \<longleftrightarrow> c = d"
  "TenantId_string e = TenantId_string f \<longleftrightarrow> e = f"
  by (auto simp: RequestId_string_def BatchId_string_def TenantId_string_def Id.expand)

end
