(* ===== verification/Policy.thy ===== *)
theory Policy
  imports Enums Ids
begin

text \<open>
  \<open>policy.hpp\<close>: estimates, deadlines, budgets and the policy bundle. Token, work and memory
  amounts are 64-bit words and their sums wrap, as in the source; the lemmas on \<open>allows_add\<close>
  say when the test agrees with the arithmetic of the natural numbers.
\<close>

section \<open>Estimates and deadlines\<close>

record TokenEstimate =
  tok_input :: u64
  tok_output :: u64

record WorkEstimate =
  work_value :: u64

definition kNoDeadline :: TimePoint where
  "kNoDeadline = 9223372036854775807"

record Deadline =
  absolute_ns :: TimePoint

definition has_deadline :: "Deadline \<Rightarrow> bool" where
  "has_deadline d \<longleftrightarrow> absolute_ns d > 0"

definition expired :: "Deadline \<Rightarrow> TimePoint \<Rightarrow> bool" where
  "expired d now \<longleftrightarrow> has_deadline d \<and> now \<ge> absolute_ns d"

definition remaining :: "Deadline \<Rightarrow> TimePoint \<Rightarrow> TimePoint" where
  "remaining d now =
     (if \<not> has_deadline d then kNoDeadline
      else let r = absolute_ns d - now in if r < 0 then 0 else r)"

lemma remaining_nonneg: "0 \<le> remaining d now"
  by (simp add: remaining_def kNoDeadline_def Let_def)

lemma expired_iff_remaining:
  "expired d now \<longleftrightarrow> has_deadline d \<and> remaining d now = 0"
  by (auto simp: expired_def remaining_def Let_def)

lemma expired_mono: "expired d now \<Longrightarrow> now \<le> later \<Longrightarrow> expired d later"
  by (simp add: expired_def)

section \<open>Budgets\<close>

record BatchBudget =
  max_requests :: u32
  max_input_tokens :: u64
  max_output_tokens :: u64
  max_work :: u64
  max_memory_bytes :: u64

definition allows_add :: "BatchBudget \<Rightarrow> u32 \<Rightarrow> u64 \<Rightarrow> u64 \<Rightarrow> u64 \<Rightarrow> u64 \<Rightarrow>
    u32 \<Rightarrow> u64 \<Rightarrow> u64 \<Rightarrow> u64 \<Rightarrow> u64 \<Rightarrow> bool" where
  "allows_add B cur_count cur_in cur_out cur_work cur_mem
       add_count add_in add_out add_work add_mem =
     (let count = (ucast cur_count :: u64) + ucast add_count in
      if max_requests B \<noteq> 0 \<and> count > ucast (max_requests B) then False
      else if max_input_tokens B \<noteq> 0 \<and> cur_in + add_in > max_input_tokens B then False
      else if max_output_tokens B \<noteq> 0 \<and> cur_out + add_out > max_output_tokens B then False
      else if max_work B \<noteq> 0 \<and> cur_work + add_work > max_work B then False
      else if max_memory_bytes B \<noteq> 0 \<and> cur_mem + add_mem > max_memory_bytes B then False
      else True)"

text \<open>A limit of zero does not bind; otherwise the amount stays at or below it.\<close>

definition below_lim :: "'a::len word \<Rightarrow> nat \<Rightarrow> bool" where
  "below_lim mx n \<longleftrightarrow> mx = 0 \<or> n \<le> unat mx"

lemma below_lim_mono: "below_lim mx n \<Longrightarrow> m \<le> n \<Longrightarrow> below_lim mx m"
  by (auto simp: below_lim_def)

text \<open>A limit for which no sum of two amounts below it wraps.\<close>

definition half_range :: "u64 \<Rightarrow> bool" where
  "half_range mx \<longleftrightarrow> unat mx < 2 ^ 63"

definition budget_half_range :: "BatchBudget \<Rightarrow> bool" where
  "budget_half_range B \<longleftrightarrow> half_range (max_input_tokens B) \<and> half_range (max_output_tokens B) \<and>
     half_range (max_work B) \<and> half_range (max_memory_bytes B)"

lemma unat_plus_no_wrap:
  fixes a b :: u64
  assumes "unat a + unat b < 2 ^ 64"
  shows "unat (a + b) = unat a + unat b"
  using assms by (simp add: unat_word_ariths)

lemma unat_widen [simp]: "unat (ucast (a :: u32) :: u64) = unat a"
proof -
  have "unat a < 2 ^ 64"
    using unsigned_less [of a, where ?'a = nat] by simp
  then show ?thesis
    by (simp add: unsigned_ucast_eq take_bit_nat_eq_self)
qed

lemma unat_count:
  "unat ((ucast (a :: u32) :: u64) + ucast (b :: u32)) = unat a + unat b"
proof -
  have "unat a < 2 ^ 32" "unat b < 2 ^ 32"
    using unsigned_less [of a, where ?'a = nat] unsigned_less [of b, where ?'a = nat] by simp_all
  then show ?thesis
    by (simp add: unat_word_ariths)
qed

lemma lim_exceeded_iff:
  fixes mx a b :: u64
  assumes "unat a + unat b < 2 ^ 64"
  shows "(mx \<noteq> 0 \<and> a + b > mx) \<longleftrightarrow> \<not> below_lim mx (unat a + unat b)"
  using unat_plus_no_wrap [OF assms] by (auto simp: below_lim_def word_less_nat_alt)

lemma count_exceeded_iff:
  fixes mx a b :: u32
  shows "(mx \<noteq> 0 \<and> (ucast a :: u64) + ucast b > ucast mx)
     \<longleftrightarrow> \<not> below_lim mx (unat a + unat b)"
  by (auto simp: below_lim_def word_less_nat_alt unat_count)

lemma allows_add_exact_lemma:
  assumes "unat cin + unat ain < 2 ^ 64" and "unat cout + unat aout < 2 ^ 64"
    and "unat cwork + unat awork < 2 ^ 64" and "unat cmem + unat amem < 2 ^ 64"
  shows "allows_add B cc cin cout cwork cmem ac ain aout awork amem \<longleftrightarrow>
     below_lim (max_requests B) (unat cc + unat ac) \<and>
     below_lim (max_input_tokens B) (unat cin + unat ain) \<and>
     below_lim (max_output_tokens B) (unat cout + unat aout) \<and>
     below_lim (max_work B) (unat cwork + unat awork) \<and>
     below_lim (max_memory_bytes B) (unat cmem + unat amem)"
  by (simp add: allows_add_def Let_def lim_exceeded_iff [OF assms(1)] lim_exceeded_iff [OF assms(2)]
      lim_exceeded_iff [OF assms(3)] lim_exceeded_iff [OF assms(4)] count_exceeded_iff)

text \<open>
  With limits in the lower half of the range the test is exact for amounts that are each within
  the limit: a sum that would pass the limit cannot wrap below it.
\<close>

lemma sum_test_half_range:
  fixes mx a b :: u64
  assumes "half_range mx" and "below_lim mx (unat a)" and "below_lim mx (unat b)"
  shows "(mx \<noteq> 0 \<and> a + b > mx) \<longleftrightarrow> \<not> below_lim mx (unat a + unat b)"
proof (cases "mx = 0")
  case True
  then show ?thesis by (simp add: below_lim_def)
next
  case False
  with assms have "unat a + unat b < 2 ^ 64"
    by (simp add: half_range_def below_lim_def)
  then show ?thesis by (rule lim_exceeded_iff)
qed

lemma allows_add_half_range:
  assumes "budget_half_range B"
    and "below_lim (max_input_tokens B) (unat cin)" "below_lim (max_input_tokens B) (unat ain)"
    and "below_lim (max_output_tokens B) (unat cout)" "below_lim (max_output_tokens B) (unat aout)"
    and "below_lim (max_work B) (unat cwork)" "below_lim (max_work B) (unat awork)"
    and "below_lim (max_memory_bytes B) (unat cmem)" "below_lim (max_memory_bytes B) (unat amem)"
  shows "allows_add B cc cin cout cwork cmem ac ain aout awork amem \<longleftrightarrow>
     below_lim (max_requests B) (unat cc + unat ac) \<and>
     below_lim (max_input_tokens B) (unat cin + unat ain) \<and>
     below_lim (max_output_tokens B) (unat cout + unat aout) \<and>
     below_lim (max_work B) (unat cwork + unat awork) \<and>
     below_lim (max_memory_bytes B) (unat cmem + unat amem)"
  using assms
  by (simp add: allows_add_def Let_def budget_half_range_def sum_test_half_range count_exceeded_iff)

section \<open>The policy bundle\<close>

record WaitPolicy =
  wait_global_max_wait_ns :: TimePoint
  latency_max_wait_ns :: "LatencyClass \<rightharpoonup> TimePoint"
  immediate_seal_when_solo :: bool

record FairnessPolicy =
  fair_enabled :: bool
  fair_weights :: "TenantId \<rightharpoonup> u32"
  max_outstanding_per_tenant :: u32
  max_contribution_per_batch :: u32
  default_weight :: u32

definition policy_weight :: "FairnessPolicy \<Rightarrow> TenantId \<Rightarrow> u32" where
  "policy_weight p t = (case fair_weights p t of None \<Rightarrow> default_weight p | Some w \<Rightarrow> w)"

record SplitPolicy =
  split_enabled :: bool
  split_max_depth :: u32
  preserve_fairness :: bool

record MergePolicy =
  merge_enabled :: bool
  max_merges_per_cycle :: u32
  require_same_epoch :: bool

record RetryPolicy =
  retry_enabled :: bool
  max_attempts :: u32
  backoff_base_ns :: TimePoint
  backoff_max_ns :: TimePoint
  retry_deadline_gap_ns :: TimePoint

record BatchConstraints =
  budget :: BatchBudget
  global_max_wait_ns :: TimePoint
  minimum_preferred_batch :: u32
  allow_cross_phase :: bool
  latency_waits_ns :: "LatencyClass \<rightharpoonup> TimePoint"

record BatchPolicy =
  pol_constraints :: BatchConstraints
  pol_fairness :: FairnessPolicy
  pol_wait :: WaitPolicy
  pol_split :: SplitPolicy
  pol_merge :: MergePolicy
  pol_retry :: RetryPolicy

definition default_policy :: BatchPolicy where
  "default_policy = \<lparr>
     pol_constraints = \<lparr>
       budget = \<lparr>max_requests = 0, max_input_tokens = 0, max_output_tokens = 0, max_work = 0,
         max_memory_bytes = 0\<rparr>,
       global_max_wait_ns = 0, minimum_preferred_batch = 1, allow_cross_phase = False,
       latency_waits_ns = Map.empty\<rparr>,
     pol_fairness = \<lparr>fair_enabled = True, fair_weights = Map.empty,
       max_outstanding_per_tenant = 0, max_contribution_per_batch = 0, default_weight = 1\<rparr>,
     pol_wait = \<lparr>wait_global_max_wait_ns = 0, latency_max_wait_ns = Map.empty,
       immediate_seal_when_solo = False\<rparr>,
     pol_split = \<lparr>split_enabled = True, split_max_depth = 4, preserve_fairness = True\<rparr>,
     pol_merge = \<lparr>merge_enabled = True, max_merges_per_cycle = 8, require_same_epoch = True\<rparr>,
     pol_retry = \<lparr>retry_enabled = True, max_attempts = 3, backoff_base_ns = 1000000,
       backoff_max_ns = 1000000000, retry_deadline_gap_ns = 0\<rparr>\<rparr>"

section \<open>Properties\<close>

text \<open>
  For limits below half the range and amounts that are each within the limits, the wrapping
  64-bit test of \<open>allows_add\<close> agrees with the exact sums.
\<close>

theorem allows_add_exact:
  assumes "budget_half_range B"
    and "below_lim (max_input_tokens B) (unat cin)" "below_lim (max_input_tokens B) (unat ain)"
    and "below_lim (max_output_tokens B) (unat cout)" "below_lim (max_output_tokens B) (unat aout)"
    and "below_lim (max_work B) (unat cwork)" "below_lim (max_work B) (unat awork)"
    and "below_lim (max_memory_bytes B) (unat cmem)" "below_lim (max_memory_bytes B) (unat amem)"
  shows "allows_add B cc cin cout cwork cmem ac ain aout awork amem \<longleftrightarrow>
     below_lim (max_requests B) (unat cc + unat ac) \<and>
     below_lim (max_input_tokens B) (unat cin + unat ain) \<and>
     below_lim (max_output_tokens B) (unat cout + unat aout) \<and>
     below_lim (max_work B) (unat cwork + unat awork) \<and>
     below_lim (max_memory_bytes B) (unat cmem + unat amem)"
  using assms by (rule allows_add_half_range)

definition small_budget :: BatchBudget where
  "small_budget = \<lparr>max_requests = 4, max_input_tokens = 100, max_output_tokens = 0, max_work = 50,
     max_memory_bytes = 0\<rparr>"

theorem allows_add_exact_witness:
  "allows_add small_budget 3 60 7 20 9 1 40 8 30 9 \<and> \<not> allows_add small_budget 3 60 7 20 9 1 41 8 30 9"
  using allows_add_exact [of small_budget 60 40 7 8 20 30 9 9 3 1]
    allows_add_exact [of small_budget 60 41 7 8 20 30 9 9 3 1]
  by (simp add: small_budget_def budget_half_range_def half_range_def below_lim_def)

text \<open>
  Above that range the sum wraps: a batch that already uses the whole limit accepts one more
  request whose amount is the limit's complement.
\<close>

theorem allows_add_wraps:
  "allows_add \<lparr>max_requests = 0, max_input_tokens = mx, max_output_tokens = 0, max_work = 0,
     max_memory_bytes = 0\<rparr> c mx 0 0 0 1 (- mx) 0 0 0"
  by (simp add: allows_add_def)

end
