(* ===== verification/Byte_IO.thy ===== *)
theory Byte_IO
  imports Ids
begin

text \<open>
  The serialisation primitives of \<open>io.hpp\<close>. A \<open>ByteWriter\<close> method is the byte string it appends
  to the buffer, so that a sequence of calls is a concatenation. A \<open>ByteReader\<close> is the part of
  the input it has not consumed: a method either fails on an overrun (\<open>None\<close>) or gives the value
  and the unread rest, so that \<open>remaining()\<close> is a length.

  The locale \<open>codec\<close> is the contract between a writer and a reader: what was written is read
  back, with the rest of the input untouched. \<open>exact_codec\<close> adds that nothing else is accepted.
\<close>

section \<open>Writers\<close>

definition wr_u8 :: "u8 \<Rightarrow> u8 list" where
  "wr_u8 v = [v]"

definition wr_u16 :: "u16 \<Rightarrow> u8 list" where
  "wr_u16 v = [ucast (drop_bit 8 v AND 0xff), ucast (v AND 0xff)]"

definition wr_u32 :: "u32 \<Rightarrow> u8 list" where
  "wr_u32 v = [ucast (drop_bit 24 v AND 0xff), ucast (drop_bit 16 v AND 0xff),
     ucast (drop_bit 8 v AND 0xff), ucast (v AND 0xff)]"

definition wr_u64 :: "u64 \<Rightarrow> u8 list" where
  "wr_u64 v = map (\<lambda>i. ucast (drop_bit (8 * i) v AND 0xff)) (rev [0..<8])"

definition wr_i64 :: "int \<Rightarrow> u8 list" where
  "wr_i64 t = wr_u64 (word_of_int t)"

definition char_byte :: "char \<Rightarrow> u8" where
  "char_byte c = of_nat (of_char c)"

definition byte_char :: "u8 \<Rightarrow> char" where
  "byte_char b = char_of (unat b)"

definition wr_string :: "string \<Rightarrow> u8 list" where
  "wr_string s = wr_u64 (of_nat (length s)) @ map char_byte s"

definition wr_id :: "'k Id \<Rightarrow> u8 list" where
  "wr_id i = wr_u64 (id_value i)"

section \<open>Readers\<close>

type_synonym 'a reader = "u8 list \<Rightarrow> ('a \<times> u8 list) option"

definition rd_u8 :: "u8 reader" where
  "rd_u8 r = (if 1 > length r then None else Some (r ! 0, drop 1 r))"

definition rd_u16 :: "u16 reader" where
  "rd_u16 r =
     (if 2 > length r then None
      else Some (push_bit 8 (ucast (r ! 0)) OR ucast (r ! 1), drop 2 r))"

definition rd_u32 :: "u32 reader" where
  "rd_u32 r =
     (if 4 > length r then None
      else Some (push_bit 24 (ucast (r ! 0)) OR push_bit 16 (ucast (r ! 1)) OR
        push_bit 8 (ucast (r ! 2)) OR ucast (r ! 3), drop 4 r))"

definition rd_u64 :: "u64 reader" where
  "rd_u64 r =
     (if 8 > length r then None
      else Some (foldl (\<lambda>v i. push_bit 8 v OR ucast (r ! i)) 0 [0..<8], drop 8 r))"

definition rd_i64 :: "int reader" where
  "rd_i64 r = do { (u, r) \<leftarrow> rd_u64 r; Some (sint u, r) }"

definition kDefaultMaxStringLen :: nat where
  "kDefaultMaxStringLen = 2 ^ 20"

definition rd_string :: "string reader" where
  "rd_string r = do {
     (len, r) \<leftarrow> rd_u64 r;
     guard (\<not> (unat len > kDefaultMaxStringLen \<or> unat len > length r));
     Some (map byte_char (take (unat len) r), drop (unat len) r)
   }"

definition rd_id :: "'k Id reader" where
  "rd_id r = do { (v, r) \<leftarrow> rd_u64 r; Some (Id v, r) }"

definition rd_bytes :: "nat \<Rightarrow> u8 list reader" where
  "rd_bytes n r = (if n > length r then None else Some (take n r, drop n r))"

text \<open>A counted loop of reads that stops at the first failure.\<close>

fun rd_times :: "'a reader \<Rightarrow> nat \<Rightarrow> 'a list reader" where
  "rd_times rd 0 r = Some ([], r)"
| "rd_times rd (Suc n) r = do {
     (x, r) \<leftarrow> rd r;
     (xs, r) \<leftarrow> rd_times rd n r;
     Some (x # xs, r)
   }"

section \<open>The contract of a writer and a reader\<close>

locale codec =
  fixes wr :: "'a \<Rightarrow> u8 list" and rd :: "'a reader" and ok :: "'a \<Rightarrow> bool"
  assumes rd_wr: "ok x \<Longrightarrow> rd (wr x @ r) = Some (x, r)"
begin

lemma wr_inj:
  assumes "ok x" and "ok y" and "wr x @ r = wr y @ r'"
  shows "x = y \<and> r = r'"
proof -
  have "Some (x, r) = rd (wr x @ r)" by (simp only: rd_wr [OF assms(1)])
  also have "\<dots> = rd (wr y @ r')" by (simp only: assms(3))
  also have "\<dots> = Some (y, r')" by (rule rd_wr [OF assms(2)])
  finally show ?thesis by simp
qed

lemma wr_append_iff: "ok x \<Longrightarrow> ok y \<Longrightarrow> wr x @ r = wr y @ r' \<longleftrightarrow> x = y \<and> r = r'"
  using wr_inj by blast

lemma rd_times_wr:
  "\<forall>x \<in> set xs. ok x \<Longrightarrow> rd_times rd (length xs) (concat (map wr xs) @ r) = Some (xs, r)"
  by (induction xs) (simp_all add: rd_wr)

lemma concat_wr_inj:
  assumes "\<forall>x \<in> set xs. ok x" and "\<forall>x \<in> set ys. ok x" and "length xs = length ys"
    and "concat (map wr xs) @ r = concat (map wr ys) @ r'"
  shows "xs = ys \<and> r = r'"
proof -
  have "Some (xs, r) = rd_times rd (length xs) (concat (map wr xs) @ r)"
    by (simp only: rd_times_wr [OF assms(1)])
  also have "\<dots> = rd_times rd (length ys) (concat (map wr ys) @ r')" by (simp only: assms(3,4))
  also have "\<dots> = Some (ys, r')" by (rule rd_times_wr [OF assms(2)])
  finally show ?thesis by simp
qed

end

locale exact_codec = codec +
  assumes rd_only: "rd r = Some (x, r') \<Longrightarrow> ok x \<and> r = wr x @ r'"
begin

lemma rd_iff: "rd r = Some (x, r') \<longleftrightarrow> ok x \<and> r = wr x @ r'"
  using rd_only rd_wr by blast

lemma rd_times_iff:
  "rd_times rd n r = Some (xs, r') \<longleftrightarrow>
     length xs = n \<and> (\<forall>x \<in> set xs. ok x) \<and> r = concat (map wr xs) @ r'"
proof
  show "length xs = n \<and> (\<forall>x \<in> set xs. ok x) \<and> r = concat (map wr xs) @ r'"
    if "rd_times rd n r = Some (xs, r')"
    using that by (induction n arbitrary: r xs) (auto simp: bind_eq_Some_conv rd_iff)
qed (use rd_times_wr in auto)

end

section \<open>The primitive codecs\<close>

lemma and_ff: "w AND 0xff = take_bit 8 w" for w :: "'a::len word"
  by (simp add: take_bit_eq_mask mask_eq_exp_minus_1)

lemma wr_u64_be: "wr_u64 v = be_bytes 8 v"
proof -
  have m: "(ucast (w AND 0xff) :: u8) = ucast w" for w :: u64
    by (rule bit_word_eqI) (auto simp: bit_simps and_ff)
  show ?thesis
    by (simp add: wr_u64_def upt_rec numeral_eq_Suc m drop_bit_drop_bit)
qed

lemma rd_u64_be: "rd_u64 r = (if 8 > length r then None else Some (be_val (take 8 r), drop 8 r))"
proof -
  have "take 8 r = map ((!) r) [0..<8]" if "\<not> 8 > length r"
    using that by (simp add: list_eq_iff_nth_eq)
  then show ?thesis
    by (simp add: rd_u64_def be_val_def foldl_map)
qed

lemma be_bytes_be_val:
  "be_bytes (length bs) (be_val bs :: 'a::len word) = bs" if "8 * length bs \<le> LENGTH('a)"
  using that
proof (induction bs rule: rev_induct)
  case Nil
  show ?case by simp
next
  case (snoc b bs)
  let ?v = "be_val bs :: 'a word"
  have len: "8 \<le> LENGTH('a)" and len': "8 * length bs + 8 \<le> LENGTH('a)"
    using snoc.prems by simp_all
  have small: "take_bit (8 * length bs) ?v = ?v"
    using snoc by (metis be_val_be_bytes add_leE length_append mult_le_mono2 order_trans le_add1)
  have hi: "drop_bit 8 (push_bit 8 ?v OR ucast b) = ?v"
  proof (rule bit_word_eqI)
    fix n assume n: "n < LENGTH('a)"
    have "bit ?v n \<Longrightarrow> n < 8 * length bs"
      by (metis small bit_take_bit_iff)
    with n len' show "bit (drop_bit 8 (push_bit 8 ?v OR ucast b)) n = bit ?v n"
      by (auto simp: bit_simps dest: bit_imp_le_length)
  qed
  have lo: "(ucast (push_bit 8 ?v OR ucast b) :: u8) = b"
    using len by (auto intro!: bit_word_eqI simp: bit_simps)
  show ?case
    using snoc.IH len' by (simp add: be_val_snoc hi lo del: drop_bit_or)
qed

interpretation u8c: exact_codec wr_u8 rd_u8 "\<lambda>_. True"
  by unfold_locales (auto simp: wr_u8_def rd_u8_def neq_Nil_conv Suc_le_eq split: if_splits)

interpretation u64c: exact_codec wr_u64 rd_u64 "\<lambda>_. True"
proof
  show "rd_u64 (wr_u64 x @ r) = Some (x, r)" for x r
    using be_val_be_bytes [of 8 x] by (simp add: rd_u64_be wr_u64_be take_bit_word_eq_self)
  show "True \<and> r = wr_u64 x @ r'" if "rd_u64 r = Some (x, r')" for r x r'
    using that be_bytes_be_val [of "take 8 r", where ?'a = 64]
    by (auto simp: rd_u64_be wr_u64_be split: if_splits)
qed

lemma wr_u32_be: "wr_u32 v = be_bytes 4 v"
proof -
  have m: "(ucast (w AND 0xff) :: u8) = ucast w" for w :: u32
    by (rule bit_word_eqI) (auto simp: bit_simps and_ff)
  show ?thesis
    by (simp add: wr_u32_def numeral_eq_Suc m drop_bit_drop_bit)
qed

lemma rd_u32_be: "rd_u32 r = (if 4 > length r then None else Some (be_val (take 4 r), drop 4 r))"
proof -
  have "push_bit 24 (ucast (r ! 0)) OR push_bit 16 (ucast (r ! 1)) OR
      push_bit 8 (ucast (r ! 2)) OR ucast (r ! 3) = (be_val (take 4 r) :: u32)"
    if "\<not> 4 > length r"
  proof -
    have t: "take 4 r = map ((!) r) [0..<4]"
      using that by (simp add: list_eq_iff_nth_eq)
    have l: "[0..<4] = [0, 1, 2, 3]"
      by (simp add: upt_rec)
    show ?thesis
      unfolding t l be_val_def
      by (rule bit_word_eqI) (auto simp: bit_simps dest: bit_imp_le_length)
  qed
  then show ?thesis
    by (simp add: rd_u32_def)
qed

interpretation u32c: exact_codec wr_u32 rd_u32 "\<lambda>_. True"
proof
  show "rd_u32 (wr_u32 x @ r) = Some (x, r)" for x r
    using be_val_be_bytes [of 4 x] by (simp add: rd_u32_be wr_u32_be take_bit_word_eq_self)
  show "True \<and> r = wr_u32 x @ r'" if "rd_u32 r = Some (x, r')" for r x r'
    using that be_bytes_be_val [of "take 4 r", where ?'a = 32]
    by (auto simp: rd_u32_be wr_u32_be split: if_splits)
qed

lemma sint_word_of_int_64: "time_ok t \<Longrightarrow> sint (word_of_int t :: u64) = t"
  by (simp add: time_ok_def int_word_sint mod_pos_pos_trivial)

lemma time_ok_sint: "time_ok (sint (v :: u64))"
  using sint_greater_eq [of v] sint_less [of v] by (simp add: time_ok_def)

interpretation i64c: exact_codec wr_i64 rd_i64 time_ok
proof
  show "rd_i64 (wr_i64 x @ r) = Some (x, r)" if "time_ok x" for x r
    using that by (simp add: rd_i64_def wr_i64_def u64c.rd_wr sint_word_of_int_64)
  show "time_ok x \<and> r = wr_i64 x @ r'" if "rd_i64 r = Some (x, r')" for r x r'
    using that by (auto simp: rd_i64_def wr_i64_def bind_eq_Some_conv u64c.rd_iff time_ok_sint)
qed

interpretation idc: exact_codec wr_id rd_id "\<lambda>_. True"
  by unfold_locales
    (auto simp: wr_id_def rd_id_def u64c.rd_iff bind_eq_Some_conv Id.expand)

lemma byte_char_char_byte [simp]: "byte_char (char_byte c) = c"
proof -
  have "(of_char c :: nat) < 256"
    by (metis mod_less_divisor of_char_mod_256 zero_less_numeral)
  then have "unat (of_nat (of_char c) :: u8) = of_char c"
    by (simp add: unat_of_nat)
  then show ?thesis
    by (simp add: byte_char_def char_byte_def)
qed

lemma char_byte_byte_char [simp]: "char_byte (byte_char b) = b"
proof -
  have "unat b < 256"
    using unsigned_less [of b, where ?'a = nat] by simp
  then show ?thesis
    by (simp add: byte_char_def char_byte_def)
qed

lemma map_char_byte_inverse [simp]:
  "byte_char \<circ> char_byte = id" "char_byte \<circ> byte_char = id"
  by (simp_all add: fun_eq_iff)

text \<open>Strings the reader accepts: at most one mebibyte.\<close>

definition string_ok :: "string \<Rightarrow> bool" where
  "string_ok s \<longleftrightarrow> length s \<le> kDefaultMaxStringLen"

lemma string_ok_small:
  "string_ok s \<Longrightarrow> unat (of_nat (length s) :: u64) = length s"
  by (simp add: string_ok_def kDefaultMaxStringLen_def unat_of_nat)

interpretation strc: exact_codec wr_string rd_string string_ok
proof
  show "rd_string (wr_string x @ r) = Some (x, r)" if "string_ok x" for x r
    using that string_ok_small [OF that]
    by (simp add: rd_string_def wr_string_def u64c.rd_wr string_ok_def)
  show "string_ok x \<and> r = wr_string x @ r'" if "rd_string r = Some (x, r')" for r x r'
    using that
    by (auto simp: rd_string_def wr_string_def string_ok_def bind_eq_Some_conv u64c.rd_iff
        min_def)
qed

definition bytes32_ok :: "u8 list \<Rightarrow> bool" where
  "bytes32_ok d \<longleftrightarrow> length d = 32"

interpretation digc: exact_codec "\<lambda>d. d" "rd_bytes 32" bytes32_ok
  by unfold_locales (auto simp: rd_bytes_def bytes32_ok_def split: if_splits)

lemmas prim_rd_wr [codec] =
  u8c.rd_wr u32c.rd_wr u64c.rd_wr i64c.rd_wr idc.rd_wr strc.rd_wr digc.rd_wr

lemmas prim_rd_iff =
  u8c.rd_iff u32c.rd_iff u64c.rd_iff i64c.rd_iff idc.rd_iff strc.rd_iff digc.rd_iff

lemma wr_lengths [wlen]:
  "length (wr_u8 a) = 1" "length (wr_u32 b) = 4" "length (wr_u64 c) = 8"
  "length (wr_i64 t) = 8" "length (wr_id i) = 8" "length (wr_string s) = 8 + length s"
  by (simp_all add: wr_u8_def wr_u32_be wr_u64_be wr_i64_def wr_id_def wr_string_def)

end
