(* ===== verification/Hash.thy ===== *)
theory Hash
  imports Byte_IO
begin

text \<open>
  \<open>hash.hpp\<close> and \<open>hash.cpp\<close>: the streaming SHA-256, hexadecimal digests, FNV-1a and the
  SplitMix64 mixer. The streaming class is proved equal to the block-wise definition of the
  standard (padding, then one compression per 64-byte block), whatever way the input is cut into
  \<open>update\<close> calls.
\<close>

section \<open>The compression function\<close>

definition kSha256K :: "u32 list" where
  "kSha256K = concat [
    [0x428a2f98, 0x71374491, 0xb5c0fbcf, 0xe9b5dba5, 0x3956c25b, 0x59f111f1],
    [0x923f82a4, 0xab1c5ed5, 0xd807aa98, 0x12835b01, 0x243185be, 0x550c7dc3],
    [0x72be5d74, 0x80deb1fe, 0x9bdc06a7, 0xc19bf174, 0xe49b69c1, 0xefbe4786],
    [0x0fc19dc6, 0x240ca1cc, 0x2de92c6f, 0x4a7484aa, 0x5cb0a9dc, 0x76f988da],
    [0x983e5152, 0xa831c66d, 0xb00327c8, 0xbf597fc7, 0xc6e00bf3, 0xd5a79147],
    [0x06ca6351, 0x14292967, 0x27b70a85, 0x2e1b2138, 0x4d2c6dfc, 0x53380d13],
    [0x650a7354, 0x766a0abb, 0x81c2c92e, 0x92722c85, 0xa2bfe8a1, 0xa81a664b],
    [0xc24b8b70, 0xc76c51a3, 0xd192e819, 0xd6990624, 0xf40e3585, 0x106aa070],
    [0x19a4c116, 0x1e376c08, 0x2748774c, 0x34b0bcb5, 0x391c0cb3, 0x4ed8aa4a],
    [0x5b9cca4f, 0x682e6ff3, 0x748f82ee, 0x78a5636f, 0x84c87814, 0x8cc70208],
    [0x90befffa, 0xa4506ceb, 0xbef9a3f7, 0xc67178f2]]"

definition ror :: "u32 \<Rightarrow> nat \<Rightarrow> u32" where
  "ror x n = drop_bit n x OR push_bit (32 - n) x"

text \<open>The shift-and-or rotation of the source is the rotation of the word library.\<close>

lemma ror_is_rotation:
  assumes "0 < n" and "n < 32"
  shows "ror x n = word_rotr n x"
proof (rule bit_word_eqI)
  fix k assume k: "k < LENGTH(32)"
  have out: "\<not> bit x j" if "32 \<le> j" for j
    using that bit_imp_le_length [of x j] by auto
  show "bit (ror x n) k = bit (word_rotr n x) k"
  proof (cases "k + n < 32")
    case True
    then show ?thesis
      using assms k by (auto simp: ror_def bit_simps add.commute)
  next
    case False
    then have "(k + n) mod 32 = k + n - 32"
      using assms k by (simp add: le_mod_geq)
    then show ?thesis
      using False assms k out [of "n + k"] by (auto simp: ror_def bit_simps)
  qed
qed

definition load_be32 :: "u8 list \<Rightarrow> nat \<Rightarrow> u32" where
  "load_be32 block i =
     push_bit 24 (ucast (block ! (i * 4))) OR push_bit 16 (ucast (block ! (i * 4 + 1))) OR
     push_bit 8 (ucast (block ! (i * 4 + 2))) OR ucast (block ! (i * 4 + 3))"

definition schedule_step :: "nat \<Rightarrow> u32 list \<Rightarrow> u32 list" where
  "schedule_step i w =
     (let s0 = ror (w ! (i - 15)) 7 XOR ror (w ! (i - 15)) 18 XOR drop_bit 3 (w ! (i - 15));
          s1 = ror (w ! (i - 2)) 17 XOR ror (w ! (i - 2)) 19 XOR drop_bit 10 (w ! (i - 2))
      in w @ [w ! (i - 16) + s0 + w ! (i - 7) + s1])"

definition message_schedule :: "u8 list \<Rightarrow> u32 list" where
  "message_schedule block = fold schedule_step [16..<64] (map (load_be32 block) [0..<16])"

type_synonym vars8 = "u32 \<times> u32 \<times> u32 \<times> u32 \<times> u32 \<times> u32 \<times> u32 \<times> u32"

fun sha_round :: "u32 \<times> u32 \<Rightarrow> vars8 \<Rightarrow> vars8" where
  "sha_round (k, w) (a, b, c, d, e, f, g, h) =
     (let S1 = ror e 6 XOR ror e 11 XOR ror e 25;
          ch = (e AND f) XOR (NOT e AND g);
          temp1 = h + S1 + ch + k + w;
          S0 = ror a 2 XOR ror a 13 XOR ror a 22;
          maj = (a AND b) XOR (a AND c) XOR (b AND c);
          temp2 = S0 + maj
      in (temp1 + temp2, a, b, c, d + temp1, e, f, g))"

definition transform :: "u32 list \<Rightarrow> u8 list \<Rightarrow> u32 list" where
  "transform st block =
     (case fold sha_round (zip kSha256K (message_schedule block))
         (st ! 0, st ! 1, st ! 2, st ! 3, st ! 4, st ! 5, st ! 6, st ! 7) of
        (a, b, c, d, e, f, g, h) \<Rightarrow>
          [st ! 0 + a, st ! 1 + b, st ! 2 + c, st ! 3 + d,
           st ! 4 + e, st ! 5 + f, st ! 6 + g, st ! 7 + h])"

section \<open>The streaming class\<close>

text \<open>
  \<open>buffer_\<close> and \<open>buffered_\<close> together are the list of the buffered bytes: the bytes of the array
  beyond \<open>buffered_\<close> are overwritten before they are read.
\<close>

record Sha256 =
  sha_state :: "u32 list"
  sha_buffer :: "u8 list"
  sha_total_len :: u64

definition sha_reset :: Sha256 where
  "sha_reset = \<lparr>sha_state = [0x6a09e667, 0xbb67ae85, 0x3c6ef372, 0xa54ff53a,
       0x510e527f, 0x9b05688c, 0x1f83d9ab, 0x5be0cd19],
     sha_buffer = [], sha_total_len = 0\<rparr>"

text \<open>
  The loop of \<open>update\<close>. The class keeps fewer than 64 bytes buffered between calls
  (\<open>sha_ok\<close> below), so the second disjunct of the exit test never holds in a run.
\<close>

function sha_update_loop :: "Sha256 \<Rightarrow> u8 list \<Rightarrow> Sha256" where
  "sha_update_loop s data =
     (if data = [] \<or> 64 \<le> length (sha_buffer s) then s
      else let n = min (64 - length (sha_buffer s)) (length data);
               buf = sha_buffer s @ take n data
           in if length buf = 64
              then sha_update_loop
                (s\<lparr>sha_state := transform (sha_state s) buf, sha_buffer := []\<rparr>) (drop n data)
              else sha_update_loop (s\<lparr>sha_buffer := buf\<rparr>) (drop n data))"
  by pat_completeness auto
termination
  by (relation "measure (\<lambda>(s, data). length data)") auto

declare sha_update_loop.simps [simp del]

definition sha_update :: "Sha256 \<Rightarrow> u8 list \<Rightarrow> Sha256" where
  "sha_update s data =
     sha_update_loop (s\<lparr>sha_total_len := sha_total_len s + of_nat (length data)\<rparr>) data"

definition sha_ok :: "Sha256 \<Rightarrow> bool" where
  "sha_ok s \<longleftrightarrow> length (sha_buffer s) < 64"

section \<open>The block-wise reference\<close>

text \<open>\<open>absorb (st, buf) data\<close>: compress every complete 64-byte block of \<open>buf @ data\<close>.\<close>

fun compress_blocks :: "u32 list \<Rightarrow> u8 list \<Rightarrow> u32 list \<times> u8 list" where
  "compress_blocks st bs =
     (if length bs < 64 then (st, bs)
      else compress_blocks (transform st (take 64 bs)) (drop 64 bs))"

declare compress_blocks.simps [simp del]

definition absorb :: "u32 list \<times> u8 list \<Rightarrow> u8 list \<Rightarrow> u32 list \<times> u8 list" where
  "absorb p data = compress_blocks (fst p) (snd p @ data)"

lemma compress_blocks_append:
  "compress_blocks st (xs @ ys)
     = (case compress_blocks st xs of (st', rest) \<Rightarrow> compress_blocks st' (rest @ ys))"
proof (induction st xs rule: compress_blocks.induct)
  case (1 st xs)
  show ?case
  proof (cases "length xs < 64")
    case True
    then show ?thesis by (simp add: compress_blocks.simps [of st xs])
  next
    case False
    then show ?thesis
      using "1.IH" by (simp add: compress_blocks.simps [of st xs] compress_blocks.simps [of st "xs @ ys"])
  qed
qed

lemma absorb_absorb: "absorb (absorb p a) b = absorb p (a @ b)"
  using compress_blocks_append [of "fst p" "snd p @ a" b]
  by (simp add: absorb_def split: prod.splits)

lemma length_compress_blocks: "length (snd (compress_blocks st bs)) = length bs mod 64"
proof (induction st bs rule: compress_blocks.induct)
  case (1 st bs)
  then show ?case
    by (subst compress_blocks.simps) (auto simp: le_mod_geq)
qed

lemma length_absorb: "length (snd (absorb p data)) = (length (snd p) + length data) mod 64"
  by (simp add: absorb_def length_compress_blocks)

definition core :: "Sha256 \<Rightarrow> u32 list \<times> u8 list" where
  "core s = (sha_state s, sha_buffer s)"

lemma sha_update_loop_core: "sha_ok s \<Longrightarrow> core (sha_update_loop s data) = absorb (core s) data"
proof (induction s data rule: sha_update_loop.induct)
  case (1 s data)
  show ?case
  proof (cases "data = []")
    case True
    then show ?thesis
      using "1.prems"
      by (simp add: sha_update_loop.simps [of s "[]"] absorb_def core_def sha_ok_def
          compress_blocks.simps [of "sha_state s" "sha_buffer s"])
  next
    case False
    define n where "n = min (64 - length (sha_buffer s)) (length data)"
    define buf where "buf = sha_buffer s @ take n data"
    have cont: "\<not> (data = [] \<or> 64 \<le> length (sha_buffer s))"
      using False "1.prems" by (simp add: sha_ok_def)
    have whole: "buf @ drop n data = sha_buffer s @ data"
      by (simp add: buf_def)
    have le: "length buf \<le> 64"
      using "1.prems" by (simp add: buf_def n_def sha_ok_def)
    show ?thesis
    proof (cases "length buf = 64")
      case True
      let ?s' = "s\<lparr>sha_state := transform (sha_state s) buf, sha_buffer := []\<rparr>"
      have step: "sha_update_loop s data = sha_update_loop ?s' (drop n data)"
        using cont True
        unfolding n_def buf_def by (subst sha_update_loop.simps) (simp add: Let_def)
      have "core (sha_update_loop ?s' (drop n data)) = absorb (core ?s') (drop n data)"
        using "1.IH"(1) [OF cont n_def buf_def True] by (simp add: sha_ok_def)
      also have "\<dots> = compress_blocks (sha_state s) (buf @ drop n data)"
        using True by (simp add: absorb_def core_def compress_blocks.simps [of "sha_state s"])
      finally show ?thesis
        by (simp add: step whole absorb_def core_def)
    next
      case False
      let ?s' = "s\<lparr>sha_buffer := buf\<rparr>"
      have step: "sha_update_loop s data = sha_update_loop ?s' (drop n data)"
        using cont False
        unfolding n_def buf_def by (subst sha_update_loop.simps) (simp add: Let_def)
      have "core (sha_update_loop ?s' (drop n data)) = absorb (core ?s') (drop n data)"
        using "1.IH"(2) [OF cont n_def buf_def False] le False by (simp add: sha_ok_def)
      then show ?thesis
        by (simp add: step whole absorb_def core_def)
    qed
  qed
qed

lemma core_update: "sha_ok s \<Longrightarrow> core (sha_update s data) = absorb (core s) data"
  using sha_update_loop_core [of "s\<lparr>sha_total_len := sha_total_len s + of_nat (length data)\<rparr>" data]
  by (simp add: sha_update_def sha_ok_def core_def)

lemma sha_ok_update: "sha_ok s \<Longrightarrow> sha_ok (sha_update s data)"
  using core_update [of s data] length_absorb [of "core s" data]
  by (simp add: sha_ok_def core_def) (metis mod_less_divisor snd_conv zero_less_numeral)

section \<open>Padding and the digest\<close>

function sha_zero_pad :: "Sha256 \<Rightarrow> Sha256" where
  "sha_zero_pad s =
     (if length (sha_buffer s) = 56 \<or> 64 \<le> length (sha_buffer s) then s
      else sha_zero_pad (sha_update s [0]))"
  by pat_completeness auto

lemma length_update_byte:
  "sha_ok s \<Longrightarrow> length (sha_buffer (sha_update s [b])) = Suc (length (sha_buffer s)) mod 64"
  using arg_cong [OF core_update [of s "[b]"], of "\<lambda>p. length (snd p)"] length_absorb [of "core s" "[b]"]
  by (simp add: core_def)

definition zeros_left :: "nat \<Rightarrow> nat" where
  "zeros_left n = (if n \<le> 56 then 56 - n else 120 - n)"

lemma zeros_left_step:
  assumes "n < 64" and "n \<noteq> 56"
  shows "zeros_left n = Suc (zeros_left (Suc n mod 64))"
proof (cases "n = 63")
  case True
  then show ?thesis by (simp add: zeros_left_def)
next
  case False
  with assms have "Suc n mod 64 = Suc n" by simp
  with assms False show ?thesis by (auto simp: zeros_left_def)
qed

termination sha_zero_pad
  by (relation "measure (\<lambda>s. zeros_left (length (sha_buffer s)))")
    (auto simp: length_update_byte sha_ok_def zeros_left_step)

declare sha_zero_pad.simps [simp del]

lemma core_zero_pad:
  "sha_ok s \<Longrightarrow> sha_ok (sha_zero_pad s) \<and> length (sha_buffer (sha_zero_pad s)) = 56 \<and>
     core (sha_zero_pad s) = absorb (core s) (replicate (zeros_left (length (sha_buffer s))) 0)"
proof (induction s rule: sha_zero_pad.induct)
  case (1 s)
  show ?case
  proof (cases "length (sha_buffer s) = 56")
    case True
    then show ?thesis
      using "1.prems"
      by (simp add: sha_zero_pad.simps [of s] zeros_left_def absorb_def core_def sha_ok_def
          compress_blocks.simps [of "sha_state s" "sha_buffer s"])
  next
    case False
    have n: "length (sha_buffer s) < 64"
      using "1.prems" by (simp add: sha_ok_def)
    have step: "sha_zero_pad s = sha_zero_pad (sha_update s [0])"
      using False n by (simp add: sha_zero_pad.simps [of s])
    show ?thesis
      using "1.IH" "1.prems" False n
      by (simp add: step sha_ok_update core_update absorb_absorb length_update_byte
          zeros_left_step [OF n False])
  qed
qed

definition length_bytes :: "u64 \<Rightarrow> u8 list" where
  "length_bytes bitlen = map (\<lambda>i. ucast (drop_bit (8 * (7 - i)) bitlen AND 0xff)) [0..<8]"

definition digest_bytes :: "u32 list \<Rightarrow> u8 list" where
  "digest_bytes st = concat (map (\<lambda>i.
     [ucast (drop_bit 24 (st ! i) AND 0xff), ucast (drop_bit 16 (st ! i) AND 0xff),
      ucast (drop_bit 8 (st ! i) AND 0xff), ucast (st ! i AND 0xff)]) [0..<8])"

definition sha_final :: "Sha256 \<Rightarrow> u8 list" where
  "sha_final s =
     (let bitlen = sha_total_len s * 8;
          s = sha_update s [0x80];
          s = sha_zero_pad s;
          s = sha_update s (length_bytes bitlen)
      in digest_bytes (sha_state s))"

definition Sha256_digest :: "u8 list \<Rightarrow> u8 list" where
  "Sha256_digest data = sha_final (sha_update sha_reset data)"

text \<open>The standard's definition: pad the message to whole blocks and compress them in order.\<close>

definition sha_pad :: "u8 list \<Rightarrow> u8 list" where
  "sha_pad msg = msg @ [0x80] @ replicate ((119 - length msg mod 64) mod 64) 0 @
     length_bytes (of_nat (length msg) * 8)"

definition sha256_spec :: "u8 list \<Rightarrow> u8 list" where
  "sha256_spec msg = digest_bytes (fst (compress_blocks (sha_state sha_reset) (sha_pad msg)))"

lemma zeros_mod:
  "zeros_left (Suc n mod 64) = (119 - n mod 64) mod 64"
proof -
  have "zeros_left (Suc m mod 64) = (119 - m) mod 64" if "m < 64" for m
  proof (cases "m = 63")
    case True
    then show ?thesis by (simp add: zeros_left_def)
  next
    case False
    with that show ?thesis by (cases "m \<le> 55") (auto simp: zeros_left_def le_mod_geq)
  qed
  from this [of "n mod 64"] show ?thesis by (simp add: mod_Suc_eq)
qed

lemma sha_pad_blocks: "length (sha_pad msg) mod 64 = 0"
proof -
  define m where "m = length msg mod 64"
  have "(m + 9 + (119 - m) mod 64) mod 64 = 0"
  proof (cases "m \<le> 55")
    case True
    then have "(119 - m) mod 64 = 55 - m" by (simp add: le_mod_geq)
    with True show ?thesis by simp
  next
    case False
    have "m < 64" by (simp add: m_def)
    with False have "(119 - m) mod 64 = 119 - m" by simp
    then show ?thesis using \<open>m < 64\<close> by simp
  qed
  moreover have "length (sha_pad msg) = length msg + (9 + (119 - m) mod 64)"
    by (simp add: sha_pad_def length_bytes_def m_def)
  ultimately show ?thesis
    by (metis add.assoc m_def mod_add_left_eq)
qed

lemma total_len_loop: "sha_total_len (sha_update_loop s data) = sha_total_len s"
proof (induction s data rule: sha_update_loop.induct)
  case (1 s data)
  then show ?case
    by (subst sha_update_loop.simps) (simp add: Let_def)
qed

lemma total_len_update:
  "sha_total_len (sha_update s data) = sha_total_len s + of_nat (length data)"
  by (simp add: sha_update_def total_len_loop)

lemma length_Sha256_digest: "length (Sha256_digest data) = 32"
  by (simp add: Sha256_digest_def sha_final_def digest_bytes_def Let_def upt_rec)

text \<open>Any sequence of \<open>update\<close> calls on a fresh object absorbs the concatenated input.\<close>

lemma update_sequence:
  defines "run cs \<equiv> fold (\<lambda>c s. sha_update s c) cs sha_reset"
  shows "sha_ok (run cs) \<and> core (run cs) = absorb (core sha_reset) (concat cs) \<and>
     sha_total_len (run cs) = of_nat (length (concat cs))"
proof (induction cs rule: rev_induct)
  case Nil
  show ?case
    by (simp add: run_def sha_ok_def core_def absorb_def sha_reset_def compress_blocks.simps)
next
  case (snoc c cs)
  then show ?case
    by (simp add: run_def sha_ok_update core_update absorb_absorb total_len_update)
qed

lemma sha_final_spec:
  assumes "sha_ok s" and "core s = absorb (core sha_reset) msg"
    and "sha_total_len s = of_nat (length msg)"
  shows "sha_final s = sha256_spec msg"
proof -
  define s1 where "s1 = sha_update s [0x80]"
  define s2 where "s2 = sha_zero_pad s1"
  define s3 where "s3 = sha_update s2 (length_bytes (of_nat (length msg) * 8))"
  have ok: "sha_ok s1" "sha_ok s2"
    using assms(1) by (simp_all add: s1_def s2_def sha_ok_update core_zero_pad)
  have "length (sha_buffer s) = length msg mod 64"
    using arg_cong [OF assms(2), of "\<lambda>p. length (snd p)"] by (simp add: length_absorb core_def sha_reset_def)
  then have zeros: "zeros_left (length (sha_buffer s1)) = (119 - length msg mod 64) mod 64"
    using assms(1) by (simp add: s1_def length_update_byte mod_Suc_eq zeros_mod)
  have "core s3 = absorb (core sha_reset) (sha_pad msg)"
    using ok assms(1,2)
    by (simp add: s3_def core_update s2_def core_zero_pad zeros absorb_absorb sha_pad_def)
      (simp add: s1_def core_update absorb_absorb assms(2))
  then have "sha_state s3 = fst (compress_blocks (sha_state sha_reset) (sha_pad msg))"
    by (metis absorb_def append_Nil core_def fst_conv select_convs(2) sha_reset_def snd_conv)
  then show ?thesis
    by (simp add: sha_final_def sha256_spec_def assms(3) Let_def s1_def s2_def s3_def)
qed

section \<open>Hexadecimal digests\<close>

definition kHex :: string where
  "kHex = ''0123456789abcdef''"

definition to_hex :: "u8 list \<Rightarrow> string" where
  "to_hex d = concat (map (\<lambda>b. [kHex ! unat (drop_bit 4 b AND 0xf), kHex ! unat (b AND 0xf)]) d)"

definition find_hex :: "char \<Rightarrow> nat option" where
  "find_hex c = map_of (zip kHex [0..<16]) c"

definition zero_digest :: "u8 list" where
  "zero_digest = replicate 32 0"

fun from_hex_pairs :: "string \<Rightarrow> u8 list option" where
  "from_hex_pairs (h # l # s) = do {
     hi \<leftarrow> find_hex h;
     lo \<leftarrow> find_hex l;
     bs \<leftarrow> from_hex_pairs s;
     Some ((push_bit 4 (of_nat hi) OR of_nat lo) # bs)
   }"
| "from_hex_pairs s = Some []"

definition from_hex :: "string \<Rightarrow> u8 list" where
  "from_hex s =
     (if length s \<noteq> 32 * 2 then zero_digest
      else case from_hex_pairs s of None \<Rightarrow> zero_digest | Some d \<Rightarrow> d)"

lemma find_hex_nibble: "n < 16 \<Longrightarrow> find_hex (kHex ! n) = Some n"
proof -
  assume "n < 16"
  moreover have "\<forall>n \<in> set [0..<16]. find_hex (kHex ! n) = Some n"
    by (simp add: find_hex_def kHex_def upt_rec)
  ultimately show ?thesis by simp
qed

lemma unat_nibbles: "unat (drop_bit 4 (b :: u8) AND 0xf) < 16" "unat ((b :: u8) AND 0xf) < 16"
  by (simp_all add: le_less_trans [OF word_and_le1 [THEN word_le_nat_alt [THEN iffD1]]])

lemma nibbles_join: "push_bit 4 (drop_bit 4 b AND 0xf) OR (b AND 0xf) = (b :: u8)"
proof -
  have m: "w AND 0xf = take_bit 4 w" for w :: u8
    by (simp add: take_bit_eq_mask mask_eq_exp_minus_1)
  show ?thesis
    unfolding m by (rule bit_word_eqI) (auto simp: bit_simps)
qed

lemma from_hex_pairs_to_hex: "from_hex_pairs (to_hex d) = Some d"
  by (induction d) (simp_all add: to_hex_def find_hex_nibble unat_nibbles nibbles_join [simplified])

lemma length_to_hex: "length (to_hex d) = 2 * length d"
  by (induction d) (simp_all add: to_hex_def)

lemma from_hex_to_hex: "length d = 32 \<Longrightarrow> from_hex (to_hex d) = d"
proof -
  assume "length d = 32"
  moreover have "length (to_hex d) = 2 * length d" for d
    by (induction d) (simp_all add: to_hex_def)
  ultimately show ?thesis
    by (simp add: from_hex_def from_hex_pairs_to_hex)
qed

section \<open>FNV-1a and the mixer\<close>

definition fnv1a64 :: "string \<Rightarrow> u64" where
  "fnv1a64 s = foldl (\<lambda>h c. (h XOR ucast (char_byte c)) * 1099511628211) 1469598103934665603 s"

definition hash_mix64 :: "u64 \<Rightarrow> u64" where
  "hash_mix64 x =
     (let x = x + 0x9e3779b97f4a7c15;
          x = (x XOR drop_bit 30 x) * 0xbf58476d1ce4e5b9;
          x = (x XOR drop_bit 27 x) * 0x94d049bb133111eb
      in x XOR drop_bit 31 x)"

definition hc_add :: "u64 \<Rightarrow> u64 \<Rightarrow> u64" where
  "hc_add v st = hash_mix64 (st XOR v)"

definition hc_add_string :: "string \<Rightarrow> u64 \<Rightarrow> u64" where
  "hc_add_string s st = hash_mix64 (st XOR fnv1a64 s)"

section \<open>Properties\<close>

text \<open>
  C38: whatever pieces a message is fed in, the streaming hash returns the digest of the standard's
  block-wise definition on the concatenated message.
\<close>

theorem sha256_streaming:
  "sha_final (fold (\<lambda>c s. sha_update s c) cs sha_reset) = sha256_spec (concat cs)"
  using sha_final_spec update_sequence by blast

text \<open>A digest printed as hexadecimal text is read back unchanged.\<close>

theorem hex_round_trip: "length d = 32 \<Longrightarrow> from_hex (to_hex d) = d \<and> length (to_hex d) = 64"
  by (simp add: from_hex_to_hex length_to_hex)

theorem hex_round_trip_witness:
  "from_hex (to_hex (replicate 32 0xa7)) = replicate 32 0xa7 \<and> length (to_hex (replicate 32 (0xa7 :: u8))) = 64"
  using hex_round_trip [of "replicate 32 0xa7"] by simp

end
