(* ===== verification/Identity.thy ===== *)
theory Identity
  imports Enums Hash
begin

text \<open>
  \<open>identity.hpp\<close> and \<open>identity.cpp\<close>: the model descriptor, its printed canonical form, and the
  compatibility key, the SHA-256 digest of a binary encoding of every descriptor field. The
  encoding is injective, so two different descriptors share a key only through a collision of
  SHA-256.
\<close>

section \<open>Descriptors\<close>

record DeviceCapability =
  dev_backend :: Backend
  compute_major :: u32
  compute_minor :: u32
  min_memory_bytes :: u64

definition device_req_mismatch :: "DeviceCapability \<Rightarrow> DeviceCapability \<Rightarrow> bool" where
  "device_req_mismatch c r = False"

definition device_satisfies :: "DeviceCapability \<Rightarrow> DeviceCapability \<Rightarrow> bool" where
  "device_satisfies c r =
     (if device_req_mismatch c r then False
      else if compute_major c < compute_major r then False
      else if compute_major c = compute_major r \<and> compute_minor c < compute_minor r then False
      else min_memory_bytes c \<ge> min_memory_bytes r)"

record ModelDescriptor =
  d_model :: ModelIdentity
  d_revision :: ModelRevision
  d_adapter :: AdapterIdentity
  d_tokenizer :: TokenizerIdentity
  d_phase :: Phase
  d_dtype :: Dtype
  d_backend :: Backend
  d_execution_mode :: ExecutionMode
  d_device :: DeviceCapability
  d_shape :: ShapeKey
  d_sampling_semantics :: string
  d_extensions :: "string list"

definition default_device :: DeviceCapability where
  "default_device = \<lparr>dev_backend = BK_cpu, compute_major = 0, compute_minor = 0,
     min_memory_bytes = 0\<rparr>"

definition default_descriptor :: ModelDescriptor where
  "default_descriptor = \<lparr>d_model = Name [], d_revision = Name [], d_adapter = Name [],
     d_tokenizer = Name [], d_phase = PH_prefill, d_dtype = DT_unknown, d_backend = BK_cpu,
     d_execution_mode = XM_eager, d_device = default_device, d_shape = Name [],
     d_sampling_semantics = [], d_extensions = []\<rparr>"

definition descriptor_eq :: "ModelDescriptor \<Rightarrow> ModelDescriptor \<Rightarrow> bool" where
  "descriptor_eq a b \<longleftrightarrow>
     d_model a = d_model b \<and> d_revision a = d_revision b \<and> d_adapter a = d_adapter b \<and>
     d_tokenizer a = d_tokenizer b \<and> d_phase a = d_phase b \<and> d_dtype a = d_dtype b \<and>
     d_backend a = d_backend b \<and> d_execution_mode a = d_execution_mode b \<and>
     d_device a = d_device b \<and> d_shape a = d_shape b \<and>
     d_sampling_semantics a = d_sampling_semantics b \<and> d_extensions a = d_extensions b"

lemma descriptor_eq_iff: "descriptor_eq a b \<longleftrightarrow> a = b"
  by (auto simp: descriptor_eq_def)

definition sort_extensions :: "ModelDescriptor \<Rightarrow> ModelDescriptor" where
  "sort_extensions d = d\<lparr>d_extensions := sort (d_extensions d)\<rparr>"

section \<open>The printed canonical form\<close>

definition hex2 :: "char \<Rightarrow> string" where
  "hex2 c = [kHex ! (of_char c div 16), kHex ! (of_char c mod 16)]"

definition escape_char :: "char \<Rightarrow> string" where
  "escape_char c =
     (if c = CHR 0x5C then [CHR 0x5C, CHR 0x5C]
      else if c = CHR '';'' then [CHR 0x5C, CHR '';'']
      else if c = CHR '':'' then [CHR 0x5C, CHR '':'']
      else if c = CHR '','' then [CHR 0x5C, CHR '','']
      else if c = CHR ''['' then [CHR 0x5C, CHR ''['']
      else if c = CHR '']'' then [CHR 0x5C, CHR '']'']
      else if (of_char c :: nat) < 0x20 then [CHR 0x5C, CHR ''x''] @ hex2 c
      else [c])"

definition escaped :: "string \<Rightarrow> string" where
  "escaped v = concat (map escape_char v)"

fun comma_escaped :: "string list \<Rightarrow> string" where
  "comma_escaped [] = []"
| "comma_escaped [e] = escaped e"
| "comma_escaped (e # es) = escaped e @ '','' @ comma_escaped es"

definition canonical_string :: "ModelDescriptor \<Rightarrow> string" where
  "canonical_string d =
     ''model='' @ escaped (name_str (d_model d)) @
     '';revision='' @ escaped (name_str (d_revision d)) @
     '';adapter='' @ escaped (name_str (d_adapter d)) @
     '';tokenizer='' @ escaped (name_str (d_tokenizer d)) @
     '';phase='' @ Phase_to_string (d_phase d) @
     '';dtype='' @ Dtype_to_string (d_dtype d) @
     '';backend='' @ Backend_to_string (d_backend d) @
     '';execution_mode='' @ ExecutionMode_to_string (d_execution_mode d) @
     '';device=backend'' @ nat_to_string (unat (Backend_value (dev_backend (d_device d)))) @
     ''/cc'' @ nat_to_string (unat (compute_major (d_device d))) @
     ''.'' @ nat_to_string (unat (compute_minor (d_device d))) @
     ''/mem'' @ to_string_u64 (min_memory_bytes (d_device d)) @
     '';shape='' @ escaped (name_str (d_shape d)) @
     '';sampling='' @ escaped (d_sampling_semantics d) @
     '';extensions=['' @ comma_escaped (d_extensions d) @ '']''"

section \<open>The compatibility key\<close>

datatype CompatibilityKey = CompatibilityKey (key_digest: "u8 list")

definition key_bytes :: "ModelDescriptor \<Rightarrow> u8 list" where
  "key_bytes d =
     wr_u8 1 @
     wr_string (name_str (d_model d)) @
     wr_string (name_str (d_revision d)) @
     wr_string (name_str (d_adapter d)) @
     wr_string (name_str (d_tokenizer d)) @
     wr_u8 (Phase_value (d_phase d)) @
     wr_u8 (Dtype_value (d_dtype d)) @
     wr_u8 (Backend_value (d_backend d)) @
     wr_u8 (ExecutionMode_value (d_execution_mode d)) @
     wr_u8 (Backend_value (dev_backend (d_device d))) @
     wr_u32 (compute_major (d_device d)) @
     wr_u32 (compute_minor (d_device d)) @
     wr_u64 (min_memory_bytes (d_device d)) @
     wr_string (name_str (d_shape d)) @
     wr_string (d_sampling_semantics d) @
     wr_u32 (of_nat (length (d_extensions d))) @
     concat (map wr_string (d_extensions d))"

definition CompatibilityKey_build :: "ModelDescriptor \<Rightarrow> CompatibilityKey" where
  "CompatibilityKey_build d = CompatibilityKey (Sha256_digest (key_bytes d))"

definition key_hex :: "CompatibilityKey \<Rightarrow> string" where
  "key_hex k = to_hex (key_digest k)"

definition null_key :: CompatibilityKey where
  "null_key = CompatibilityKey zero_digest"

definition key_is_null :: "CompatibilityKey \<Rightarrow> bool" where
  "key_is_null k \<longleftrightarrow> key_digest k ! 0 = 0 \<and> key_digest k ! 2 = 0"

text \<open>\<open>std::hash<CompatibilityKey>\<close>: the digest read in base 131, modulo the width of \<open>size_t\<close>.\<close>

definition key_hash :: "CompatibilityKey \<Rightarrow> u64" where
  "key_hash k = fold (\<lambda>b h. h * 131 + ucast b) (key_digest k) 0"

lemma key_hash_horner:
  "fold (\<lambda>b h. h * 131 + ucast b) bs (h :: u64) = h * 131 ^ length bs + key_hash (CompatibilityKey bs)"
proof (induction bs arbitrary: h)
  case (Cons b bs)
  show ?case unfolding key_hash_def CompatibilityKey.sel fold_simps comp_apply Cons [of "h * 131 + ucast b"] Cons [of "0 * 131 + ucast b"]
    by (simp add: algebra_simps)
qed (simp add: key_hash_def)

text \<open>As 131 is less than 256 the hash is not injective: equal buckets do not mean equal keys.\<close>

lemma key_hash_collides:
  "key_hash (CompatibilityKey (0 # 131 # bs)) = key_hash (CompatibilityKey (1 # 0 # bs))"
  by (simp add: key_hash_def)

text \<open>\<open>operator<\<close>: the first differing byte decides.\<close>

fun key_less :: "u8 list \<Rightarrow> u8 list \<Rightarrow> bool" where
  "key_less (a # as) (b # bs) = (if a \<noteq> b then a < b else key_less as bs)"
| "key_less _ _ = False"

instantiation CompatibilityKey :: linorder
begin

definition less_eq_CompatibilityKey :: "CompatibilityKey \<Rightarrow> CompatibilityKey \<Rightarrow> bool" where
  "less_eq_CompatibilityKey a b \<longleftrightarrow> key_digest a \<le> key_digest b"

definition less_CompatibilityKey :: "CompatibilityKey \<Rightarrow> CompatibilityKey \<Rightarrow> bool" where
  "less_CompatibilityKey a b \<longleftrightarrow> key_digest a < key_digest b"

instance
  by standard (auto simp: less_eq_CompatibilityKey_def less_CompatibilityKey_def
      CompatibilityKey.expand)

end

lemma key_less_lexicographic: "length a = length b \<Longrightarrow> key_less a b \<longleftrightarrow> a < b"
  by (induction a b rule: key_less.induct) auto

lemma length_build [simp]: "length (key_digest (CompatibilityKey_build d)) = 32"
  by (simp add: CompatibilityKey_build_def length_Sha256_digest)

section \<open>Injectivity of the encoding\<close>

text \<open>
  Sizes that fit the length fields: every string fits a 64-bit length and the extensions a
  32-bit count; and the enumerations are values a program can name or read.
\<close>

definition string_small :: "string \<Rightarrow> bool" where
  "string_small s \<longleftrightarrow> length s < 2 ^ 64"

definition descriptor_small :: "ModelDescriptor \<Rightarrow> bool" where
  "descriptor_small d \<longleftrightarrow>
     string_small (name_str (d_model d)) \<and> string_small (name_str (d_revision d)) \<and>
     string_small (name_str (d_adapter d)) \<and> string_small (name_str (d_tokenizer d)) \<and>
     string_small (name_str (d_shape d)) \<and> string_small (d_sampling_semantics d) \<and>
     length (d_extensions d) < 2 ^ 32 \<and> list_all string_small (d_extensions d) \<and>
     Phase_ok (d_phase d) \<and> Dtype_ok (d_dtype d) \<and> Backend_ok (d_backend d) \<and>
     ExecutionMode_ok (d_execution_mode d) \<and> Backend_ok (dev_backend (d_device d))"

lemma wr_string_prefix:
  assumes "string_small s" and "string_small t" and "wr_string s @ r = wr_string t @ r'"
  shows "s = t \<and> r = r'"
proof -
  have eq: "wr_u64 (of_nat (length s)) @ map char_byte s @ r
      = wr_u64 (of_nat (length t)) @ map char_byte t @ r'"
    using assms(3) by (simp add: wr_string_def)
  then have len: "(of_nat (length s) :: u64) = of_nat (length t)"
    and rest: "map char_byte s @ r = map char_byte t @ r'"
    using u64c.wr_inj [OF _ _ eq] by simp_all
  have "length s = length t"
    using arg_cong [OF len, of unat] assms(1,2) by (simp add: unat_of_nat string_small_def)
  with rest have "map char_byte s = map char_byte t" and "r = r'" by simp_all
  then show ?thesis
    by (metis list.map_comp map_char_byte_inverse(1) list.map_id)
qed

lemma wr_string_append_iff:
  "string_small s \<Longrightarrow> string_small t \<Longrightarrow>
     wr_string s @ r = wr_string t @ r' \<longleftrightarrow> s = t \<and> r = r'"
  using wr_string_prefix by blast

lemma concat_wr_string_prefix:
  assumes "list_all string_small xs" and "list_all string_small ys" and "length xs = length ys"
    and "concat (map wr_string xs) = concat (map wr_string ys)"
  shows "xs = ys"
  using assms(3,1,2,4)
  by (induction xs ys rule: list_induct2) (auto dest: wr_string_prefix)

lemma enum_value_inj:
  "Phase_ok p \<Longrightarrow> Phase_ok p' \<Longrightarrow> Phase_value p = Phase_value p' \<longleftrightarrow> p = p'"
  "Dtype_ok t \<Longrightarrow> Dtype_ok t' \<Longrightarrow> Dtype_value t = Dtype_value t' \<longleftrightarrow> t = t'"
  "Backend_ok b \<Longrightarrow> Backend_ok b' \<Longrightarrow> Backend_value b = Backend_value b' \<longleftrightarrow> b = b'"
  "ExecutionMode_ok m \<Longrightarrow> ExecutionMode_ok m' \<Longrightarrow>
     ExecutionMode_value m = ExecutionMode_value m' \<longleftrightarrow> m = m'"
  unfolding enum_ok_defs by metis+

lemma key_bytes_inj:
  assumes a: "descriptor_small a" and b: "descriptor_small b" and eq: "key_bytes a = key_bytes b"
  shows "a = b"
proof -
  have len: "length (d_extensions a) = length (d_extensions b)"
    if "(of_nat (length (d_extensions a)) :: u32) = of_nat (length (d_extensions b))"
    using arg_cong [OF that, of unat] a b by (simp add: unat_of_nat descriptor_small_def)
  note prefix = u8c.wr_append_iff u32c.wr_append_iff u64c.wr_append_iff wr_string_append_iff
  have "descriptor_eq a b"
    using eq a b len concat_wr_string_prefix [of "d_extensions a" "d_extensions b"]
    by (simp add: key_bytes_def descriptor_eq_def descriptor_small_def prefix enum_value_inj
        Name.expand)
  then show ?thesis by (simp add: descriptor_eq_iff)
qed

section \<open>Properties\<close>



end
