(* ===== verification/Results.thy ===== *)
theory Results
  imports Enums Ids
begin

text \<open>
  \<open>error.hpp\<close>, \<open>error.cpp\<close>, \<open>result.hpp\<close> (structured errors and results) and \<open>event.hpp\<close>,
  \<open>event.cpp\<close> (event records and their in-memory ring). A \<open>Result<T>\<close> is a sum: \<open>Inl\<close> is the
  error, \<open>Inr\<close> the value.
\<close>

section \<open>Errors and results\<close>

record Error =
  err_code :: ErrorCode
  err_message :: string
  err_category :: string

type_synonym 'a Result = "Error + 'a"

definition Result_err :: "ErrorCode \<Rightarrow> string \<Rightarrow> 'a Result" where
  "Result_err c msg = Inl \<lparr>err_code = c, err_message = msg, err_category = []\<rparr>"

definition Error_to_string :: "Error \<Rightarrow> string" where
  "Error_to_string e =
     ErrorCode_to_string (err_code e) @
     (if err_category e \<noteq> [] then ''['' @ err_category e @ '']'' else []) @
     (if err_message e \<noteq> [] then '': '' @ err_message e else [])"

definition result_ok :: "'a Result \<Rightarrow> bool" where
  "result_ok r \<longleftrightarrow> (case r of Inl _ \<Rightarrow> False | Inr _ \<Rightarrow> True)"

definition result_code :: "'a Result \<Rightarrow> ErrorCode" where
  "result_code r = (case r of Inl e \<Rightarrow> err_code e | Inr _ \<Rightarrow> EC_ok)"

text \<open>
  \<open>Result()\<close> and \<open>error()\<close>: a result that was never given a value is an internal error, and the error
  of a value is \<open>Error()\<close>. Two errors are equal when their codes and messages are, whatever the category.
\<close>

definition default_error :: Error where
  "default_error = \<lparr>err_code = EC_ok, err_message = [], err_category = []\<rparr>"

definition Error_ok :: "Error \<Rightarrow> bool" where
  "Error_ok e \<longleftrightarrow> err_code e = EC_ok"

definition Error_eq :: "Error \<Rightarrow> Error \<Rightarrow> bool" where
  "Error_eq a b \<longleftrightarrow> err_code a = err_code b \<and> err_message a = err_message b"

definition default_result :: "'a Result" where
  "default_result = Result_err EC_internal ''uninitialized result''"

definition result_error :: "'a Result \<Rightarrow> Error" where
  "result_error r = (case r of Inl e \<Rightarrow> e | Inr _ \<Rightarrow> default_error)"

definition value_or :: "'a Result \<Rightarrow> 'a \<Rightarrow> 'a" where
  "value_or r fallback = (case r of Inl _ \<Rightarrow> fallback | Inr x \<Rightarrow> x)"

text \<open>\<open>Result<void>\<close> holds an error only, and is a success when the code of the error is \<open>ok\<close>.\<close>

datatype VoidResult = VoidResult (void_error: Error)

definition void_success :: VoidResult where
  "void_success = VoidResult default_error"

definition void_err :: "ErrorCode \<Rightarrow> string \<Rightarrow> string \<Rightarrow> VoidResult" where
  "void_err c msg cat = VoidResult \<lparr>err_code = c, err_message = msg, err_category = cat\<rparr>"

definition void_ok :: "VoidResult \<Rightarrow> bool" where
  "void_ok r \<longleftrightarrow> Error_ok (void_error r)"

text \<open>
  The handlers return \<open>unit Result\<close> instead. That is the same as long as no error carries the code
  \<open>ok\<close>, which \<open>Result<void>\<close> would take for a success.
\<close>

definition void_view :: "VoidResult \<Rightarrow> unit Result" where
  "void_view r = (if void_ok r then Inr () else Inl (void_error r))"

lemma void_view_success: "void_view void_success = Inr ()"
  by (simp add: void_view_def void_ok_def void_success_def Error_ok_def default_error_def)

lemma void_view_err: "void_view (void_err c msg []) = (if c = EC_ok then Inr () else Result_err c msg)"
  by (simp add: void_view_def void_ok_def void_err_def Error_ok_def Result_err_def)

lemma result_error_ok: "\<forall>e. r = Inl e \<longrightarrow> \<not> Error_ok e \<Longrightarrow> Error_ok (result_error r) \<longleftrightarrow> result_ok r"
  by (cases r) (simp_all add: result_error_def result_ok_def Error_ok_def default_error_def)

lemma result_code_error: "result_code r = err_code (result_error r)"
  by (simp add: result_code_def result_error_def default_error_def split: sum.split)

lemma result_simps [simp]:
  "result_ok (Inr x)" "\<not> result_ok (Inl e)" "\<not> result_ok (Result_err c m)"
  "result_code (Inr x) = EC_ok" "result_code (Inl e) = err_code e"
  "result_code (Result_err c m) = c"
  "Result_err c m \<noteq> Inr x" "Inr x \<noteq> Result_err c m"
  by (simp_all add: result_ok_def result_code_def Result_err_def)

lemma Result_err_eq_iff [simp]: "Result_err c m = Result_err c' m' \<longleftrightarrow> c = c' \<and> m = m'"
  by (auto simp: Result_err_def)

lemma rbind_Result_err [simp]: "rbind (Result_err c m) f = Result_err c m"
  by (simp add: Result_err_def)

section \<open>Events\<close>

record BatchEvent =
  ev_epoch :: BatchEpoch
  ev_time :: TimePoint
  ev_type :: EventType
  ev_request :: RequestId
  ev_batch :: BatchId
  ev_attempt :: AttemptId
  ev_tenant :: TenantId
  ev_detail :: string

definition format_event :: "BatchEvent \<Rightarrow> string" where
  "format_event e =
     to_string_i64 (ev_time e) @ '' '' @ EventType_to_string (ev_type e) @
     (if \<not> is_null (ev_batch e) then '' batch='' @ BatchId_string (ev_batch e) else []) @
     (if \<not> is_null (ev_request e) then '' req='' @ RequestId_string (ev_request e) else []) @
     (if \<not> is_null (ev_tenant e) then '' tenant='' @ TenantId_string (ev_tenant e) else []) @
     (if ev_detail e \<noteq> [] then '' '' @ ev_detail e else [])"

text \<open>The two sinks of the library: one that drops events, one that keeps the latest ones.\<close>

datatype EventSink =
    NullEventSink
  | VectorEventSink (sink_events: "BatchEvent list") (sink_capacity: nat)

fun sink_emit :: "BatchEvent \<Rightarrow> EventSink \<Rightarrow> EventSink" where
  "sink_emit e NullEventSink = NullEventSink"
| "sink_emit e (VectorEventSink evs cap) =
     (let evs = evs @ [e]
      in VectorEventSink (if length evs > cap then drop (length evs - cap) evs else evs) cap)"

text \<open>After any number of events the ring holds exactly the newest ones, oldest first.\<close>

definition last_n :: "nat \<Rightarrow> 'a list \<Rightarrow> 'a list" where
  "last_n n xs = drop (length xs - n) xs"

lemma last_n_snoc: "last_n n (last_n n xs @ [x]) = last_n n (xs @ [x])"
proof (cases "n \<le> length xs")
  case True
  have "last_n n xs @ [x] = drop (length xs - n) (xs @ [x])"
    by (simp add: last_n_def)
  with True show ?thesis
    by (simp add: last_n_def Suc_diff_le del: drop_append)
next
  case False
  then show ?thesis by (simp add: last_n_def)
qed

lemma sink_emit_ring:
  "fold sink_emit es (VectorEventSink evs cap) = VectorEventSink (last_n cap (evs @ es)) cap"
  if "length evs \<le> cap"
  using that
proof (induction es rule: rev_induct)
  case Nil
  then show ?case by (simp add: last_n_def)
next
  case (snoc e es)
  let ?r = "last_n cap (evs @ es)"
  have "sink_emit e (VectorEventSink ?r cap) = VectorEventSink (last_n cap (?r @ [e])) cap"
    by (simp add: last_n_def Let_def)
  with snoc show ?case by (simp add: last_n_snoc)
qed

text \<open>
  A vector sink that has been sent any sequence of events holds exactly the newest ones, at most
  its capacity, oldest first.
\<close>

theorem vector_sink_keeps_newest:
  assumes "length evs \<le> cap"
  shows "fold sink_emit es (VectorEventSink evs cap) = VectorEventSink (last_n cap (evs @ es)) cap"
  using assms by (rule sink_emit_ring)

definition sample_event :: "EventType \<Rightarrow> BatchEvent" where
  "sample_event ty = \<lparr>ev_epoch = Id 1, ev_time = 0, ev_type = ty, ev_request = Id 1, ev_batch = null_id,
     ev_attempt = Id 1, ev_tenant = Id 7, ev_detail = ''sample''\<rparr>"

theorem vector_sink_keeps_newest_witness:
  "fold sink_emit (map sample_event [ET_submit, ET_form, ET_seal]) (VectorEventSink [] 2)
     = VectorEventSink (map sample_event [ET_form, ET_seal]) 2"
  using vector_sink_keeps_newest [of "[]" 2 "map sample_event [ET_submit, ET_form, ET_seal]"]
  by (simp add: last_n_def)

end
