(* ===== verification/Executor.thy ===== *)
theory Executor
  imports Policy Identity Results
begin

text \<open>
  \<open>request.hpp\<close>, \<open>batch.hpp\<close>, \<open>stats.hpp\<close>, \<open>executor.hpp\<close> and \<open>executor.cpp\<close>: what a caller
  submits, what an executor is handed and reports, the counters, the capability test and the
  CPU executor.
\<close>

section \<open>Requests, completions, counters\<close>

record RequestMetadata =
  m_tenant :: TenantId
  m_session :: SessionId
  m_sequence :: SequenceId
  m_descriptor :: ModelDescriptor
  m_tokens :: TokenEstimate
  m_work :: WorkEstimate
  m_memory_bytes :: u64
  m_deadline :: Deadline
  m_latency :: LatencyClass
  m_priority :: PriorityClass
  m_payload :: string

definition default_metadata :: RequestMetadata where
  "default_metadata = \<lparr>m_tenant = null_id, m_session = null_id, m_sequence = null_id,
     m_descriptor = default_descriptor, m_tokens = \<lparr>tok_input = 0, tok_output = 0\<rparr>,
     m_work = \<lparr>work_value = 0\<rparr>, m_memory_bytes = 0, m_deadline = \<lparr>absolute_ns = 0\<rparr>,
     m_latency = LC_batch, m_priority = PC_normal, m_payload = []\<rparr>"

record MemberCompletion =
  mc_request :: RequestId
  mc_attempt :: AttemptId
  mc_status :: CompletionStatus
  mc_result :: string
  mc_error_code :: ErrorCode
  mc_error_message :: string

record BatchCompletion =
  comp_worker :: WorkerId
  comp_boot :: WorkerBootId
  comp_epoch :: BatchEpoch
  comp_generation :: Generation
  comp_batch :: BatchId
  comp_members :: "MemberCompletion list"

record BatchAccum =
  acc_count :: u32
  acc_input_tokens :: u64
  acc_output_tokens :: u64
  acc_work :: u64
  acc_memory :: u64

definition empty_accum :: BatchAccum where
  "empty_accum = \<lparr>acc_count = 0, acc_input_tokens = 0, acc_output_tokens = 0, acc_work = 0,
     acc_memory = 0\<rparr>"

text \<open>
  The counters of \<open>BatchStats\<close>. Its \<open>total_wait_time_ns\<close> and \<open>fairness_served\<close> fields are never
  written by the library and are left out.
\<close>

record BatchStats =
  st_submitted :: u64
  st_admitted :: u64
  st_deferred :: u64
  st_rejected :: u64
  st_expired :: u64
  st_cancelled :: u64
  st_batches_formed :: u64
  st_batches_sealed :: u64
  st_batches_dispatched :: u64
  st_batches_completed :: u64
  st_batches_split :: u64
  st_batches_merged :: u64
  st_requests_completed :: u64
  st_requests_retried :: u64
  st_retryable_failures :: u64
  st_stale_rejections :: u64
  st_waiting_now :: u64
  st_forming_now :: u64
  st_running_now :: u64
  st_reserved_now :: u64
  st_total_work_completed :: u64

definition zero_stats :: BatchStats where
  "zero_stats = \<lparr>st_submitted = 0, st_admitted = 0, st_deferred = 0, st_rejected = 0,
     st_expired = 0, st_cancelled = 0, st_batches_formed = 0, st_batches_sealed = 0,
     st_batches_dispatched = 0, st_batches_completed = 0, st_batches_split = 0,
     st_batches_merged = 0, st_requests_completed = 0, st_requests_retried = 0,
     st_retryable_failures = 0, st_stale_rejections = 0, st_waiting_now = 0,
     st_forming_now = 0, st_running_now = 0, st_reserved_now = 0,
     st_total_work_completed = 0\<rparr>"

section \<open>Executors\<close>

record ExecutorCapability =
  cap_worker :: WorkerId
  cap_backend :: Backend
  cap_device :: DeviceCapability
  cap_max_batch_size :: u32
  cap_max_tokens :: u64
  cap_max_work :: u64
  cap_max_memory_bytes :: u64
  cap_supports_cancellation :: bool

definition default_capability :: ExecutorCapability where
  "default_capability = \<lparr>cap_worker = null_id, cap_backend = BK_cpu, cap_device = default_device,
     cap_max_batch_size = 0, cap_max_tokens = 0, cap_max_work = 0, cap_max_memory_bytes = 0,
     cap_supports_cancellation = False\<rparr>"

definition capability_supports ::
    "ExecutorCapability \<Rightarrow> ModelDescriptor \<Rightarrow> u32 \<Rightarrow> u64 \<Rightarrow> u64 \<Rightarrow> u64 \<Rightarrow> bool" where
  "capability_supports c desc batch_size tokens work memory =
     (if d_backend desc \<noteq> BK_unknown \<and> cap_backend c \<noteq> BK_unknown \<and> d_backend desc \<noteq> cap_backend c
      then False
      else if cap_max_batch_size c \<noteq> 0 \<and> batch_size > cap_max_batch_size c then False
      else if cap_max_tokens c \<noteq> 0 \<and> tokens > cap_max_tokens c then False
      else if cap_max_work c \<noteq> 0 \<and> work > cap_max_work c then False
      else if cap_max_memory_bytes c \<noteq> 0 \<and> memory > cap_max_memory_bytes c then False
      else True)"

record MemberWork =
  mw_request :: RequestId
  mw_attempt :: AttemptId
  mw_work :: u64
  mw_input_tokens :: u64
  mw_output_tokens :: u64
  mw_payload :: string

record BatchExecution =
  ex_batch :: BatchId
  ex_generation :: Generation
  ex_epoch :: BatchEpoch
  ex_worker :: WorkerId
  ex_descriptor :: ModelDescriptor
  ex_members :: "MemberWork list"

record MemberResult =
  mr_request :: RequestId
  mr_attempt :: AttemptId
  mr_output :: string

text \<open>
  \<open>IExecutor\<close>: an executor is its capability and its synchronous \<open>execute\<close>. Executors other than
  the CPU one are supplied by the caller.
\<close>

record IExecutor =
  exec_capability :: ExecutorCapability
  exec_execute :: "BatchExecution \<Rightarrow> MemberResult list Result"

definition cpu_member :: "MemberWork \<Rightarrow> MemberResult" where
  "cpu_member m =
     (let hc = hc_add_string (mw_payload m) 0;
          hc = hc_add (mw_work m) hc;
          hc = hc_add (mw_input_tokens m) hc;
          folded = hc_add (mw_output_tokens m) hc
      in \<lparr>mr_request = mw_request m, mr_attempt = mw_attempt m,
          mr_output = ''work='' @ to_string_u64 (mw_work m) @
            '';tokens='' @ to_string_u64 (mw_input_tokens m + mw_output_tokens m) @
            '';hash='' @ to_string_u64 folded\<rparr>)"

definition cpu_execute :: "BatchExecution \<Rightarrow> MemberResult list Result" where
  "cpu_execute b = Inr (map cpu_member (ex_members b))"

definition CpuExecutor :: "ExecutorCapability \<Rightarrow> IExecutor" where
  "CpuExecutor c = \<lparr>exec_capability = c, exec_execute = cpu_execute\<rparr>"

text \<open>
  What the scheduler may rely on: an executor that reports results reports them for members of
  the batch it was handed, each with the attempt it was handed.
\<close>

locale faithful_executor =
  fixes execute :: "BatchExecution \<Rightarrow> MemberResult list Result"
  assumes results_of_members:
    "execute b = Inr rs \<Longrightarrow> r \<in> set rs \<Longrightarrow>
       \<exists>m \<in> set (ex_members b). mr_request r = mw_request m \<and> mr_attempt r = mw_attempt m"
begin

lemma result_requests: "execute b = Inr rs \<Longrightarrow> mr_request ` set rs \<subseteq> mw_request ` set (ex_members b)"
  using results_of_members by fastforce

end

definition executor_faithful :: "IExecutor \<Rightarrow> bool" where
  "executor_faithful e \<longleftrightarrow> faithful_executor (exec_execute e)"

lemma cpu_member_ids [simp]:
  "mr_request (cpu_member m) = mw_request m" "mr_attempt (cpu_member m) = mw_attempt m"
  by (simp_all add: cpu_member_def Let_def)

interpretation cpu: faithful_executor cpu_execute
  by unfold_locales (force simp: cpu_execute_def)

lemma CpuExecutor_faithful: "executor_faithful (CpuExecutor c)"
  by (simp add: executor_faithful_def CpuExecutor_def cpu.faithful_executor_axioms)

end
