(* ===== verification/Std_Map.thy ===== *)
theory Std_Map
  imports BF_Prelude
begin

text \<open>
  The ordered containers of the runtime. A \<open>std::map\<close> is the list of its entries in the order
  its iterators visit them, ascending by key; \<open>std_ok\<close> is that order. Lookup is the library's
  \<open>map_of\<close>. The interface the scheduler relies on is the locale \<open>keyed_store\<close>, interpreted here
  on the list representation.
\<close>

section \<open>Operations\<close>

type_synonym ('k, 'v) std_map = "('k \<times> 'v) list"

text \<open>\<open>m[k] = v\<close>: overwrite the entry of \<open>k\<close>, or insert one at its place in the order.\<close>

fun std_insert :: "'k::linorder \<Rightarrow> 'v \<Rightarrow> ('k, 'v) std_map \<Rightarrow> ('k, 'v) std_map" where
  "std_insert k v [] = [(k, v)]"
| "std_insert k v ((k', v') # m) =
     (if k < k' then (k, v) # (k', v') # m
      else if k = k' then (k, v) # m
      else (k', v') # std_insert k v m)"

text \<open>\<open>m.erase(k)\<close>.\<close>

definition std_erase :: "'k \<Rightarrow> ('k, 'v) std_map \<Rightarrow> ('k, 'v) std_map" where
  "std_erase k m = filter (\<lambda>e. fst e \<noteq> k) m"

text \<open>An assignment through the pointer that \<open>m.find(k)\<close> gives; no entry, no effect.\<close>

definition std_modify :: "'k \<Rightarrow> ('v \<Rightarrow> 'v) \<Rightarrow> ('k, 'v) std_map \<Rightarrow> ('k, 'v) std_map" where
  "std_modify k f m = map (\<lambda>(k', v). (k', if k' = k then f v else v)) m"

text \<open>What \<open>m[k]\<close> denotes: the entry of \<open>k\<close>, or the default value it would be created with.\<close>

definition std_at :: "'v \<Rightarrow> 'k \<Rightarrow> ('k, 'v) std_map \<Rightarrow> 'v" where
  "std_at d k m = (case map_of m k of None \<Rightarrow> d | Some v \<Rightarrow> v)"

definition std_keys :: "('k, 'v) std_map \<Rightarrow> 'k list" where
  "std_keys m = map fst m"

definition std_ok :: "('k::linorder, 'v) std_map \<Rightarrow> bool" where
  "std_ok m \<longleftrightarrow> sorted (std_keys m) \<and> distinct (std_keys m)"

section \<open>Laws\<close>

lemma map_of_std_insert: "map_of (std_insert k v m) = (map_of m)(k \<mapsto> v)"
  by (induction m) (auto simp: fun_eq_iff)

lemma map_of_std_erase: "map_of (std_erase k m) = (map_of m)(k := None)"
  by (induction m) (auto simp: std_erase_def fun_eq_iff)

lemma map_of_std_modify: "map_of (std_modify k f m) = (map_of m)(k := map_option f (map_of m k))"
  by (induction m) (auto simp: std_modify_def fun_eq_iff split: if_splits)

lemma keys_std_modify [simp]: "std_keys (std_modify k f m) = std_keys m"
  by (induction m) (auto simp: std_keys_def std_modify_def)

lemma set_keys_dom: "set (std_keys m) = dom (map_of m)"
  by (simp add: std_keys_def dom_map_of_conv_image_fst)

lemma set_keys_std_insert: "set (std_keys (std_insert k v m)) = insert k (set (std_keys m))"
  by (simp add: set_keys_dom map_of_std_insert)

lemma keys_std_erase: "std_keys (std_erase k m) = filter (\<lambda>x. x \<noteq> k) (std_keys m)"
  by (induction m) (auto simp: std_keys_def std_erase_def)

lemma std_ok_Nil [simp]: "std_ok []"
  by (simp add: std_ok_def std_keys_def)

lemma std_ok_insert: "std_ok m \<Longrightarrow> std_ok (std_insert k v m)"
proof (induction m)
  case Nil
  then show ?case by (simp add: std_ok_def std_keys_def)
next
  case (Cons e m)
  obtain k' v' where e: "e = (k', v')" by force
  have tail: "std_ok m" and le: "\<forall>x \<in> set (std_keys m). k' \<le> x" and new: "k' \<notin> set (std_keys m)"
    using Cons.prems by (auto simp: std_ok_def std_keys_def e)
  have "std_ok ((k', v') # std_insert k v m)" if "k' < k"
    using Cons.IH [OF tail] le new that set_keys_std_insert [of k v m]
    by (auto simp: std_ok_def std_keys_def)
  moreover have "std_ok ((k, v) # (k', v') # m)" if "k < k'"
    using Cons.prems that by (auto simp: std_ok_def std_keys_def e)
  moreover have "std_ok ((k, v) # m)" if "k = k'"
    using Cons.prems that by (auto simp: std_ok_def std_keys_def e)
  ultimately show ?case by (auto simp: e)
qed

lemma std_ok_erase: "std_ok m \<Longrightarrow> std_ok (std_erase k m)"
  by (simp add: std_ok_def keys_std_erase sorted_wrt_filter)

lemma std_ok_modify: "std_ok m \<Longrightarrow> std_ok (std_modify k f m)"
  by (simp add: std_ok_def)

lemma std_at_insert: "std_at d k' (std_insert k v m) = (if k' = k then v else std_at d k' m)"
  by (simp add: std_at_def map_of_std_insert)

lemma in_set_map_of:
  "std_ok m \<Longrightarrow> (k, v) \<in> set m \<longleftrightarrow> map_of m k = Some v"
  by (simp add: std_ok_def std_keys_def)

lemma std_insert_nonempty [simp]: "std_insert k v m \<noteq> []"
  by (cases m) (auto split: if_splits)

section \<open>The interface\<close>

locale keyed_store =
  fixes find :: "'m \<Rightarrow> 'k \<Rightarrow> 'v option"
    and put :: "'k \<Rightarrow> 'v \<Rightarrow> 'm \<Rightarrow> 'm"
    and erase :: "'k \<Rightarrow> 'm \<Rightarrow> 'm"
    and modify :: "'k \<Rightarrow> ('v \<Rightarrow> 'v) \<Rightarrow> 'm \<Rightarrow> 'm"
    and ok :: "'m \<Rightarrow> bool"
  assumes find_put: "find (put k v m) = (find m)(k \<mapsto> v)"
    and find_erase: "find (erase k m) = (find m)(k := None)"
    and find_modify: "find (modify k f m) = (find m)(k := map_option f (find m k))"
    and ok_put: "ok m \<Longrightarrow> ok (put k v m)"
    and ok_erase: "ok m \<Longrightarrow> ok (erase k m)"
    and ok_modify: "ok m \<Longrightarrow> ok (modify k f m)"
begin

text \<open>
  The range-for loops that assign to the record behind every id of a list. When assigning
  twice is assigning once, each listed record is assigned and no other one changes, whatever
  the order and the repetitions of the list.
\<close>

lemma find_modify_all:
  assumes idem: "\<And>v. f (f v) = f v"
  shows "find (fold (\<lambda>k. modify k f) ks m) k
       = (if k \<in> set ks then map_option f (find m k) else find m k)"
proof (induction ks arbitrary: m)
  case Nil
  show ?case by simp
next
  case (Cons k' ks)
  have "map_option f (map_option f x) = map_option f x" for x
    by (cases x) (simp_all add: idem)
  then show ?case
    by (simp add: Cons.IH find_modify)
qed

lemma dom_modify: "dom (find (modify k f m)) = dom (find m)"
  by (auto simp: find_modify dom_def)

lemma ok_modify_all: "ok m \<Longrightarrow> ok (fold (\<lambda>k. modify k f) ks m)"
  by (induction ks arbitrary: m) (simp_all add: ok_modify)

lemma find_put_same [simp]: "find (put k v m) k = Some v"
  by (simp add: find_put)

lemma find_put_other [simp]: "k' \<noteq> k \<Longrightarrow> find (put k v m) k' = find m k'"
  by (simp add: find_put)

end

interpretation smap: keyed_store map_of std_insert std_erase std_modify std_ok
  by unfold_locales
    (simp_all add: map_of_std_insert map_of_std_erase map_of_std_modify
      std_ok_insert std_ok_erase std_ok_modify)

lemmas std_lookup = map_of_std_insert map_of_std_erase map_of_std_modify

declare std_lookup [lookup]

end
