(* ===== verification/Fairness.thy ===== *)
theory Fairness
  imports Policy Std_Map
begin

text \<open>
  \<open>fairness.hpp\<close> and \<open>fairness.cpp\<close>: per-tenant accounting and the choice of the next tenant.
  The source compares \<open>long double\<close> quotients; their rounding is the platform's, so the rounded
  quotient is a parameter \<open>q\<close> (a rational, since the operands are finite). The choice is proved
  to be the minimum by quotient and then by tenant, whatever the rounding.
\<close>

section \<open>State and accounting\<close>

record FairnessController =
  fc_served :: "(TenantId, u64) std_map"
  fc_outstanding :: "(TenantId, u64) std_map"
  fc_pending :: "(TenantId, u64) std_map"

definition fairness_init :: FairnessController where
  "fairness_init = \<lparr>fc_served = [], fc_outstanding = [], fc_pending = []\<rparr>"

definition note_submission :: "TenantId \<Rightarrow> u64 \<Rightarrow> FairnessController \<Rightarrow> FairnessController" where
  "note_submission t work f =
     f\<lparr>fc_outstanding := std_insert t (std_at 0 t (fc_outstanding f) + work) (fc_outstanding f)\<rparr>"

definition note_placed :: "TenantId \<Rightarrow> u64 \<Rightarrow> FairnessController \<Rightarrow> FairnessController" where
  "note_placed t work f =
     f\<lparr>fc_served := std_insert t (std_at 0 t (fc_served f) + work) (fc_served f),
       fc_outstanding := std_insert t (std_at 0 t (fc_outstanding f) + work) (fc_outstanding f)\<rparr>"

definition note_completed :: "TenantId \<Rightarrow> u64 \<Rightarrow> FairnessController \<Rightarrow> FairnessController" where
  "note_completed t work f =
     (let out = std_at 0 t (fc_outstanding f)
      in f\<lparr>fc_outstanding :=
             std_insert t (if out > work then out - work else 0) (fc_outstanding f)\<rparr>)"

definition served :: "FairnessController \<Rightarrow> TenantId \<Rightarrow> u64" where
  "served f t = (case map_of (fc_served f) t of None \<Rightarrow> 0 | Some v \<Rightarrow> v)"

definition outstanding :: "FairnessController \<Rightarrow> TenantId \<Rightarrow> u64" where
  "outstanding f t = (case map_of (fc_outstanding f) t of None \<Rightarrow> 0 | Some v \<Rightarrow> v)"

definition debt_weight :: "FairnessPolicy \<Rightarrow> TenantId \<Rightarrow> u64" where
  "debt_weight p t =
     (let w = (ucast (policy_weight p t) :: u64);
          w = (if w = 0 then ucast (default_weight p) else w)
      in if w = 0 then 1 else w)"

definition debt :: "FairnessPolicy \<Rightarrow> FairnessController \<Rightarrow> TenantId \<Rightarrow> int" where
  "debt p f t = sint (served f t div debt_weight p t)"

definition debts :: "FairnessPolicy \<Rightarrow> FairnessController \<Rightarrow> (TenantId, int) std_map" where
  "debts p f = fold (\<lambda>(t, s) out. std_insert t (sint (s div debt_weight p t)) out) (fc_served f) []"

definition at_outstanding_cap :: "FairnessPolicy \<Rightarrow> FairnessController \<Rightarrow> TenantId \<Rightarrow> bool" where
  "at_outstanding_cap p f t =
     (if max_outstanding_per_tenant p = 0 then False
      else outstanding f t \<ge> ucast (max_outstanding_per_tenant p))"

definition served_all :: "FairnessController \<Rightarrow> (TenantId, u64) std_map" where
  "served_all f = fc_served f"

definition restore_served :: "TenantId \<Rightarrow> u64 \<Rightarrow> FairnessController \<Rightarrow> FairnessController" where
  "restore_served t v f =
     f\<lparr>fc_served := std_insert t v (fc_served f),
       fc_outstanding := (if map_of (fc_outstanding f) t = None
                        then std_insert t 0 (fc_outstanding f) else fc_outstanding f)\<rparr>"

definition fairness_reset :: "FairnessController \<Rightarrow> FairnessController" where
  "fairness_reset f = f\<lparr>fc_served := [], fc_outstanding := [], fc_pending := []\<rparr>"

section \<open>Choosing a tenant\<close>

type_synonym quotient = "u64 \<Rightarrow> u64 \<Rightarrow> rat"

definition is_more_under_served :: "quotient \<Rightarrow> u64 \<Rightarrow> u64 \<Rightarrow> u64 \<Rightarrow> u64 \<Rightarrow> bool" where
  "is_more_under_served q sa wa sb wb =
     (let wa = (if wa = 0 then 1 else wa);
          wb = (if wb = 0 then 1 else wb);
          ra = q sa wa;
          rb = q sb wb
      in ra < rb)"

definition weight64 :: "FairnessPolicy \<Rightarrow> TenantId \<Rightarrow> u64" where
  "weight64 p t = ucast (policy_weight p t)"

definition better :: "quotient \<Rightarrow> FairnessPolicy \<Rightarrow> FairnessController \<Rightarrow> TenantId \<Rightarrow> TenantId \<Rightarrow> TenantId" where
  "better q p f cand best =
     (let wa = weight64 p best;
          wb = weight64 p cand;
          best_under = is_more_under_served q (served f best) wa (served f cand) wb;
          cand_under = is_more_under_served q (served f cand) wb (served f best) wa
      in if cand_under \<and> \<not> best_under then cand
         else if \<not> cand_under \<and> \<not> best_under then
           (if id_value cand < id_value best then cand else best)
         else if cand_under \<and> best_under then
           (let ra = q (served f best) wa;
                rb = q (served f cand) wb
            in if rb < ra then cand
               else if rb = ra \<and> id_value cand < id_value best then cand
               else best)
         else best)"

definition select_next :: "quotient \<Rightarrow> FairnessPolicy \<Rightarrow> FairnessController \<Rightarrow> TenantId list \<Rightarrow> TenantId" where
  "select_next q p f candidates =
     (case candidates of
        [] \<Rightarrow> Id 0
      | c # cs \<Rightarrow> fold (better q p f) cs c)"

text \<open>The quotient a tenant is ranked by; a weight of zero counts as one.\<close>

definition rank :: "quotient \<Rightarrow> FairnessPolicy \<Rightarrow> FairnessController \<Rightarrow> TenantId \<Rightarrow> rat \<times> TenantId" where
  "rank q p f t =
     (q (served f t) (if weight64 p t = 0 then 1 else weight64 p t), t)"

lemma better_rank: "better q p f c b = (if rank q p f c < rank q p f b then c else b)"
  by (auto simp: better_def rank_def is_more_under_served_def Let_def less_Id_def
      less_prod_def less_eq_prod_def)

lemma fold_better_min:
  "fold (better q p f) cs c \<in> set (c # cs) \<and>
     (\<forall>t \<in> set (c # cs). rank q p f (fold (better q p f) cs c) \<le> rank q p f t)"
proof (induction cs arbitrary: c)
  case Nil
  show ?case by simp
next
  case (Cons d cs)
  show ?case
    using Cons.IH [of "better q p f d c"] by (auto simp: better_rank split: if_splits)
qed

lemma select_next_min:
  "cs \<noteq> [] \<Longrightarrow> select_next q p f cs \<in> set cs \<and>
     (\<forall>t \<in> set cs. rank q p f (select_next q p f cs) \<le> rank q p f t)"
  using fold_better_min by (cases cs) (auto simp: select_next_def)

lemma select_next_in: "cs \<noteq> [] \<Longrightarrow> select_next q p f cs \<in> set cs"
  by (simp add: select_next_min)

lemma rank_inj: "rank q p f a = rank q p f b \<longleftrightarrow> a = b"
  by (auto simp: rank_def)

lemma select_next_set:
  assumes "set cs = set ds" and "cs \<noteq> []"
  shows "select_next q p f cs = select_next q p f ds"
proof -
  have "ds \<noteq> []" using assms by auto
  then have "rank q p f (select_next q p f cs) = rank q p f (select_next q p f ds)"
    using select_next_min [of cs q p f] select_next_min [of ds q p f] assms
    by (intro order_antisym) simp_all
  then show ?thesis by (simp add: rank_inj)
qed

section \<open>Accounting lemmas\<close>

lemma outstanding_note [lookup]:
  "outstanding (note_submission t w f) t' = (if t' = t then outstanding f t + w else outstanding f t')"
  "outstanding (note_placed t w f) t' = (if t' = t then outstanding f t + w else outstanding f t')"
  "outstanding (note_completed t w f) t'
     = (if t' = t then (if outstanding f t > w then outstanding f t - w else 0) else outstanding f t')"
  by (simp_all add: outstanding_def note_submission_def note_placed_def note_completed_def Let_def
      std_at_def map_of_std_insert)

lemma served_note [lookup]:
  "served (note_submission t w f) t' = served f t'"
  "served (note_placed t w f) t' = (if t' = t then served f t + w else served f t')"
  "served (note_completed t w f) t' = served f t'"
  by (simp_all add: served_def note_submission_def note_placed_def note_completed_def Let_def
      std_at_def map_of_std_insert)

section \<open>Properties\<close>

text \<open>
  C37: the tenant chosen next is one of the candidates and has the least served work per weight, ties
  going to the smaller id; the choice does not depend on the order or repetition of the candidates.
\<close>

theorem select_next_least_served:
  assumes "cs \<noteq> []"
  shows "select_next q p f cs \<in> set cs \<and>
     (\<forall>t \<in> set cs. rank q p f (select_next q p f cs) \<le> rank q p f t) \<and>
     (\<forall>ds. set ds = set cs \<longrightarrow> select_next q p f ds = select_next q p f cs)"
  using select_next_min [OF assms] select_next_set [OF _ assms] by metis

theorem select_next_least_served_witness:
  "select_next (\<lambda>a b. of_nat (unat a) / of_nat (unat b)) (pol_fairness default_policy)
     (note_placed (Id 1) 5 fairness_init) [Id 1, Id 2, Id 3] \<in> set [Id 1, Id 2, Id 3]"
  using select_next_least_served [of "[Id 1, Id 2, Id 3]"] by blast

end
