(* ===== verification/Compatibility.thy ===== *)
theory Compatibility
  imports Identity Std_Map
begin

text \<open>
  \<open>compatibility.hpp\<close> and \<open>compatibility.cpp\<close>: the field-by-field decision on two descriptors and
  the index of waiting requests by compatibility key. The scheduler uses the index through the
  interface \<open>waiting_index\<close>, interpreted here on the buckets.
\<close>

section \<open>The decision\<close>

definition evaluate_compatibility ::
    "ModelDescriptor \<Rightarrow> ModelDescriptor \<Rightarrow> CompatibilityDecision" where
  "evaluate_compatibility a b =
     (if d_model a \<noteq> d_model b then CD_incompatible_model
      else if d_revision a \<noteq> d_revision b then CD_incompatible_revision
      else if d_adapter a \<noteq> d_adapter b then CD_incompatible_adapter
      else if d_phase a \<noteq> d_phase b then CD_incompatible_phase
      else if d_dtype a \<noteq> d_dtype b then CD_incompatible_dtype
      else if d_backend a \<noteq> d_backend b then CD_incompatible_backend
      else if d_execution_mode a \<noteq> d_execution_mode b then CD_incompatible_execution_mode
      else if d_device a \<noteq> d_device b then CD_incompatible_device
      else if d_shape a \<noteq> d_shape b then CD_incompatible_shape
      else if d_sampling_semantics a \<noteq> d_sampling_semantics b then CD_incompatible_sampling
      else if d_extensions a \<noteq> d_extensions b then CD_incompatible_extension
      else CD_compatible)"

text \<open>The decision looks at every field but the tokenizer.\<close>

lemma evaluate_compatible_iff:
  "evaluate_compatibility a b = CD_compatible \<longleftrightarrow> a\<lparr>d_tokenizer := d_tokenizer b\<rparr> = b"
proof -
  have "evaluate_compatibility a b = CD_compatible \<longleftrightarrow>
      descriptor_eq (a\<lparr>d_tokenizer := d_tokenizer b\<rparr>) b"
    by (simp add: evaluate_compatibility_def descriptor_eq_def)
  then show ?thesis by (simp add: descriptor_eq_iff)
qed

lemma evaluate_sym: "evaluate_compatibility a b = evaluate_compatibility b a"
  by (simp add: evaluate_compatibility_def)

section \<open>The index\<close>

text \<open>
  \<open>buckets_\<close> is an \<open>unordered_map\<close>. The list holds its entries; the order in which the source
  iterates over them is unspecified and enters the scheduler as a parameter.
\<close>

type_synonym CompatibilityIndex = "(CompatibilityKey \<times> RequestId list) list"

definition index_bucket :: "CompatibilityIndex \<Rightarrow> CompatibilityKey \<Rightarrow> RequestId list option" where
  "index_bucket ix k = map_of ix k"

definition index_add :: "CompatibilityKey \<Rightarrow> RequestId \<Rightarrow> CompatibilityIndex \<Rightarrow> CompatibilityIndex" where
  "index_add k i ix =
     (case map_of ix k of
        None \<Rightarrow> ix @ [(k, [i])]
      | Some _ \<Rightarrow> std_modify k (\<lambda>v. v @ [i]) ix)"

definition index_remove :: "CompatibilityKey \<Rightarrow> RequestId \<Rightarrow> CompatibilityIndex \<Rightarrow> CompatibilityIndex" where
  "index_remove k i ix =
     (case map_of ix k of
        None \<Rightarrow> ix
      | Some v \<Rightarrow>
          let v' = remove1 i v
          in if v' = [] then std_erase k ix else std_modify k (\<lambda>_. v') ix)"

definition index_clear :: CompatibilityIndex where
  "index_clear = []"

definition bucket_count :: "CompatibilityIndex \<Rightarrow> nat" where
  "bucket_count ix = length ix"

definition index_ids :: "CompatibilityIndex \<Rightarrow> CompatibilityKey \<Rightarrow> RequestId list" where
  "index_ids ix k = (case index_bucket ix k of None \<Rightarrow> [] | Some v \<Rightarrow> v)"

definition index_ok :: "CompatibilityIndex \<Rightarrow> bool" where
  "index_ok ix \<longleftrightarrow> distinct (std_keys ix) \<and> (\<forall>(k, v) \<in> set ix. v \<noteq> [])"

lemma bucket_add:
  "index_bucket (index_add k i ix) k'
     = (if k' = k then Some (index_ids ix k @ [i]) else index_bucket ix k')"
  by (simp add: index_bucket_def index_ids_def index_add_def map_of_std_modify map_add_def
      split: option.splits)

lemma bucket_remove:
  "index_bucket (index_remove k i ix) k'
     = (if k' = k
        then (if remove1 i (index_ids ix k) = [] then None else Some (remove1 i (index_ids ix k)))
        else index_bucket ix k')" if "index_bucket ix k \<noteq> Some []"
  using that
  by (auto simp: index_bucket_def index_ids_def index_remove_def Let_def std_lookup
      split: option.splits)

lemma keys_add: "std_keys (index_add k i ix)
    = (if k \<in> set (std_keys ix) then std_keys ix else std_keys ix @ [k])"
proof (cases "map_of ix k")
  case None
  then have "k \<notin> set (std_keys ix)" by (simp add: set_keys_dom domIff)
  with None show ?thesis by (simp add: index_add_def std_keys_def)
next
  case (Some v)
  then have "k \<in> set (std_keys ix)" by (auto simp: set_keys_dom)
  with Some show ?thesis by (simp add: index_add_def)
qed

lemma keys_remove: "set (std_keys (index_remove k i ix)) \<subseteq> set (std_keys ix)"
  by (auto simp: index_remove_def Let_def keys_std_erase split: option.splits)

lemma in_std_modify: "(k', v') \<in> set (std_modify k f m) \<Longrightarrow> \<exists>v. (k', v) \<in> set m \<and> v' = (if k' = k then f v else v)"
  by (auto simp: std_modify_def)

lemma index_ok_add: "index_ok ix \<Longrightarrow> index_ok (index_add k i ix)"
proof -
  assume ok: "index_ok ix"
  then have "distinct (std_keys (index_add k i ix))"
    by (simp add: keys_add index_ok_def)
  moreover have "v \<noteq> []" if "(k', v) \<in> set (index_add k i ix)" for k' v
    using that ok
    by (auto simp: index_add_def index_ok_def split: option.splits if_splits dest!: in_std_modify)
  ultimately show ?thesis by (auto simp: index_ok_def)
qed

lemma index_ok_remove: "index_ok ix \<Longrightarrow> index_ok (index_remove k i ix)"
proof -
  assume ok: "index_ok ix"
  then have "distinct (std_keys (index_remove k i ix))"
    by (simp add: index_remove_def index_ok_def Let_def keys_std_erase split: option.splits)
  moreover have "v \<noteq> []" if "(k', v) \<in> set (index_remove k i ix)" for k' v
    using that ok
    by (auto simp: index_remove_def index_ok_def Let_def std_erase_def
        split: option.splits if_splits dest!: in_std_modify)
  ultimately show ?thesis by (auto simp: index_ok_def)
qed

lemma index_ok_bucket: "index_ok ix \<Longrightarrow> index_bucket ix k \<noteq> Some []"
  by (auto simp: index_ok_def index_bucket_def dest!: map_of_SomeD)

lemma in_index_iff: "index_ok ix \<Longrightarrow> (k, v) \<in> set ix \<longleftrightarrow> index_bucket ix k = Some v"
  by (simp add: index_ok_def index_bucket_def std_keys_def)

section \<open>The interface of the scheduler\<close>

locale waiting_index =
  fixes add :: "'k \<Rightarrow> 'i \<Rightarrow> 'x \<Rightarrow> 'x"
    and remove :: "'k \<Rightarrow> 'i \<Rightarrow> 'x \<Rightarrow> 'x"
    and ids :: "'x \<Rightarrow> 'k \<Rightarrow> 'i list"
    and ok :: "'x \<Rightarrow> bool"
  assumes ids_add: "ids (add k i x) k' = (if k' = k then ids x k @ [i] else ids x k')"
    and ids_remove: "ids (remove k i x) k' = (if k' = k then remove1 i (ids x k) else ids x k')"
    and ok_add: "ok x \<Longrightarrow> ok (add k i x)"
    and ok_remove: "ok x \<Longrightarrow> ok (remove k i x)"
begin

lemma in_ids_add: "j \<in> set (ids (add k i x) k') \<longleftrightarrow> j \<in> set (ids x k') \<or> k' = k \<and> j = i"
  by (auto simp: ids_add)

lemma in_ids_removeD: "j \<in> set (ids (remove k i x) k') \<Longrightarrow> j \<in> set (ids x k')"
  by (auto simp: ids_remove split: if_splits dest: set_remove1_subset [THEN subsetD])

text \<open>Taking an entry out undoes putting it in, also for the order of the others.\<close>

lemma remove_add: "i \<notin> set (ids x k) \<Longrightarrow> ids (remove k i (add k i x)) = ids x"
  by (auto simp: ids_remove ids_add remove1_append fun_eq_iff)

lemma not_in_ids_remove: "distinct (ids x k) \<Longrightarrow> i \<notin> set (ids (remove k i x) k)"
  by (simp add: ids_remove)

end

lemma ids_remove_index:
  "index_ids (index_remove k i ix) k' = (if k' = k then remove1 i (index_ids ix k) else index_ids ix k')"
  by (auto simp: index_ids_def index_bucket_def index_remove_def Let_def std_lookup
      split: option.splits)

interpretation widx: waiting_index index_add index_remove index_ids index_ok
proof
  show "index_ids (index_add k i x) k' = (if k' = k then index_ids x k @ [i] else index_ids x k')"
    for k i x k'
    by (simp add: index_ids_def bucket_add)
qed (simp_all add: ids_remove_index index_ok_add index_ok_remove)

section \<open>Properties\<close>

text \<open>
  The field-by-field decision says compatible exactly when the descriptors agree in every field
  except the tokenizer, in either order of the arguments.
\<close>

lemma compatible_iff_equal_up_to_tokenizer:
  "(evaluate_compatibility a b = CD_compatible \<longleftrightarrow> a\<lparr>d_tokenizer := d_tokenizer b\<rparr> = b) \<and>
     evaluate_compatibility a b = evaluate_compatibility b a"
  by (simp add: evaluate_compatible_iff evaluate_sym)

end
