(* ===== verification/Formation.thy ===== *)
theory Formation
  imports Policy Compatibility
begin

text \<open>
  \<open>formation.hpp\<close> and \<open>formation.cpp\<close>: the pure policy engine that decides whether a candidate
  fits a forming batch and whether the batch waits or seals.
\<close>

section \<open>Data\<close>

record Candidate =
  cand_request :: RequestId
  cand_tenant :: TenantId
  cand_tokens :: TokenEstimate
  cand_work :: WorkEstimate
  cand_memory :: u64
  cand_deadline :: Deadline
  cand_latency :: LatencyClass
  cand_arrived_ns :: TimePoint

record FormingBatch =
  fb_batch :: BatchId
  fb_key :: CompatibilityKey
  fb_phase :: Phase
  fb_formed_ns :: TimePoint
  fb_count :: u32
  fb_input_tokens :: u64
  fb_output_tokens :: u64
  fb_work :: u64
  fb_memory :: u64
  fb_allowed_wait_ns :: TimePoint

datatype Action = Act_noop | Act_wait | Act_seal | Act_split | Act_reject

record Decision =
  dec_action :: Action
  dec_seal_reason :: SealReason
  dec_detail :: string

section \<open>Operations\<close>

definition fits :: "FormingBatch \<Rightarrow> Candidate \<Rightarrow> BatchBudget \<Rightarrow> bool" where
  "fits b c B =
     allows_add B (fb_count b) (fb_input_tokens b) (fb_output_tokens b) (fb_work b) (fb_memory b)
       1 (tok_input (cand_tokens c)) (tok_output (cand_tokens c)) (work_value (cand_work c))
       (cand_memory c)"

definition decide :: "BatchPolicy \<Rightarrow> FormingBatch \<Rightarrow> Candidate list \<Rightarrow> TimePoint \<Rightarrow> Decision" where
  "decide p b candidates now =
     (let cs = pol_constraints p; B = budget cs;
          count_full = (max_requests B \<noteq> 0 \<and> fb_count b \<ge> max_requests B);
          tokens_full = ((max_input_tokens B \<noteq> 0 \<and> fb_input_tokens b \<ge> max_input_tokens B) \<or>
            (max_output_tokens B \<noteq> 0 \<and> fb_output_tokens b \<ge> max_output_tokens B));
          work_full = (max_work B \<noteq> 0 \<and> fb_work b \<ge> max_work B)
      in if fb_allowed_wait_ns b \<noteq> kNoDeadline \<and> now - fb_formed_ns b \<ge> fb_allowed_wait_ns b
         then \<lparr>dec_action = Act_seal, dec_seal_reason = SR_max_wait_elapsed,
           dec_detail = ''max-wait elapsed''\<rparr>
         else if count_full
         then \<lparr>dec_action = Act_seal, dec_seal_reason = SR_max_count_reached,
           dec_detail = ''max request count reached''\<rparr>
         else if tokens_full
         then \<lparr>dec_action = Act_seal, dec_seal_reason = SR_max_tokens_reached,
           dec_detail = ''max token budget reached''\<rparr>
         else if work_full
         then \<lparr>dec_action = Act_seal, dec_seal_reason = SR_max_work_reached,
           dec_detail = ''max work budget reached''\<rparr>
         else if candidates = [] then
           (if fb_count b \<ge> minimum_preferred_batch cs \<or> fb_count b = 0
            then \<lparr>dec_action = Act_seal, dec_seal_reason = SR_queue_drained,
              dec_detail = ''no more compatible candidates''\<rparr>
            else \<lparr>dec_action = Act_wait, dec_seal_reason = SR_queue_drained,
              dec_detail = ''waiting for compatible work''\<rparr>)
         else \<lparr>dec_action = Act_wait, dec_seal_reason = SR_admission_fill,
           dec_detail = ''waiting to fill batch''\<rparr>)"

section \<open>Lemmas\<close>

text \<open>The engine only waits or seals, and a batch past its allowed wait always seals.\<close>

lemma decide_action: "dec_action (decide p b cs now) \<in> {Act_wait, Act_seal}"
  by (simp add: decide_def Let_def)

lemma decide_overdue:
  "fb_allowed_wait_ns b \<noteq> kNoDeadline \<Longrightarrow> now - fb_formed_ns b \<ge> fb_allowed_wait_ns b \<Longrightarrow>
     dec_action (decide p b cs now) = Act_seal \<and>
     dec_seal_reason (decide p b cs now) = SR_max_wait_elapsed"
  by (simp add: decide_def Let_def)

lemma decide_seal_mono:
  assumes "dec_action (decide p b cs now) = Act_seal" and "now \<le> later"
  shows "dec_action (decide p b cs later) = Act_seal"
  using assms by (auto simp: decide_def Let_def split: if_splits)

section \<open>Properties\<close>

text \<open>
  The engine only waits or seals; a batch that has waited as long as allowed seals for that
  reason, and a batch that would seal now would also seal at any later time.
\<close>

lemma decide_never_misses_the_wait:
  "dec_action (decide p b cs now) \<in> {Act_wait, Act_seal} \<and>
     (fb_allowed_wait_ns b \<noteq> kNoDeadline \<and> now - fb_formed_ns b \<ge> fb_allowed_wait_ns b \<longrightarrow>
        dec_action (decide p b cs now) = Act_seal \<and>
        dec_seal_reason (decide p b cs now) = SR_max_wait_elapsed) \<and>
     (dec_action (decide p b cs now) = Act_seal \<and> now \<le> later \<longrightarrow>
        dec_action (decide p b cs later) = Act_seal)"
  using decide_action decide_overdue decide_seal_mono by blast

definition sample_forming :: FormingBatch where
  "sample_forming = \<lparr>fb_batch = Id 1, fb_key = null_key, fb_phase = PH_prefill, fb_formed_ns = 10,
     fb_count = 1, fb_input_tokens = 0, fb_output_tokens = 0, fb_work = 0, fb_memory = 0,
     fb_allowed_wait_ns = 5\<rparr>"

lemma decide_never_misses_the_wait_witness:
  "dec_action (decide default_policy sample_forming [] 15) = Act_seal \<and>
     dec_seal_reason (decide default_policy sample_forming [] 15) = SR_max_wait_elapsed \<and>
     dec_action (decide default_policy sample_forming [] 20) = Act_seal"
  using decide_never_misses_the_wait [of default_policy sample_forming "[]" 15 20]
  by (simp add: sample_forming_def kNoDeadline_def)

end
