(* ===== verification/Sched_State.thy ===== *)
theory Sched_State
  imports Executor Fairness Formation
begin

text \<open>
  The state of \<open>BatchFabric::Impl\<close> (\<open>scheduler.cpp\<close>) and its small helpers. Pointers that
  \<open>find_request\<close>, \<open>find_batch\<close> and \<open>find_attempt\<close> return are the keys they were looked up with;
  an assignment through one is \<open>upd_request\<close>, \<open>upd_batch\<close> or \<open>upd_attempt\<close>. The event vector
  that every operation fills is the field \<open>im_ev\<close>; the injected clock is read once per
  operation (\<open>im_clock_now\<close>), as a simulated clock behaves.
\<close>

section \<open>Records\<close>

record AttemptRec =
  att_id :: AttemptId
  att_number :: u32
  att_state :: RequestState
  att_batch :: BatchId
  att_outcome :: CompletionStatus
  att_result :: string
  att_error :: ErrorCode
  att_started :: TimePoint
  att_completed :: TimePoint

record RequestRec =
  req_id :: RequestId
  req_meta :: RequestMetadata
  req_state :: RequestState
  req_current_attempt :: AttemptId
  req_attempts :: "AttemptId list"
  req_batch :: BatchId
  req_submitted :: TimePoint
  req_sealed_ns :: TimePoint
  req_key :: CompatibilityKey
  req_in_waiting :: bool
  req_authoritative_complete :: bool

record WorkerRec =
  wk_cap :: ExecutorCapability
  wk_boot :: WorkerBootId
  wk_live :: bool
  wk_running :: "BatchId list"

record BatchRec =
  bat_id :: BatchId
  bat_generation :: Generation
  bat_epoch :: BatchEpoch
  bat_state :: BatchState
  bat_key :: CompatibilityKey
  bat_phase :: Phase
  bat_descriptor :: ModelDescriptor
  bat_members :: "RequestId list"
  bat_accum :: BatchAccum
  bat_formed_ns :: TimePoint
  bat_sealed_ns :: TimePoint
  bat_dispatched_ns :: TimePoint
  bat_completed_ns :: TimePoint
  bat_seal_reason :: SealReason
  bat_worker :: WorkerId
  bat_boot :: WorkerBootId
  bat_local :: bool
  bat_parents :: "BatchId list"
  bat_children :: "BatchId list"
  bat_allowed_wait_ns :: TimePoint
  bat_outcomes :: "(RequestId, CompletionStatus) std_map"
  bat_member_results :: "(RequestId, string) std_map"
  bat_cancelled_before_seal :: "RequestId list"

text \<open>The default-initialised records that \<open>operator[]\<close> creates.\<close>

definition default_attempt :: AttemptRec where
  "default_attempt = \<lparr>att_id = null_id, att_number = 0, att_state = RS_created,
     att_batch = null_id, att_outcome = CS_success, att_result = [], att_error = EC_ok,
     att_started = 0, att_completed = 0\<rparr>"

definition default_request :: RequestRec where
  "default_request = \<lparr>req_id = null_id, req_meta = default_metadata, req_state = RS_created,
     req_current_attempt = null_id, req_attempts = [], req_batch = null_id, req_submitted = 0,
     req_sealed_ns = 0, req_key = null_key, req_in_waiting = False,
     req_authoritative_complete = False\<rparr>"

definition default_worker :: WorkerRec where
  "default_worker = \<lparr>wk_cap = default_capability, wk_boot = null_id, wk_live = False,
     wk_running = []\<rparr>"

definition default_batch :: BatchRec where
  "default_batch = \<lparr>bat_id = null_id, bat_generation = null_id, bat_epoch = null_id,
     bat_state = BS_forming, bat_key = null_key, bat_phase = PH_prefill,
     bat_descriptor = default_descriptor, bat_members = [], bat_accum = empty_accum,
     bat_formed_ns = 0, bat_sealed_ns = 0, bat_dispatched_ns = 0, bat_completed_ns = 0,
     bat_seal_reason = SR_max_wait_elapsed, bat_worker = null_id, bat_boot = null_id,
     bat_local = True, bat_parents = [], bat_children = [], bat_allowed_wait_ns = kNoDeadline,
     bat_outcomes = [], bat_member_results = [], bat_cancelled_before_seal = []\<rparr>"

record Impl =
  im_policy :: BatchPolicy
  im_clock_now :: TimePoint
  im_events :: EventSink
  im_fairness :: FairnessController
  im_epoch :: BatchEpoch
  im_next_request :: u64
  im_next_batch :: u64
  im_next_attempt :: u64
  im_next_generation :: u64
  im_requests :: "(RequestId, RequestRec) std_map"
  im_attempts :: "(AttemptId, AttemptRec) std_map"
  im_batches :: "(BatchId, BatchRec) std_map"
  im_workers :: "(WorkerId, WorkerRec) std_map"
  im_waiting :: CompatibilityIndex
  im_forming :: "(CompatibilityKey, BatchId) std_map"
  im_sealed_order :: "BatchId list"
  im_stats :: BatchStats
  im_recovered :: bool
  im_ev :: "BatchEvent list"

text \<open>The constructor: epoch 1, all counters at 1, and the in-process worker 0.\<close>

definition Impl_init :: "BatchPolicy \<Rightarrow> TimePoint \<Rightarrow> EventSink \<Rightarrow> Impl" where
  "Impl_init p clk sink = \<lparr>im_policy = p, im_clock_now = clk, im_events = sink,
     im_fairness = fairness_init, im_epoch = Id 1, im_next_request = 1, im_next_batch = 1,
     im_next_attempt = 1, im_next_generation = 1, im_requests = [], im_attempts = [],
     im_batches = [],
     im_workers = [(Id 0, \<lparr>wk_cap = default_capability\<lparr>cap_worker := Id 0, cap_backend := BK_cpu\<rparr>,
       wk_boot = Id 0, wk_live = True, wk_running = []\<rparr>)],
     im_waiting = [], im_forming = [], im_sealed_order = [], im_stats = zero_stats,
     im_recovered = False, im_ev = []\<rparr>"

text \<open>
  What the model leaves to the platform: the rounded quotient of the fairness comparison and the
  order in which the unordered map of waiting buckets is iterated.
\<close>

record Platform =
  plat_quotient :: quotient
  plat_bucket_iter :: "CompatibilityIndex \<Rightarrow> CompatibilityIndex"

definition platform_ok :: "Platform \<Rightarrow> bool" where
  "platform_ok P \<longleftrightarrow> (\<forall>ix. mset (plat_bucket_iter P ix) = mset ix)"

definition exact_platform :: Platform where
  "exact_platform = \<lparr>plat_quotient = (\<lambda>a b. of_nat (unat a) / of_nat (unat b)),
     plat_bucket_iter = (\<lambda>ix. ix)\<rparr>"

lemma exact_platform_ok: "platform_ok exact_platform"
  by (simp add: platform_ok_def exact_platform_def)

section \<open>Helpers\<close>

definition resolve_now :: "Impl \<Rightarrow> TimePoint \<Rightarrow> TimePoint" where
  "resolve_now s now = (if now < 0 then im_clock_now s else now)"

definition is_waiting_state :: "RequestState \<Rightarrow> bool" where
  "is_waiting_state st \<longleftrightarrow> st = RS_eligible \<or> st = RS_waiting"

definition find_request :: "Impl \<Rightarrow> RequestId \<Rightarrow> RequestRec option" where
  "find_request s i = map_of (im_requests s) i"

definition find_batch :: "Impl \<Rightarrow> BatchId \<Rightarrow> BatchRec option" where
  "find_batch s i = map_of (im_batches s) i"

definition find_attempt :: "Impl \<Rightarrow> AttemptId \<Rightarrow> AttemptRec option" where
  "find_attempt s i = map_of (im_attempts s) i"

definition upd_request :: "RequestId \<Rightarrow> (RequestRec \<Rightarrow> RequestRec) \<Rightarrow> Impl \<Rightarrow> Impl" where
  "upd_request i f s = s\<lparr>im_requests := std_modify i f (im_requests s)\<rparr>"

text \<open>The range-for loops that assign to the record of every listed request.\<close>

definition upd_requests :: "RequestId list \<Rightarrow> (RequestRec \<Rightarrow> RequestRec) \<Rightarrow> Impl \<Rightarrow> Impl" where
  "upd_requests ms f s = fold (\<lambda>m. upd_request m f) ms s"

definition upd_batch :: "BatchId \<Rightarrow> (BatchRec \<Rightarrow> BatchRec) \<Rightarrow> Impl \<Rightarrow> Impl" where
  "upd_batch i f s = s\<lparr>im_batches := std_modify i f (im_batches s)\<rparr>"

definition upd_attempt :: "AttemptId \<Rightarrow> (AttemptRec \<Rightarrow> AttemptRec) \<Rightarrow> Impl \<Rightarrow> Impl" where
  "upd_attempt i f s = s\<lparr>im_attempts := std_modify i f (im_attempts s)\<rparr>"

definition put_request :: "RequestId \<Rightarrow> RequestRec \<Rightarrow> Impl \<Rightarrow> Impl" where
  "put_request i r s = s\<lparr>im_requests := std_insert i r (im_requests s)\<rparr>"

definition put_batch :: "BatchId \<Rightarrow> BatchRec \<Rightarrow> Impl \<Rightarrow> Impl" where
  "put_batch i b s = s\<lparr>im_batches := std_insert i b (im_batches s)\<rparr>"

definition put_attempt :: "AttemptId \<Rightarrow> AttemptRec \<Rightarrow> Impl \<Rightarrow> Impl" where
  "put_attempt i a s = s\<lparr>im_attempts := std_insert i a (im_attempts s)\<rparr>"

text \<open>\<open>stats_.x++\<close>, with the field's update function as the argument.\<close>

definition inc :: "((u64 \<Rightarrow> u64) \<Rightarrow> BatchStats \<Rightarrow> BatchStats) \<Rightarrow> Impl \<Rightarrow> Impl" where
  "inc f s = s\<lparr>im_stats := f (\<lambda>x. x + 1) (im_stats s)\<rparr>"

definition emit :: "EventType \<Rightarrow> RequestId \<Rightarrow> BatchId \<Rightarrow> AttemptId \<Rightarrow> TenantId \<Rightarrow> string \<Rightarrow> Impl \<Rightarrow> Impl" where
  "emit ty r b a t detail s = s\<lparr>im_ev := im_ev s @ [\<lparr>ev_epoch = im_epoch s,
     ev_time = im_clock_now s, ev_type = ty, ev_request = r, ev_batch = b, ev_attempt = a,
     ev_tenant = t, ev_detail = detail\<rparr>]\<rparr>"

text \<open>After the lock is released, the collected events go to the sink.\<close>

definition flush :: "Impl \<Rightarrow> Impl" where
  "flush s = s\<lparr>im_events := fold sink_emit (im_ev s) (im_events s), im_ev := []\<rparr>"

definition to_former_batch :: "BatchRec \<Rightarrow> FormingBatch" where
  "to_former_batch b = \<lparr>fb_batch = bat_id b, fb_key = bat_key b, fb_phase = bat_phase b,
     fb_formed_ns = bat_formed_ns b, fb_count = acc_count (bat_accum b),
     fb_input_tokens = acc_input_tokens (bat_accum b),
     fb_output_tokens = acc_output_tokens (bat_accum b), fb_work = acc_work (bat_accum b),
     fb_memory = acc_memory (bat_accum b), fb_allowed_wait_ns = bat_allowed_wait_ns b\<rparr>"

definition to_candidate :: "RequestId \<Rightarrow> RequestRec \<Rightarrow> Candidate" where
  "to_candidate i r = \<lparr>cand_request = i, cand_tenant = m_tenant (req_meta r),
     cand_tokens = m_tokens (req_meta r), cand_work = m_work (req_meta r),
     cand_memory = m_memory_bytes (req_meta r), cand_deadline = m_deadline (req_meta r),
     cand_latency = m_latency (req_meta r), cand_arrived_ns = req_submitted r\<rparr>"

definition compute_allowed_wait :: "Impl \<Rightarrow> BatchRec \<Rightarrow> TimePoint \<Rightarrow> TimePoint" where
  "compute_allowed_wait s b now =
     (let p = im_policy s;
          g = global_max_wait_ns (pol_constraints p);
          allowed = (if g > 0 then min kNoDeadline g else kNoDeadline);
          allowed = fold (\<lambda>i allowed.
            case find_request s i of
              None \<Rightarrow> allowed
            | Some r \<Rightarrow>
                let allowed = (case latency_max_wait_ns (pol_wait p) (m_latency (req_meta r)) of
                        None \<Rightarrow> allowed | Some w \<Rightarrow> min allowed w)
                in if has_deadline (m_deadline (req_meta r))
                   then (let rem = remaining (m_deadline (req_meta r)) now
                         in if rem \<ge> 0 then min allowed rem else allowed)
                   else allowed) (bat_members b) allowed
      in if immediate_seal_when_solo (pol_wait p) \<and> acc_count (bat_accum b) = 1 then 0
         else allowed)"

definition count_tenant :: "Impl \<Rightarrow> BatchRec \<Rightarrow> TenantId \<Rightarrow> u32" where
  "count_tenant s b t = fold (\<lambda>m n.
     case find_request s m of
       None \<Rightarrow> n
     | Some r \<Rightarrow> if m_tenant (req_meta r) = t then n + 1 else n) (bat_members b) 0"

definition add_usage :: "RequestRec \<Rightarrow> BatchAccum \<Rightarrow> BatchAccum" where
  "add_usage r a = a\<lparr>
     acc_input_tokens := acc_input_tokens a + tok_input (m_tokens (req_meta r)),
     acc_output_tokens := acc_output_tokens a + tok_output (m_tokens (req_meta r)),
     acc_work := acc_work a + work_value (m_work (req_meta r)),
     acc_memory := acc_memory a + m_memory_bytes (req_meta r)\<rparr>"

definition recompute_accum :: "Impl \<Rightarrow> BatchRec \<Rightarrow> BatchRec" where
  "recompute_accum s b =
     (let acc = fold (\<lambda>m a. case find_request s m of
            None \<Rightarrow> a
          | Some r \<Rightarrow> add_usage r (a\<lparr>acc_count := acc_count a + 1\<rparr>)) (bat_members b) empty_accum;
          b = b\<lparr>bat_accum := acc\<rparr>
      in if bat_members b \<noteq> [] \<and> name_empty (d_model (bat_descriptor b))
         then (case find_request s (hd (bat_members b)) of
                 None \<Rightarrow> b
               | Some r \<Rightarrow> b\<lparr>bat_descriptor := m_descriptor (req_meta r)\<rparr>)
         else b)"

definition max_worker_batch_size :: "Impl \<Rightarrow> u32" where
  "max_worker_batch_size s = fold (\<lambda>(_, w) m.
     if \<not> wk_live w then m
     else let c = cap_max_batch_size (wk_cap w)
          in if c \<noteq> 0 \<and> (m = 0 \<or> c < m) then c else m) (im_workers s) 0"

section \<open>Lookup laws\<close>

text \<open>Every assignment helper changes one map; the others and all scalar fields stay.\<close>

lemma upd_request_fields [simp]:
  "im_policy (upd_request i f s) = im_policy s"
  "im_clock_now (upd_request i f s) = im_clock_now s"
  "im_fairness (upd_request i f s) = im_fairness s"
  "im_epoch (upd_request i f s) = im_epoch s"
  "im_next_request (upd_request i f s) = im_next_request s"
  "im_next_batch (upd_request i f s) = im_next_batch s"
  "im_next_attempt (upd_request i f s) = im_next_attempt s"
  "im_next_generation (upd_request i f s) = im_next_generation s"
  "im_attempts (upd_request i f s) = im_attempts s"
  "im_batches (upd_request i f s) = im_batches s"
  "im_workers (upd_request i f s) = im_workers s"
  "im_waiting (upd_request i f s) = im_waiting s"
  "im_forming (upd_request i f s) = im_forming s"
  "im_sealed_order (upd_request i f s) = im_sealed_order s"
  by (simp_all add: upd_request_def)

lemma upd_batch_fields [simp]:
  "im_policy (upd_batch b g s) = im_policy s"
  "im_clock_now (upd_batch b g s) = im_clock_now s"
  "im_fairness (upd_batch b g s) = im_fairness s"
  "im_epoch (upd_batch b g s) = im_epoch s"
  "im_next_request (upd_batch b g s) = im_next_request s"
  "im_next_batch (upd_batch b g s) = im_next_batch s"
  "im_next_attempt (upd_batch b g s) = im_next_attempt s"
  "im_next_generation (upd_batch b g s) = im_next_generation s"
  "im_requests (upd_batch b g s) = im_requests s"
  "im_attempts (upd_batch b g s) = im_attempts s"
  "im_workers (upd_batch b g s) = im_workers s"
  "im_waiting (upd_batch b g s) = im_waiting s"
  "im_forming (upd_batch b g s) = im_forming s"
  "im_sealed_order (upd_batch b g s) = im_sealed_order s"
  by (simp_all add: upd_batch_def)

lemma upd_attempt_fields [simp]:
  "im_policy (upd_attempt a h s) = im_policy s"
  "im_clock_now (upd_attempt a h s) = im_clock_now s"
  "im_fairness (upd_attempt a h s) = im_fairness s"
  "im_epoch (upd_attempt a h s) = im_epoch s"
  "im_next_request (upd_attempt a h s) = im_next_request s"
  "im_next_batch (upd_attempt a h s) = im_next_batch s"
  "im_next_attempt (upd_attempt a h s) = im_next_attempt s"
  "im_next_generation (upd_attempt a h s) = im_next_generation s"
  "im_requests (upd_attempt a h s) = im_requests s"
  "im_batches (upd_attempt a h s) = im_batches s"
  "im_workers (upd_attempt a h s) = im_workers s"
  "im_waiting (upd_attempt a h s) = im_waiting s"
  "im_forming (upd_attempt a h s) = im_forming s"
  "im_sealed_order (upd_attempt a h s) = im_sealed_order s"
  by (simp_all add: upd_attempt_def)

lemma put_request_fields [simp]:
  "im_policy (put_request i r s) = im_policy s"
  "im_clock_now (put_request i r s) = im_clock_now s"
  "im_fairness (put_request i r s) = im_fairness s"
  "im_epoch (put_request i r s) = im_epoch s"
  "im_next_request (put_request i r s) = im_next_request s"
  "im_next_batch (put_request i r s) = im_next_batch s"
  "im_next_attempt (put_request i r s) = im_next_attempt s"
  "im_next_generation (put_request i r s) = im_next_generation s"
  "im_attempts (put_request i r s) = im_attempts s"
  "im_batches (put_request i r s) = im_batches s"
  "im_workers (put_request i r s) = im_workers s"
  "im_waiting (put_request i r s) = im_waiting s"
  "im_forming (put_request i r s) = im_forming s"
  "im_sealed_order (put_request i r s) = im_sealed_order s"
  by (simp_all add: put_request_def)

lemma put_batch_fields [simp]:
  "im_policy (put_batch b x s) = im_policy s"
  "im_clock_now (put_batch b x s) = im_clock_now s"
  "im_fairness (put_batch b x s) = im_fairness s"
  "im_epoch (put_batch b x s) = im_epoch s"
  "im_next_request (put_batch b x s) = im_next_request s"
  "im_next_batch (put_batch b x s) = im_next_batch s"
  "im_next_attempt (put_batch b x s) = im_next_attempt s"
  "im_next_generation (put_batch b x s) = im_next_generation s"
  "im_requests (put_batch b x s) = im_requests s"
  "im_attempts (put_batch b x s) = im_attempts s"
  "im_workers (put_batch b x s) = im_workers s"
  "im_waiting (put_batch b x s) = im_waiting s"
  "im_forming (put_batch b x s) = im_forming s"
  "im_sealed_order (put_batch b x s) = im_sealed_order s"
  by (simp_all add: put_batch_def)

lemma put_attempt_fields [simp]:
  "im_policy (put_attempt a y s) = im_policy s"
  "im_clock_now (put_attempt a y s) = im_clock_now s"
  "im_fairness (put_attempt a y s) = im_fairness s"
  "im_epoch (put_attempt a y s) = im_epoch s"
  "im_next_request (put_attempt a y s) = im_next_request s"
  "im_next_batch (put_attempt a y s) = im_next_batch s"
  "im_next_attempt (put_attempt a y s) = im_next_attempt s"
  "im_next_generation (put_attempt a y s) = im_next_generation s"
  "im_requests (put_attempt a y s) = im_requests s"
  "im_batches (put_attempt a y s) = im_batches s"
  "im_workers (put_attempt a y s) = im_workers s"
  "im_waiting (put_attempt a y s) = im_waiting s"
  "im_forming (put_attempt a y s) = im_forming s"
  "im_sealed_order (put_attempt a y s) = im_sealed_order s"
  by (simp_all add: put_attempt_def)

lemma inc_fields [simp]:
  "im_policy (inc k s) = im_policy s"
  "im_clock_now (inc k s) = im_clock_now s"
  "im_fairness (inc k s) = im_fairness s"
  "im_epoch (inc k s) = im_epoch s"
  "im_next_request (inc k s) = im_next_request s"
  "im_next_batch (inc k s) = im_next_batch s"
  "im_next_attempt (inc k s) = im_next_attempt s"
  "im_next_generation (inc k s) = im_next_generation s"
  "im_requests (inc k s) = im_requests s"
  "im_attempts (inc k s) = im_attempts s"
  "im_batches (inc k s) = im_batches s"
  "im_workers (inc k s) = im_workers s"
  "im_waiting (inc k s) = im_waiting s"
  "im_forming (inc k s) = im_forming s"
  "im_sealed_order (inc k s) = im_sealed_order s"
  by (simp_all add: inc_def)

lemma emit_fields [simp]:
  "im_policy (emit ty rr bb aa t d s) = im_policy s"
  "im_clock_now (emit ty rr bb aa t d s) = im_clock_now s"
  "im_fairness (emit ty rr bb aa t d s) = im_fairness s"
  "im_epoch (emit ty rr bb aa t d s) = im_epoch s"
  "im_next_request (emit ty rr bb aa t d s) = im_next_request s"
  "im_next_batch (emit ty rr bb aa t d s) = im_next_batch s"
  "im_next_attempt (emit ty rr bb aa t d s) = im_next_attempt s"
  "im_next_generation (emit ty rr bb aa t d s) = im_next_generation s"
  "im_requests (emit ty rr bb aa t d s) = im_requests s"
  "im_attempts (emit ty rr bb aa t d s) = im_attempts s"
  "im_batches (emit ty rr bb aa t d s) = im_batches s"
  "im_workers (emit ty rr bb aa t d s) = im_workers s"
  "im_waiting (emit ty rr bb aa t d s) = im_waiting s"
  "im_forming (emit ty rr bb aa t d s) = im_forming s"
  "im_sealed_order (emit ty rr bb aa t d s) = im_sealed_order s"
  by (simp_all add: emit_def)

lemma flush_fields [simp]:
  "im_policy (flush s) = im_policy s"
  "im_clock_now (flush s) = im_clock_now s"
  "im_fairness (flush s) = im_fairness s"
  "im_epoch (flush s) = im_epoch s"
  "im_next_request (flush s) = im_next_request s"
  "im_next_batch (flush s) = im_next_batch s"
  "im_next_attempt (flush s) = im_next_attempt s"
  "im_next_generation (flush s) = im_next_generation s"
  "im_requests (flush s) = im_requests s"
  "im_attempts (flush s) = im_attempts s"
  "im_batches (flush s) = im_batches s"
  "im_workers (flush s) = im_workers s"
  "im_waiting (flush s) = im_waiting s"
  "im_forming (flush s) = im_forming s"
  "im_sealed_order (flush s) = im_sealed_order s"
  by (simp_all add: flush_def)

lemma find_upd [simp]:
  "find_request (upd_request i f s) j = (if j = i then map_option f (find_request s i) else find_request s j)"
  "find_batch (upd_batch b g s) c = (if c = b then map_option g (find_batch s b) else find_batch s c)"
  "find_attempt (upd_attempt a h s) d = (if d = a then map_option h (find_attempt s a) else find_attempt s d)"
  by (simp_all add: find_request_def find_batch_def find_attempt_def upd_request_def upd_batch_def
      upd_attempt_def map_of_std_modify)

lemma find_put [simp]:
  "find_request (put_request i r s) j = (if j = i then Some r else find_request s j)"
  "find_batch (put_batch b x s) c = (if c = b then Some x else find_batch s c)"
  "find_attempt (put_attempt a y s) d = (if d = a then Some y else find_attempt s d)"
  by (simp_all add: find_request_def find_batch_def find_attempt_def put_request_def put_batch_def
      put_attempt_def map_of_std_insert)

lemma find_request_frame [simp]:
  "find_request (upd_batch b g s) = find_request s"
  "find_request (upd_attempt a h s) = find_request s"
  "find_request (put_batch b x s) = find_request s"
  "find_request (put_attempt a y s) = find_request s"
  "find_request (inc k s) = find_request s"
  "find_request (emit ty rr bb aa t d s) = find_request s"
  by (simp_all add: find_request_def upd_batch_def upd_attempt_def put_batch_def put_attempt_def
      inc_def emit_def fun_eq_iff)

lemma find_batch_frame [simp]:
  "find_batch (upd_request i f s) = find_batch s"
  "find_batch (upd_attempt a h s) = find_batch s"
  "find_batch (put_request i r s) = find_batch s"
  "find_batch (put_attempt a y s) = find_batch s"
  "find_batch (inc k s) = find_batch s"
  "find_batch (emit ty rr bb aa t d s) = find_batch s"
  by (simp_all add: find_batch_def upd_request_def upd_attempt_def put_request_def put_attempt_def
      inc_def emit_def fun_eq_iff)

lemma find_attempt_frame [simp]:
  "find_attempt (upd_request i f s) = find_attempt s"
  "find_attempt (upd_batch b g s) = find_attempt s"
  "find_attempt (put_request i r s) = find_attempt s"
  "find_attempt (put_batch b x s) = find_attempt s"
  "find_attempt (inc k s) = find_attempt s"
  "find_attempt (emit ty rr bb aa t d s) = find_attempt s"
  by (simp_all add: find_attempt_def upd_request_def upd_batch_def put_request_def put_batch_def
      inc_def emit_def fun_eq_iff)

lemma find_flush [simp]:
  "find_request (flush s) = find_request s"
  "find_batch (flush s) = find_batch s"
  "find_attempt (flush s) = find_attempt s"
  by (simp_all add: find_request_def find_batch_def find_attempt_def fun_eq_iff)

lemma upd_requests_record:
  "upd_requests ms f s = s\<lparr>im_requests := fold (\<lambda>m. std_modify m f) ms (im_requests s)\<rparr>"
  by (induction ms arbitrary: s) (simp_all add: upd_requests_def upd_request_def)

lemma find_upd_requests:
  assumes "\<And>r. f (f r) = f r"
  shows "find_request (upd_requests ms f s) i
    = (if i \<in> set ms then map_option f (find_request s i) else find_request s i)"
  using smap.find_modify_all [of f ms "im_requests s" i] assms
  by (simp add: upd_requests_record find_request_def)

lemma find_upd_requests_frame [simp]:
  "find_batch (upd_requests ms f s) = find_batch s"
  "find_attempt (upd_requests ms f s) = find_attempt s"
  by (simp_all add: upd_requests_record find_batch_def find_attempt_def fun_eq_iff)

lemma upd_requests_fields [simp]:
  "im_policy (upd_requests ms f s) = im_policy s"
  "im_clock_now (upd_requests ms f s) = im_clock_now s"
  "im_fairness (upd_requests ms f s) = im_fairness s"
  "im_epoch (upd_requests ms f s) = im_epoch s"
  "im_next_request (upd_requests ms f s) = im_next_request s"
  "im_next_batch (upd_requests ms f s) = im_next_batch s"
  "im_next_attempt (upd_requests ms f s) = im_next_attempt s"
  "im_next_generation (upd_requests ms f s) = im_next_generation s"
  "im_attempts (upd_requests ms f s) = im_attempts s"
  "im_batches (upd_requests ms f s) = im_batches s"
  "im_workers (upd_requests ms f s) = im_workers s"
  "im_waiting (upd_requests ms f s) = im_waiting s"
  "im_forming (upd_requests ms f s) = im_forming s"
  "im_sealed_order (upd_requests ms f s) = im_sealed_order s"
  by (simp_all add: upd_requests_record)

end
