(* ===== verification/Sched_Ops.thy ===== *)
theory Sched_Ops
  imports Sched_State
begin

text \<open>
  The handlers of \<open>BatchFabric::Impl\<close> up to the tick: admission, formation, sealing, splitting,
  merging, cancellation, expiry and retry. Every handler returns the new state; statements that
  assign through a pointer are the keyed updates of \<open>Sched_State\<close>, in the order of the source.
  A handler in which the source can reach undefined behaviour is optional, and \<open>None\<close> is that
  case.
\<close>

section \<open>Id allocation and dereferencing\<close>

definition nb :: "Impl \<Rightarrow> BatchId \<times> Impl" where
  "nb s = (Id (im_next_batch s), s\<lparr>im_next_batch := im_next_batch s + 1\<rparr>)"

definition nr :: "Impl \<Rightarrow> RequestId \<times> Impl" where
  "nr s = (Id (im_next_request s), s\<lparr>im_next_request := im_next_request s + 1\<rparr>)"

definition na :: "Impl \<Rightarrow> AttemptId \<times> Impl" where
  "na s = (Id (im_next_attempt s), s\<lparr>im_next_attempt := im_next_attempt s + 1\<rparr>)"

definition ng :: "Impl \<Rightarrow> Generation \<times> Impl" where
  "ng s = (Id (im_next_generation s), s\<lparr>im_next_generation := im_next_generation s + 1\<rparr>)"

text \<open>\<open>batches_[id]\<close> and its companions: the record, created with its defaults when absent.\<close>

definition at_request :: "Impl \<Rightarrow> RequestId \<Rightarrow> RequestRec" where
  "at_request s i = std_at default_request i (im_requests s)"

definition at_batch :: "Impl \<Rightarrow> BatchId \<Rightarrow> BatchRec" where
  "at_batch s i = std_at default_batch i (im_batches s)"

definition at_attempt :: "Impl \<Rightarrow> AttemptId \<Rightarrow> AttemptRec" where
  "at_attempt s i = std_at default_attempt i (im_attempts s)"

definition set_forming :: "CompatibilityKey \<Rightarrow> BatchId \<Rightarrow> Impl \<Rightarrow> Impl" where
  "set_forming k b s = s\<lparr>im_forming := std_insert k b (im_forming s)\<rparr>"

definition set_waiting :: "(CompatibilityIndex \<Rightarrow> CompatibilityIndex) \<Rightarrow> Impl \<Rightarrow> Impl" where
  "set_waiting f s = s\<lparr>im_waiting := f (im_waiting s)\<rparr>"

definition set_fairness :: "(FairnessController \<Rightarrow> FairnessController) \<Rightarrow> Impl \<Rightarrow> Impl" where
  "set_fairness f s = s\<lparr>im_fairness := f (im_fairness s)\<rparr>"

definition dec_forming_now :: "Impl \<Rightarrow> Impl" where
  "dec_forming_now s = s\<lparr>im_stats := st_forming_now_update (\<lambda>x. x - 1) (im_stats s)\<rparr>"

lemma set_forming_fields [simp]:
  "im_policy (set_forming k b s) = im_policy s"
  "im_clock_now (set_forming k b s) = im_clock_now s"
  "im_fairness (set_forming k b s) = im_fairness s"
  "im_epoch (set_forming k b s) = im_epoch s"
  "im_next_request (set_forming k b s) = im_next_request s"
  "im_next_batch (set_forming k b s) = im_next_batch s"
  "im_next_attempt (set_forming k b s) = im_next_attempt s"
  "im_next_generation (set_forming k b s) = im_next_generation s"
  "im_requests (set_forming k b s) = im_requests s"
  "im_attempts (set_forming k b s) = im_attempts s"
  "im_batches (set_forming k b s) = im_batches s"
  "im_workers (set_forming k b s) = im_workers s"
  "im_waiting (set_forming k b s) = im_waiting s"
  "im_sealed_order (set_forming k b s) = im_sealed_order s"
  by (simp_all add: set_forming_def)

lemma set_waiting_fields [simp]:
  "im_policy (set_waiting w s) = im_policy s"
  "im_clock_now (set_waiting w s) = im_clock_now s"
  "im_fairness (set_waiting w s) = im_fairness s"
  "im_epoch (set_waiting w s) = im_epoch s"
  "im_next_request (set_waiting w s) = im_next_request s"
  "im_next_batch (set_waiting w s) = im_next_batch s"
  "im_next_attempt (set_waiting w s) = im_next_attempt s"
  "im_next_generation (set_waiting w s) = im_next_generation s"
  "im_requests (set_waiting w s) = im_requests s"
  "im_attempts (set_waiting w s) = im_attempts s"
  "im_batches (set_waiting w s) = im_batches s"
  "im_workers (set_waiting w s) = im_workers s"
  "im_forming (set_waiting w s) = im_forming s"
  "im_sealed_order (set_waiting w s) = im_sealed_order s"
  by (simp_all add: set_waiting_def)

lemma set_fairness_fields [simp]:
  "im_policy (set_fairness q s) = im_policy s"
  "im_clock_now (set_fairness q s) = im_clock_now s"
  "im_epoch (set_fairness q s) = im_epoch s"
  "im_next_request (set_fairness q s) = im_next_request s"
  "im_next_batch (set_fairness q s) = im_next_batch s"
  "im_next_attempt (set_fairness q s) = im_next_attempt s"
  "im_next_generation (set_fairness q s) = im_next_generation s"
  "im_requests (set_fairness q s) = im_requests s"
  "im_attempts (set_fairness q s) = im_attempts s"
  "im_batches (set_fairness q s) = im_batches s"
  "im_workers (set_fairness q s) = im_workers s"
  "im_waiting (set_fairness q s) = im_waiting s"
  "im_forming (set_fairness q s) = im_forming s"
  "im_sealed_order (set_fairness q s) = im_sealed_order s"
  by (simp_all add: set_fairness_def)

lemma dec_forming_now_fields [simp]:
  "im_policy (dec_forming_now s) = im_policy s"
  "im_clock_now (dec_forming_now s) = im_clock_now s"
  "im_fairness (dec_forming_now s) = im_fairness s"
  "im_epoch (dec_forming_now s) = im_epoch s"
  "im_next_request (dec_forming_now s) = im_next_request s"
  "im_next_batch (dec_forming_now s) = im_next_batch s"
  "im_next_attempt (dec_forming_now s) = im_next_attempt s"
  "im_next_generation (dec_forming_now s) = im_next_generation s"
  "im_requests (dec_forming_now s) = im_requests s"
  "im_attempts (dec_forming_now s) = im_attempts s"
  "im_batches (dec_forming_now s) = im_batches s"
  "im_workers (dec_forming_now s) = im_workers s"
  "im_waiting (dec_forming_now s) = im_waiting s"
  "im_forming (dec_forming_now s) = im_forming s"
  "im_sealed_order (dec_forming_now s) = im_sealed_order s"
  by (simp_all add: dec_forming_now_def)

lemma find_set_frame [simp]:
  "find_request (set_forming k b s) = find_request s"
  "find_batch (set_forming k b s) = find_batch s"
  "find_attempt (set_forming k b s) = find_attempt s"
  "find_request (set_waiting w s) = find_request s"
  "find_batch (set_waiting w s) = find_batch s"
  "find_attempt (set_waiting w s) = find_attempt s"
  "find_request (set_fairness q s) = find_request s"
  "find_batch (set_fairness q s) = find_batch s"
  "find_attempt (set_fairness q s) = find_attempt s"
  "find_request (dec_forming_now s) = find_request s"
  "find_batch (dec_forming_now s) = find_batch s"
  "find_attempt (dec_forming_now s) = find_attempt s"
  by (simp_all add: find_request_def find_batch_def find_attempt_def fun_eq_iff)

lemma forming_set_forming [simp]: "im_forming (set_forming k b s) = std_insert k b (im_forming s)"
  by (simp add: set_forming_def)

lemma waiting_set_waiting [simp]: "im_waiting (set_waiting w s) = w (im_waiting s)"
  by (simp add: set_waiting_def)

lemma find_field_updates [simp]:
  "find_request (s\<lparr>im_next_batch := n\<rparr>) = find_request s"
  "find_batch (s\<lparr>im_next_batch := n\<rparr>) = find_batch s"
  "find_attempt (s\<lparr>im_next_batch := n\<rparr>) = find_attempt s"
  "find_request (s\<lparr>im_next_request := n\<rparr>) = find_request s"
  "find_batch (s\<lparr>im_next_request := n\<rparr>) = find_batch s"
  "find_attempt (s\<lparr>im_next_request := n\<rparr>) = find_attempt s"
  "find_request (s\<lparr>im_next_attempt := n\<rparr>) = find_request s"
  "find_batch (s\<lparr>im_next_attempt := n\<rparr>) = find_batch s"
  "find_attempt (s\<lparr>im_next_attempt := n\<rparr>) = find_attempt s"
  "find_request (s\<lparr>im_next_generation := n\<rparr>) = find_request s"
  "find_batch (s\<lparr>im_next_generation := n\<rparr>) = find_batch s"
  "find_attempt (s\<lparr>im_next_generation := n\<rparr>) = find_attempt s"
  "find_request (s\<lparr>im_sealed_order := ord\<rparr>) = find_request s"
  "find_batch (s\<lparr>im_sealed_order := ord\<rparr>) = find_batch s"
  "find_attempt (s\<lparr>im_sealed_order := ord\<rparr>) = find_attempt s"
  "find_request (s\<lparr>im_forming := fm\<rparr>) = find_request s"
  "find_batch (s\<lparr>im_forming := fm\<rparr>) = find_batch s"
  "find_attempt (s\<lparr>im_forming := fm\<rparr>) = find_attempt s"
  "find_request (s\<lparr>im_stats := st\<rparr>) = find_request s"
  "find_batch (s\<lparr>im_stats := st\<rparr>) = find_batch s"
  "find_attempt (s\<lparr>im_stats := st\<rparr>) = find_attempt s"
  "find_request (s\<lparr>im_workers := ws\<rparr>) = find_request s"
  "find_batch (s\<lparr>im_workers := ws\<rparr>) = find_batch s"
  "find_attempt (s\<lparr>im_workers := ws\<rparr>) = find_attempt s"
  "find_request (s\<lparr>im_epoch := ep\<rparr>) = find_request s"
  "find_batch (s\<lparr>im_epoch := ep\<rparr>) = find_batch s"
  "find_attempt (s\<lparr>im_epoch := ep\<rparr>) = find_attempt s"
  "find_request (s\<lparr>im_clock_now := clk\<rparr>) = find_request s"
  "find_batch (s\<lparr>im_clock_now := clk\<rparr>) = find_batch s"
  "find_attempt (s\<lparr>im_clock_now := clk\<rparr>) = find_attempt s"
  by (simp_all add: find_request_def find_batch_def find_attempt_def fun_eq_iff)

lemma at_find:
  "at_request s i = (case find_request s i of None \<Rightarrow> default_request | Some r \<Rightarrow> r)"
  "at_batch s b = (case find_batch s b of None \<Rightarrow> default_batch | Some x \<Rightarrow> x)"
  "at_attempt s a = (case find_attempt s a of None \<Rightarrow> default_attempt | Some y \<Rightarrow> y)"
  by (simp_all add: at_request_def at_batch_def at_attempt_def std_at_def find_request_def
      find_batch_def find_attempt_def)

section \<open>Admission\<close>

record SubmitOutcome =
  so_request :: RequestId
  so_attempt :: AttemptId
  so_admission :: AdmissionDecision
  so_reason :: string

definition oversized :: "BatchBudget \<Rightarrow> RequestMetadata \<Rightarrow> bool" where
  "oversized B m \<longleftrightarrow>
     (max_requests B \<noteq> 0 \<and> max_requests B < 1) \<or>
     (max_input_tokens B \<noteq> 0 \<and> tok_input (m_tokens m) > max_input_tokens B) \<or>
     (max_output_tokens B \<noteq> 0 \<and> tok_output (m_tokens m) > max_output_tokens B) \<or>
     (max_work B \<noteq> 0 \<and> work_value (m_work m) > max_work B) \<or>
     (max_memory_bytes B \<noteq> 0 \<and> m_memory_bytes m > max_memory_bytes B)"

definition do_submit :: "RequestMetadata \<Rightarrow> TimePoint \<Rightarrow> Impl \<Rightarrow> SubmitOutcome Result \<times> Impl" where
  "do_submit meta now s =
     (if name_empty (d_model (m_descriptor meta)) \<or> name_empty (d_revision (m_descriptor meta)) then
        (Inr \<lparr>so_request = null_id, so_attempt = null_id, so_admission = AD_rejected,
           so_reason = ''missing model/revision identity''\<rparr>,
         inc st_rejected_update s)
      else
        (let (rid, s) = nr s;
             (aid, s) = na s;
             r0 = at_request s rid;
             r = r0\<lparr>req_id := rid, req_meta := meta, req_submitted := now,
               req_key := CompatibilityKey_build (m_descriptor meta), req_current_attempt := aid,
               req_attempts := req_attempts r0 @ [aid]\<rparr>;
             a = (at_attempt s aid)\<lparr>att_id := aid, att_number := 1, att_state := RS_eligible\<rparr>
         in if has_deadline (m_deadline meta) \<and> expired (m_deadline meta) now then
              (Inr \<lparr>so_request = rid, so_attempt = aid, so_admission = AD_expired,
                 so_reason = ''deadline already expired''\<rparr>,
               emit ET_submit rid null_id aid (m_tenant meta) ''expired''
                 (inc st_expired_update (inc st_submitted_update
                   (put_attempt aid (a\<lparr>att_state := RS_expired, att_outcome := CS_expired\<rparr>)
                     (put_request rid (r\<lparr>req_state := RS_expired\<rparr>) s)))))
            else if oversized (budget (pol_constraints (im_policy s))) meta then
              (Inr \<lparr>so_request = rid, so_attempt = aid, so_admission = AD_oversized,
                 so_reason = ''request exceeds any batch budget''\<rparr>,
               emit ET_submit rid null_id aid (m_tenant meta) ''oversized''
                 (inc st_rejected_update (inc st_submitted_update
                   (put_attempt aid (a\<lparr>att_state := RS_rejected,
                       att_outcome := CS_non_retryable_failure\<rparr>)
                     (put_request rid (r\<lparr>req_state := RS_rejected\<rparr>) s)))))
            else if fair_enabled (pol_fairness (im_policy s)) \<and>
                at_outstanding_cap (pol_fairness (im_policy s)) (im_fairness s) (m_tenant meta) then
              (Inr \<lparr>so_request = rid, so_attempt = aid, so_admission = AD_deferred,
                 so_reason = ''tenant outstanding cap reached''\<rparr>,
               emit ET_submit rid null_id aid (m_tenant meta) ''deferred''
                 (inc st_deferred_update (inc st_submitted_update
                   (put_attempt aid (a\<lparr>att_state := RS_waiting\<rparr>)
                     (put_request rid (r\<lparr>req_state := RS_waiting\<rparr>) s)))))
            else
              (Inr \<lparr>so_request = rid, so_attempt = aid, so_admission = AD_admitted,
                 so_reason = ''admitted''\<rparr>,
               emit ET_submit rid null_id aid (m_tenant meta) ''submitted''
                 (set_fairness (note_submission (m_tenant meta) (work_value (m_work meta)))
                   (inc st_admitted_update (inc st_submitted_update
                     (set_waiting (index_add (req_key r) rid)
                       (put_attempt aid (a\<lparr>att_state := RS_eligible\<rparr>)
                         (put_request rid (r\<lparr>req_state := RS_eligible, req_in_waiting := True\<rparr>) s)))))))))"

section \<open>Formation\<close>

definition join_batch :: "RequestId \<Rightarrow> RequestRec \<Rightarrow> BatchRec \<Rightarrow> BatchRec" where
  "join_batch i r b =
     (let mem = bat_members b @ [i];
          b = b\<lparr>bat_members := mem,
            bat_accum := (add_usage r (bat_accum b))\<lparr>acc_count := of_nat (length mem)\<rparr>\<rparr>
      in if length mem = 1 then b\<lparr>bat_descriptor := m_descriptor (req_meta r)\<rparr> else b)"

definition add_member_to_batch :: "BatchId \<Rightarrow> RequestId \<Rightarrow> Impl \<Rightarrow> Impl" where
  "add_member_to_batch bid i s =
     (case find_request s i of
        None \<Rightarrow> s
      | Some r \<Rightarrow>
          emit ET_form i (bat_id (at_batch s bid)) (req_current_attempt r) (m_tenant (req_meta r)) ''reserved''
            (inc st_reserved_now_update
              (set_fairness (note_placed (m_tenant (req_meta r)) (work_value (m_work (req_meta r))))
                (upd_request i (\<lambda>r. r\<lparr>req_state := RS_reserved, req_batch := bat_id (at_batch s bid),
                    req_in_waiting := False\<rparr>)
                  (upd_batch bid (join_batch i r) s)))))"

text \<open>The filters of \<open>fill_forming\<close>: waiting, not expired, within the tenant caps, within budget.\<close>

definition may_join :: "Impl \<Rightarrow> BatchRec \<Rightarrow> TimePoint \<Rightarrow> RequestId \<Rightarrow> RequestRec \<Rightarrow> bool" where
  "may_join s b now i r \<longleftrightarrow>
     is_waiting_state (req_state r) \<and>
     \<not> expired (m_deadline (req_meta r)) now \<and>
     \<not> (fair_enabled (pol_fairness (im_policy s)) \<and>
        at_outstanding_cap (pol_fairness (im_policy s)) (im_fairness s) (m_tenant (req_meta r))) \<and>
     \<not> (max_contribution_per_batch (pol_fairness (im_policy s)) \<noteq> 0 \<and>
        count_tenant s b (m_tenant (req_meta r)) \<ge> max_contribution_per_batch (pol_fairness (im_policy s))) \<and>
     fits (to_former_batch b) (to_candidate i r) (budget (pol_constraints (im_policy s)))"

definition group_step :: "Impl \<Rightarrow> BatchRec \<Rightarrow> TimePoint \<Rightarrow> RequestId \<Rightarrow>
    (TenantId, RequestId list) std_map \<Rightarrow> (TenantId, RequestId list) std_map" where
  "group_step s b now i bt =
     (case find_request s i of
        None \<Rightarrow> bt
      | Some r \<Rightarrow>
          if may_join s b now i r
          then std_insert (m_tenant (req_meta r)) (std_at [] (m_tenant (req_meta r)) bt @ [i]) bt
          else bt)"

definition by_tenant :: "Impl \<Rightarrow> BatchRec \<Rightarrow> TimePoint \<Rightarrow> RequestId list \<Rightarrow>
    (TenantId, RequestId list) std_map" where
  "by_tenant s b now cands = fold (group_step s b now) cands []"

text \<open>The choice: the tenant the fairness controller selects, then its oldest candidate.\<close>

definition arrival :: "Impl \<Rightarrow> RequestId \<Rightarrow> TimePoint \<times> RequestId" where
  "arrival s i = ((case find_request s i of None \<Rightarrow> 0 | Some r \<Rightarrow> req_submitted r), i)"

definition pick_member :: "Platform \<Rightarrow> Impl \<Rightarrow> (TenantId, RequestId list) std_map \<Rightarrow> RequestId" where
  "pick_member P s bt =
     (let chosen = select_next (plat_quotient P) (pol_fairness (im_policy s)) (im_fairness s) (std_keys bt)
      in hd (sort_key (arrival s) (std_at [] chosen bt)))"

definition groups_ok :: "RequestId set \<Rightarrow> (TenantId, RequestId list) std_map \<Rightarrow> bool" where
  "groups_ok A bt \<longleftrightarrow> (\<forall>t v. map_of bt t = Some v \<longrightarrow> v \<noteq> [] \<and> set v \<subseteq> A)"

lemma groups_ok_step:
  assumes "groups_ok A bt" and "\<And>r. find_request s i = Some r \<Longrightarrow> may_join s b now i r \<Longrightarrow> i \<in> A"
  shows "groups_ok A (group_step s b now i bt)"
proof -
  have "set (std_at [] t bt) \<subseteq> A" for t
    using assms(1) by (cases "map_of bt t") (auto simp: groups_ok_def std_at_def)
  with assms show ?thesis
    by (auto simp: groups_ok_def group_step_def map_of_std_insert split: option.splits if_splits)
qed

lemma groups_ok_by_tenant:
  "groups_ok {i \<in> set cands. \<exists>r. find_request s i = Some r \<and> may_join s b now i r}
     (by_tenant s b now cands)"
proof -
  have "groups_ok {i \<in> set cands. \<exists>r. find_request s i = Some r \<and> may_join s b now i r}
      (fold (group_step s b now) cands [])"
    by (rule fold_invariant_on) (auto simp: groups_ok_def [of _ "[]"] intro!: groups_ok_step)
  then show ?thesis by (simp add: by_tenant_def)
qed

lemma pick_in_group:
  assumes "bt \<noteq> []" and "groups_ok A bt"
  shows "pick_member P s bt \<in> A"
proof -
  let ?c = "select_next (plat_quotient P) (pol_fairness (im_policy s)) (im_fairness s) (std_keys bt)"
  have "std_keys bt \<noteq> []" using assms(1) by (simp add: std_keys_def)
  then have "?c \<in> set (std_keys bt)" by (rule select_next_in)
  then obtain v where "map_of bt ?c = Some v" by (auto simp: set_keys_dom)
  with assms(2) show ?thesis
    by (auto simp: pick_member_def Let_def std_at_def groups_ok_def dest: hd_sort_key_in)
qed

lemma pick_member_ok:
  assumes "by_tenant s b now cands \<noteq> []"
  shows "pick_member P s (by_tenant s b now cands) \<in> set cands"
    and "\<exists>r. find_request s (pick_member P s (by_tenant s b now cands)) = Some r \<and>
       may_join s b now (pick_member P s (by_tenant s b now cands)) r"
  using pick_in_group [OF assms groups_ok_by_tenant] by auto

function fill_loop :: "Platform \<Rightarrow> BatchId \<Rightarrow> CompatibilityKey \<Rightarrow> TimePoint \<Rightarrow> RequestId list \<Rightarrow> Impl \<Rightarrow> Impl" where
  "fill_loop P bid key now cands s =
     (let bt = by_tenant s (at_batch s bid) now cands
      in if bt = [] then s
         else let pick = pick_member P s bt
              in fill_loop P bid key now (removeAll pick cands)
                   (set_waiting (index_remove key pick) (add_member_to_batch bid pick s)))"
  by pat_completeness auto
termination
proof (relation "measure (\<lambda>(P, bid, key, now, cands, s). length cands)", goal_cases)
  case 1
  show ?case by simp
next
  case (2 P bid key now cands s bt pick)
  then have "pick \<in> set cands" by (simp add: pick_member_ok(1))
  then show ?case by (simp add: length_removeAll_less)
qed

declare fill_loop.simps [simp del]

text \<open>
  The loop rule: what every round keeps, a round being the move of one admissible candidate from
  the waiting index into the batch, holds at the end; and at the end no candidate is admissible.
\<close>

lemma fill_loop_rule:
  assumes "I cs s"
    and "\<And>cs s p r. I cs s \<Longrightarrow> p \<in> set cs \<Longrightarrow> find_request s p = Some r \<Longrightarrow>
      may_join s (at_batch s b) now p r \<Longrightarrow>
      I (removeAll p cs) (set_waiting (index_remove k p) (add_member_to_batch b p s))"
    and "\<And>cs s. I cs s \<Longrightarrow> by_tenant s (at_batch s b) now cs = [] \<Longrightarrow> Q s"
  shows "Q (fill_loop P b k now cs s)"
  using assms
proof (induction P b k now cs s rule: fill_loop.induct)
  case (1 P b k now cs s)
  let ?bt = "by_tenant s (at_batch s b) now cs"
  show ?case
  proof (cases "?bt = []")
    case True
    then show ?thesis
      using "1.prems"(1,3) by (simp add: fill_loop.simps [of P b k now cs s])
  next
    case False
    let ?p = "pick_member P s ?bt"
    obtain r where "find_request s ?p = Some r" "may_join s (at_batch s b) now ?p r"
      using pick_member_ok(2) [OF False] by blast
    then have "I (removeAll ?p cs) (set_waiting (index_remove k ?p) (add_member_to_batch b ?p s))"
      using "1.prems"(1,2) pick_member_ok(1) [OF False] by blast
    then show ?thesis
      using "1.IH" [OF refl False refl] "1.prems"(2,3) False
      by (simp add: fill_loop.simps [of P b k now cs s] Let_def)
  qed
qed

definition fill_forming :: "Platform \<Rightarrow> BatchId \<Rightarrow> CompatibilityKey \<Rightarrow> TimePoint \<Rightarrow> Impl \<Rightarrow> Impl" where
  "fill_forming P bid key now s =
     (case find_batch s bid of
        None \<Rightarrow> s
      | Some _ \<Rightarrow>
          (case index_bucket (im_waiting s) key of
             None \<Rightarrow> s
           | Some bucket \<Rightarrow> fill_loop P bid key now bucket s))"

definition earliest_arrival :: "Impl \<Rightarrow> RequestId list \<Rightarrow> TimePoint \<Rightarrow> TimePoint" where
  "earliest_arrival s ms now = fold (\<lambda>m earliest.
     case find_request s m of
       None \<Rightarrow> earliest
     | Some r \<Rightarrow> if req_submitted r < earliest then req_submitted r else earliest) ms now"

text \<open>
  \<open>make_forming\<close> in its three parts: the record of the new batch and its registration, filling,
  and the times derived from the members it got.
\<close>

definition forming_record :: "BatchId \<Rightarrow> Generation \<Rightarrow> CompatibilityKey \<Rightarrow> TimePoint \<Rightarrow> Impl \<Rightarrow> BatchRec" where
  "forming_record bid g key now s =
     (let b = (at_batch s bid)\<lparr>bat_id := bid, bat_generation := g, bat_epoch := im_epoch s,
            bat_state := BS_forming, bat_key := key, bat_formed_ns := now,
            bat_seal_reason := SR_max_wait_elapsed\<rparr>
      in case index_bucket (im_waiting s) key of
           Some (i # _) \<Rightarrow> (case find_request s i of
               None \<Rightarrow> b
             | Some r \<Rightarrow> b\<lparr>bat_phase := d_phase (m_descriptor (req_meta r))\<rparr>)
         | _ \<Rightarrow> b)"

definition open_forming :: "CompatibilityKey \<Rightarrow> TimePoint \<Rightarrow> Impl \<Rightarrow> BatchId \<times> Impl" where
  "open_forming key now s =
     (let (bid, s) = nb s;
          (g, s) = ng s
      in (bid, inc st_forming_now_update
            (set_forming key bid (put_batch bid (forming_record bid g key now s) s))))"

definition settle_forming :: "BatchId \<Rightarrow> TimePoint \<Rightarrow> Impl \<Rightarrow> Impl" where
  "settle_forming bid now s =
     (let s = upd_batch bid (\<lambda>b. b\<lparr>bat_allowed_wait_ns := compute_allowed_wait s b now\<rparr>) s
      in upd_batch bid (\<lambda>b. b\<lparr>bat_formed_ns := earliest_arrival s (bat_members b) now\<rparr>) s)"

definition make_forming :: "Platform \<Rightarrow> CompatibilityKey \<Rightarrow> TimePoint \<Rightarrow> Impl \<Rightarrow> Impl" where
  "make_forming P key now s =
     (let (bid, s) = open_forming key now s
      in settle_forming bid now (fill_forming P bid key now s))"

section \<open>Sealing\<close>

text \<open>The member loop that moves requests along with their batch.\<close>

definition advance_members :: "RequestState \<Rightarrow> RequestState \<Rightarrow> RequestId list \<Rightarrow> Impl \<Rightarrow> Impl" where
  "advance_members st st' ms s = upd_requests ms (\<lambda>r. if req_state r = st
     then r\<lparr>req_state := st'\<rparr> else r) s"

lemma find_advance [simp]:
  "find_request (advance_members st st' ms s) i
     = (if i \<in> set ms then map_option (\<lambda>r. if req_state r = st then r\<lparr>req_state := st'\<rparr> else r)
          (find_request s i) else find_request s i)"
  "find_batch (advance_members st st' ms s) = find_batch s"
  "find_attempt (advance_members st st' ms s) = find_attempt s"
  by (simp_all add: advance_members_def find_upd_requests)

lemma advance_members_fields [simp]:
  "im_policy (advance_members st st' ms s) = im_policy s"
  "im_clock_now (advance_members st st' ms s) = im_clock_now s"
  "im_fairness (advance_members st st' ms s) = im_fairness s"
  "im_epoch (advance_members st st' ms s) = im_epoch s"
  "im_next_request (advance_members st st' ms s) = im_next_request s"
  "im_next_batch (advance_members st st' ms s) = im_next_batch s"
  "im_next_attempt (advance_members st st' ms s) = im_next_attempt s"
  "im_next_generation (advance_members st st' ms s) = im_next_generation s"
  "im_attempts (advance_members st st' ms s) = im_attempts s"
  "im_batches (advance_members st st' ms s) = im_batches s"
  "im_workers (advance_members st st' ms s) = im_workers s"
  "im_waiting (advance_members st st' ms s) = im_waiting s"
  "im_forming (advance_members st st' ms s) = im_forming s"
  "im_sealed_order (advance_members st st' ms s) = im_sealed_order s"
  by (simp_all add: advance_members_def)

definition do_seal :: "BatchId \<Rightarrow> SealReason \<Rightarrow> TimePoint \<Rightarrow> Impl \<Rightarrow> bool \<times> Impl" where
  "do_seal bid reason now s =
     (case find_batch s bid of
        None \<Rightarrow> (False, s)
      | Some b \<Rightarrow>
          if bat_state b \<noteq> BS_forming then (False, s)
          else
            (let s = upd_batch bid (\<lambda>b. b\<lparr>bat_state := BS_sealed, bat_seal_reason := reason,
                       bat_sealed_ns := now\<rparr>) s;
                 s = advance_members RS_reserved RS_batched (bat_members b) s;
                 s = s\<lparr>im_forming := std_erase (bat_key b) (im_forming s),
                       im_sealed_order := im_sealed_order s @ [bid]\<rparr>;
                 s = inc st_batches_sealed_update (dec_forming_now s)
             in (True, emit ET_seal null_id bid null_id null_id (SealReason_to_string reason) s)))"

definition sealed_reason_for :: "Impl \<Rightarrow> BatchId \<Rightarrow> SealReason" where
  "sealed_reason_for s bid = (case find_batch s bid of None \<Rightarrow> SR_max_wait_elapsed
     | Some b \<Rightarrow> bat_seal_reason b)"

section \<open>Splitting and merging\<close>

text \<open>The fields a new batch copies from the one it was split from.\<close>

definition copy_lineage :: "BatchRec \<Rightarrow> BatchRec \<Rightarrow> BatchRec" where
  "copy_lineage b c = c\<lparr>bat_generation := bat_generation b, bat_epoch := bat_epoch b,
     bat_key := bat_key b, bat_phase := bat_phase b, bat_descriptor := bat_descriptor b,
     bat_formed_ns := bat_formed_ns b, bat_sealed_ns := bat_sealed_ns b,
     bat_allowed_wait_ns := bat_allowed_wait_ns b, bat_worker := bat_worker b,
     bat_boot := bat_boot b\<rparr>"

definition assign_batch :: "BatchId \<Rightarrow> RequestId list \<Rightarrow> Impl \<Rightarrow> Impl" where
  "assign_batch bid ms s = upd_requests ms (\<lambda>r. r\<lparr>req_batch := bid\<rparr>) s"

definition recompute :: "BatchId \<Rightarrow> Impl \<Rightarrow> Impl" where
  "recompute bid s = upd_batch bid (recompute_accum s) s"

text \<open>The first part of a split: a new batch takes over the second half of the members.\<close>

definition split_child :: "BatchId \<Rightarrow> BatchRec \<Rightarrow> Impl \<Rightarrow> BatchId \<times> Impl" where
  "split_child bid b s =
     (let half = length (bat_members b) div 2;
          first = take half (bat_members b);
          second = drop half (bat_members b);
          (child, s) = nb s;
          c = at_batch s child;
          s = put_batch child ((copy_lineage b c)\<lparr>bat_id := child, bat_state := bat_state b,
                bat_parents := bat_parents c @ [bid]\<rparr>) s;
          s = assign_batch child second s;
          s = upd_batch child (\<lambda>c. c\<lparr>bat_members := bat_members c @ second\<rparr>) s;
          s = upd_batch bid (\<lambda>b. b\<lparr>bat_members := first,
                bat_children := bat_children b @ [child]\<rparr>) s;
          s = assign_batch bid first s
      in (child, recompute child (recompute bid s)))"

text \<open>A split of a sealed batch also supersedes it by a new batch with the first half.\<close>

definition split_resealed :: "BatchId \<Rightarrow> BatchId \<Rightarrow> RequestId list \<Rightarrow> SplitReason \<Rightarrow> Impl \<Rightarrow> Impl" where
  "split_resealed bid child first reason s =
     (let s = s\<lparr>im_sealed_order := remove1 bid (im_sealed_order s)\<rparr>;
          s = upd_batch bid (\<lambda>b. b\<lparr>bat_state := BS_superseded\<rparr>) s;
          (firstid, s) = nb s;
          f = at_batch s firstid;
          s = put_batch firstid ((copy_lineage (at_batch s bid) f)\<lparr>bat_id := firstid,
                bat_state := BS_sealed, bat_members := first,
                bat_parents := bat_parents f @ [bid],
                bat_children := bat_children f @ [child]\<rparr>) s;
          s = recompute firstid s;
          s = s\<lparr>im_sealed_order := im_sealed_order s @ [firstid]\<rparr>;
          s = upd_batch child (\<lambda>c. c\<lparr>bat_parents := bat_parents c @ [firstid]\<rparr>) s;
          s = upd_batch bid (\<lambda>b. b\<lparr>bat_children := bat_children b @ [firstid]\<rparr>) s;
          s = emit ET_split null_id firstid null_id null_id
                (SplitReason_to_string reason @ '' first'') s
      in emit ET_split null_id child null_id null_id
           (SplitReason_to_string reason @ '' second'') s)"

definition do_split :: "BatchId \<Rightarrow> SplitReason \<Rightarrow> Impl \<Rightarrow> BatchId \<times> Impl" where
  "do_split bid reason s =
     (case find_batch s bid of
        None \<Rightarrow> (null_id, s)
      | Some b \<Rightarrow>
          if bat_state b = BS_dispatched \<or> bat_state b = BS_running \<or> is_batch_terminal (bat_state b)
          then (null_id, s)
          else if length (bat_members b) div 2 = 0 then (null_id, s)
          else
            (let (child, s) = split_child bid b s;
                 s = (if bat_state (at_batch s bid) = BS_sealed
                      then split_resealed bid child
                        (take (length (bat_members b) div 2) (bat_members b)) reason s
                      else emit ET_split null_id child null_id null_id (SplitReason_to_string reason)
                        (inc st_forming_now_update (set_forming (bat_key (at_batch s bid)) bid s)))
             in (child, inc st_batches_split_update s)))"

definition can_merge :: "BatchPolicy \<Rightarrow> BatchRec \<Rightarrow> BatchRec \<Rightarrow> bool" where
  "can_merge p a b =
     (if bat_key a \<noteq> bat_key b then False
      else if bat_phase a \<noteq> bat_phase b then False
      else if bat_state a \<noteq> bat_state b then False
      else if bat_state a \<noteq> BS_sealed \<and> bat_state a \<noteq> BS_forming then False
      else if \<not> merge_enabled (pol_merge p) then False
      else allows_add (budget (pol_constraints p)) 0 0 0 0 0
             (acc_count (bat_accum a) + acc_count (bat_accum b))
             (acc_input_tokens (bat_accum a) + acc_input_tokens (bat_accum b))
             (acc_output_tokens (bat_accum a) + acc_output_tokens (bat_accum b))
             (acc_work (bat_accum a) + acc_work (bat_accum b))
             (acc_memory (bat_accum a) + acc_memory (bat_accum b)))"

text \<open>
  A merge of a batch with itself passes \<open>can_merge\<close> and then appends to the vectors it iterates
  over, which the language leaves undefined.
\<close>

definition do_merge :: "BatchId \<Rightarrow> BatchId \<Rightarrow> Impl \<Rightarrow> (BatchId \<times> Impl) option" where
  "do_merge aid bid s =
     (case (find_batch s aid, find_batch s bid) of
        (Some a, Some b) \<Rightarrow>
          if \<not> can_merge (im_policy s) a b then Some (null_id, s)
          else if aid = bid then None
          else
            (let s = assign_batch aid (bat_members b) s;
                 s = upd_batch aid (\<lambda>a. a\<lparr>bat_members := bat_members a @ bat_members b,
                       bat_parents := bat_parents a @ bat_parents b @ [bid],
                       bat_children := bat_children a @ bat_children b\<rparr>) s;
                 s = recompute aid s;
                 s = upd_batch bid (\<lambda>b. b\<lparr>bat_state := BS_superseded\<rparr>) s;
                 s = s\<lparr>im_sealed_order := removeAll bid (im_sealed_order s)\<rparr>;
                 s = (if map_of (im_forming s) (bat_key b) = Some bid
                      then set_forming (bat_key b) aid s else s);
                 s = inc st_batches_merged_update s
             in Some (aid, emit ET_merge null_id aid null_id null_id ''merged'' s))
      | _ \<Rightarrow> Some (null_id, s))"

lemma find_assign [simp]:
  "find_request (assign_batch bid ms s) i
     = (if i \<in> set ms then map_option (\<lambda>r. r\<lparr>req_batch := bid\<rparr>) (find_request s i) else find_request s i)"
  "find_batch (assign_batch bid ms s) = find_batch s"
  "find_attempt (assign_batch bid ms s) = find_attempt s"
  by (simp_all add: assign_batch_def find_upd_requests)

lemma find_recompute [simp]:
  "find_request (recompute bid s) = find_request s"
  "find_batch (recompute bid s) c
     = (if c = bid then map_option (recompute_accum s) (find_batch s bid) else find_batch s c)"
  "find_attempt (recompute bid s) = find_attempt s"
  by (simp_all add: recompute_def)

lemma assign_batch_fields [simp]:
  "im_policy (assign_batch bid ms s) = im_policy s"
  "im_clock_now (assign_batch bid ms s) = im_clock_now s"
  "im_fairness (assign_batch bid ms s) = im_fairness s"
  "im_epoch (assign_batch bid ms s) = im_epoch s"
  "im_next_request (assign_batch bid ms s) = im_next_request s"
  "im_next_batch (assign_batch bid ms s) = im_next_batch s"
  "im_next_attempt (assign_batch bid ms s) = im_next_attempt s"
  "im_next_generation (assign_batch bid ms s) = im_next_generation s"
  "im_attempts (assign_batch bid ms s) = im_attempts s"
  "im_batches (assign_batch bid ms s) = im_batches s"
  "im_workers (assign_batch bid ms s) = im_workers s"
  "im_waiting (assign_batch bid ms s) = im_waiting s"
  "im_forming (assign_batch bid ms s) = im_forming s"
  "im_sealed_order (assign_batch bid ms s) = im_sealed_order s"
  by (simp_all add: assign_batch_def)

lemma recompute_fields [simp]:
  "im_policy (recompute bid s) = im_policy s"
  "im_clock_now (recompute bid s) = im_clock_now s"
  "im_fairness (recompute bid s) = im_fairness s"
  "im_epoch (recompute bid s) = im_epoch s"
  "im_next_request (recompute bid s) = im_next_request s"
  "im_next_batch (recompute bid s) = im_next_batch s"
  "im_next_attempt (recompute bid s) = im_next_attempt s"
  "im_next_generation (recompute bid s) = im_next_generation s"
  "im_requests (recompute bid s) = im_requests s"
  "im_attempts (recompute bid s) = im_attempts s"
  "im_workers (recompute bid s) = im_workers s"
  "im_waiting (recompute bid s) = im_waiting s"
  "im_forming (recompute bid s) = im_forming s"
  "im_sealed_order (recompute bid s) = im_sealed_order s"
  by (simp_all add: recompute_def)

section \<open>Cancellation and expiry\<close>

text \<open>The assignments to an attempt that ends it.\<close>

definition end_attempt :: "RequestState \<Rightarrow> CompletionStatus \<Rightarrow> TimePoint \<Rightarrow> AttemptRec \<Rightarrow> AttemptRec" where
  "end_attempt st oc now a = a\<lparr>att_state := st, att_outcome := oc, att_completed := now\<rparr>"

definition complete_request_terminal ::
    "RequestId \<Rightarrow> CompletionStatus \<Rightarrow> RequestState \<Rightarrow> TimePoint \<Rightarrow> Impl \<Rightarrow> Impl" where
  "complete_request_terminal i status st now s =
     (case find_request s i of
        None \<Rightarrow> s
      | Some r \<Rightarrow>
          if is_request_terminal (req_state r) then s
          else
            (let s = upd_request i (\<lambda>r. r\<lparr>req_state := st, req_in_waiting := False\<rparr>) s;
                 s = upd_attempt (req_current_attempt r) (end_attempt st status now) s
             in if status = CS_expired then
                  emit ET_expire i (req_batch r) (req_current_attempt r) (m_tenant (req_meta r))
                    ''expired'' (inc st_expired_update s)
                else if status = CS_cancelled then
                  emit ET_cancel i (req_batch r) (req_current_attempt r) (m_tenant (req_meta r))
                    ''cancelled'' (inc st_cancelled_update s)
                else
                  emit ET_complete i (req_batch r) (req_current_attempt r) (m_tenant (req_meta r))
                    (CompletionStatus_to_string status) (inc st_requests_completed_update s)))"

definition in_batch_state :: "RequestState \<Rightarrow> bool" where
  "in_batch_state st \<longleftrightarrow> st = RS_reserved \<or> st = RS_batched \<or> st = RS_dispatched \<or>
     st = RS_running \<or> st = RS_sealed"

text \<open>A request leaves a forming batch.\<close>

definition remove_member :: "RequestId \<Rightarrow> BatchId \<Rightarrow> TimePoint \<Rightarrow> Impl \<Rightarrow> Impl" where
  "remove_member i bid now s =
     (let s = upd_batch bid (\<lambda>b. b\<lparr>bat_members := removeAll i (bat_members b)\<rparr>) s;
          s = recompute bid s
      in upd_batch bid (\<lambda>b. b\<lparr>bat_allowed_wait_ns := compute_allowed_wait s b now\<rparr>) s)"

definition do_cancel :: "RequestId \<Rightarrow> CancellationReason \<Rightarrow> TimePoint \<Rightarrow> Impl \<Rightarrow> unit Result \<times> Impl" where
  "do_cancel i reason now s =
     (case find_request s i of
        None \<Rightarrow> (Result_err EC_not_found ''request not found'', s)
      | Some r \<Rightarrow>
          if is_request_terminal (req_state r)
          then (Result_err EC_invalid_state ''request already terminal'', s)
          else if \<not> in_batch_state (req_state r) then
            (let s = (if req_in_waiting r then set_waiting (index_remove (req_key r) i) s else s);
                 s = upd_request i (\<lambda>r. r\<lparr>req_state := RS_cancelled, req_in_waiting := False\<rparr>) s;
                 s = upd_attempt (req_current_attempt r) (end_attempt RS_cancelled CS_cancelled now) s;
                 s = inc st_cancelled_update s
             in (Inr (), emit ET_cancel i null_id (req_current_attempt r) (m_tenant (req_meta r))
                   (CancellationReason_to_string reason) s))
          else
            (case find_batch s (req_batch r) of
               None \<Rightarrow> (Result_err EC_invalid_state ''cannot cancel request in this state'', s)
             | Some b \<Rightarrow>
                 if bat_state b = BS_forming then
                   (let s = remove_member i (req_batch r) now s;
                        s = upd_request i (\<lambda>r. r\<lparr>req_state := RS_cancelled, req_batch := null_id\<rparr>) s;
                        s = upd_attempt (req_current_attempt r) (end_attempt RS_cancelled CS_cancelled now) s;
                        s = inc st_cancelled_update s
                    in (Inr (), emit ET_cancel i (bat_id b) (req_current_attempt r)
                          (m_tenant (req_meta r)) (CancellationReason_to_string reason @ '' before seal'') s))
                 else if bat_state b = BS_sealed \<or> bat_state b = BS_dispatched \<or> bat_state b = BS_running then
                   (let s = upd_batch (req_batch r)
                              (\<lambda>b. b\<lparr>bat_outcomes := std_insert i CS_cancelled (bat_outcomes b)\<rparr>) s;
                        s = upd_request i (\<lambda>r. r\<lparr>req_state := RS_cancelled\<rparr>) s;
                        s = upd_attempt (req_current_attempt r) (end_attempt RS_cancelled CS_cancelled now) s;
                        s = inc st_cancelled_update s
                    in (Inr (), emit ET_cancel i (bat_id b) (req_current_attempt r)
                          (m_tenant (req_meta r)) (CancellationReason_to_string reason @ '' after seal'') s))
                 else (Result_err EC_invalid_state ''cannot cancel request in this state'', s)))"

definition past_deadline :: "Impl \<Rightarrow> TimePoint \<Rightarrow> RequestId \<Rightarrow> bool" where
  "past_deadline s now i = (case find_request s i of None \<Rightarrow> False
     | Some r \<Rightarrow> has_deadline (m_deadline (req_meta r)) \<and> expired (m_deadline (req_meta r)) now)"

definition expire_waiting :: "TimePoint \<Rightarrow> RequestId \<Rightarrow> Impl \<Rightarrow> Impl" where
  "expire_waiting now i s =
     (case find_request s i of
        None \<Rightarrow> s
      | Some r \<Rightarrow> complete_request_terminal i CS_expired RS_expired now
          (set_waiting (index_remove (req_key r) i) s))"

definition expire_member :: "TimePoint \<Rightarrow> RequestId \<Rightarrow> Impl \<Rightarrow> Impl" where
  "expire_member now i s =
     (case find_request s i of
        None \<Rightarrow> s
      | Some _ \<Rightarrow> snd (do_cancel i CR_deadline_expired now s))"

definition forming_members :: "Impl \<Rightarrow> RequestId list" where
  "forming_members s = concat (map (\<lambda>(_, bid). case find_batch s bid of
     None \<Rightarrow> [] | Some b \<Rightarrow> bat_members b) (im_forming s))"

definition expire_locked :: "Platform \<Rightarrow> TimePoint \<Rightarrow> Impl \<Rightarrow> Impl" where
  "expire_locked P now s =
     (let expired_ids = filter (past_deadline s now) (concat (map snd (plat_bucket_iter P (im_waiting s))));
          s = fold (expire_waiting now) expired_ids s;
          in_batch_expired = filter (past_deadline s now) (forming_members s)
      in fold (expire_member now) in_batch_expired s)"

section \<open>The tick\<close>

definition tick_form :: "Platform \<Rightarrow> TimePoint \<Rightarrow> CompatibilityKey \<Rightarrow> Impl \<Rightarrow> Impl" where
  "tick_form P now key s =
     (if map_of (im_forming s) key = None then make_forming P key now s else s)"

definition remaining_candidates :: "Impl \<Rightarrow> CompatibilityKey \<Rightarrow> Candidate list" where
  "remaining_candidates s key =
     (case index_bucket (im_waiting s) key of
        None \<Rightarrow> []
      | Some bucket \<Rightarrow> List.map_filter (\<lambda>m. case find_request s m of
            None \<Rightarrow> None
          | Some r \<Rightarrow> if is_waiting_state (req_state r) then Some (to_candidate m r) else None) bucket)"

definition tick_fill :: "Platform \<Rightarrow> TimePoint \<Rightarrow> BatchId \<Rightarrow> BatchId list \<times> Impl \<Rightarrow> BatchId list \<times> Impl" where
  "tick_fill P now bid ts =
     (let (to_seal, s) = ts in
      case find_batch s bid of
        None \<Rightarrow> (to_seal, s)
      | Some b \<Rightarrow>
          (let s = fill_forming P bid (bat_key b) now s;
               s = upd_batch bid (\<lambda>b. b\<lparr>bat_allowed_wait_ns := compute_allowed_wait s b now\<rparr>) s;
               b = at_batch s bid
           in if dec_action (decide (im_policy s) (to_former_batch b)
                   (remaining_candidates s (bat_key b)) now) = Act_seal
              then (to_seal @ [bid], s) else (to_seal, s)))"

definition tick_seal :: "TimePoint \<Rightarrow> BatchId \<Rightarrow> Impl \<Rightarrow> Impl" where
  "tick_seal now bid s = (case find_batch s bid of None \<Rightarrow> s
     | Some _ \<Rightarrow> snd (do_seal bid (sealed_reason_for s bid) now s))"

definition sealed_by_key :: "Impl \<Rightarrow> (CompatibilityKey, BatchId list) std_map" where
  "sealed_by_key s = fold (\<lambda>bid m. case find_batch s bid of
      None \<Rightarrow> m
    | Some b \<Rightarrow> if bat_state b = BS_sealed
        then std_insert (bat_key b) (std_at [] (bat_key b) m @ [bid]) m else m) (im_sealed_order s) []"

text \<open>The loop over neighbours of one bucket: \<open>do_merge(v[i], v[i + 1])\<close> while the merge counter allows.\<close>

fun merge_neighbours :: "BatchId list \<Rightarrow> Impl \<Rightarrow> Impl option" where
  "merge_neighbours (x # y # v) s =
     (if st_batches_merged (im_stats s) < ucast (max_merges_per_cycle (pol_merge (im_policy s)))
      then (case do_merge x y s of None \<Rightarrow> None | Some (_, s) \<Rightarrow> merge_neighbours (y # v) s)
      else Some s)"
| "merge_neighbours _ s = Some s"

fun merge_groups :: "BatchId list list \<Rightarrow> Impl \<Rightarrow> Impl option" where
  "merge_groups [] s = Some s"
| "merge_groups (v # vs) s = (case merge_neighbours v s of None \<Rightarrow> None | Some s \<Rightarrow> merge_groups vs s)"

definition tick_split :: "nat \<Rightarrow> Impl \<Rightarrow> Impl" where
  "tick_split i s =
     (case find_batch s (im_sealed_order s ! i) of
        None \<Rightarrow> s
      | Some b \<Rightarrow>
          if bat_state b \<noteq> BS_sealed then s
          else let max_sz = max_worker_batch_size s
               in if max_sz \<noteq> 0 \<and> acc_count (bat_accum b) > max_sz
                  then snd (do_split (bat_id b) SP_worker_batch_size_constraint s)
                  else s)"

text \<open>
  \<open>for (i = 0; i < sealed_order_.size(); ++i)\<close>: the bound is read again in every round, while a
  split takes the batch out of the order and appends its first half. Not ending would be \<open>None\<close>;
  \<open>split_loop_total\<close> shows that the loop ends when the order names batches by their own ids.
\<close>

partial_function (option) split_loop :: "nat \<Rightarrow> Impl \<Rightarrow> Impl option" where
  "split_loop i s =
     (if i < length (im_sealed_order s) then split_loop (Suc i) (tick_split i s) else Some s)"

declare split_loop.simps [code]

definition tick_merge :: "Impl \<Rightarrow> Impl option" where
  "tick_merge s =
     (if merge_enabled (pol_merge (im_policy s))
      then merge_groups (map snd (sealed_by_key s)) s else Some s)"

definition tick_until_merge :: "Platform \<Rightarrow> TimePoint \<Rightarrow> Impl \<Rightarrow> Impl" where
  "tick_until_merge P now s =
     (let s = expire_locked P now s;
          s = fold (tick_form P now) (map fst (plat_bucket_iter P (im_waiting s))) s;
          (to_seal, s) = fold (tick_fill P now) (map snd (im_forming s)) ([], s)
      in fold (tick_seal now) to_seal s)"

definition do_tick :: "Platform \<Rightarrow> TimePoint \<Rightarrow> Impl \<Rightarrow> Impl option" where
  "do_tick P now s =
     (case tick_merge (tick_until_merge P now s) of
        None \<Rightarrow> None
      | Some s \<Rightarrow> split_loop 0 s)"

section \<open>Retry\<close>

text \<open>The new attempt and its entry in the waiting index.\<close>

definition queue_retry :: "RequestId \<Rightarrow> RequestRec \<Rightarrow> u32 \<Rightarrow> Impl \<Rightarrow> AttemptId \<times> Impl" where
  "queue_retry i r num s =
     (let (aid, s) = na s;
          s = put_attempt aid ((at_attempt s aid)\<lparr>att_id := aid, att_number := num + 1,
                att_state := RS_eligible\<rparr>) s;
          s = upd_request i (\<lambda>r. r\<lparr>req_current_attempt := aid,
                req_attempts := req_attempts r @ [aid], req_state := RS_eligible,
                req_batch := null_id, req_in_waiting := True\<rparr>) s;
          s = set_waiting (index_add (req_key r) i) s;
          s = inc st_requests_retried_update s
      in (aid, emit ET_retry i null_id aid (m_tenant (req_meta r)) ''retry'' s))"

definition do_retry :: "Platform \<Rightarrow> RequestId \<Rightarrow> TimePoint \<Rightarrow> Impl \<Rightarrow> (AttemptId Result \<times> Impl) option" where
  "do_retry P i now s =
     (case find_request s i of
        None \<Rightarrow> Some (Result_err EC_not_found ''request not found'', s)
      | Some r \<Rightarrow>
          let num = (case find_attempt s (req_current_attempt r) of None \<Rightarrow> 0
                | Some a \<Rightarrow> att_number a) in
          if num \<ge> max_attempts (pol_retry (im_policy s))
          then Some (Result_err EC_invalid_state ''retry budget exhausted'', s)
          else if has_deadline (m_deadline (req_meta r)) \<and> expired (m_deadline (req_meta r)) now
          then Some (Result_err EC_deadline_expired ''deadline impossible for retry'', s)
          else
            (let (aid, s) = queue_retry i r num s
             in map_option (\<lambda>s. (Inr aid, s)) (do_tick P now s)))"

end
