(* ===== verification/Sched_Api.thy ===== *)
theory Sched_Api
  imports Sched_Ops
begin

text \<open>
  Completion and dispatch, and the public methods of \<open>BatchFabric\<close>: each resolves the time,
  runs a handler under the lock and hands the collected events to the sink.
\<close>

section \<open>Completion\<close>

definition record_outcome :: "BatchId \<Rightarrow> RequestId \<Rightarrow> CompletionStatus \<Rightarrow> Impl \<Rightarrow> Impl" where
  "record_outcome bid i oc = upd_batch bid (\<lambda>b. b\<lparr>bat_outcomes := std_insert i oc (bat_outcomes b)\<rparr>)"

definition record_result :: "BatchId \<Rightarrow> RequestId \<Rightarrow> string \<Rightarrow> Impl \<Rightarrow> Impl" where
  "record_result bid i txt =
     upd_batch bid (\<lambda>b. b\<lparr>bat_member_results := std_insert i txt (bat_member_results b)\<rparr>)"

definition set_state :: "RequestId \<Rightarrow> RequestState \<Rightarrow> Impl \<Rightarrow> Impl" where
  "set_state i st = upd_request i (\<lambda>r. r\<lparr>req_state := st\<rparr>)"

text \<open>
  \<open>apply_member_outcome(r, a, mc, now, ev)\<close>, with \<open>i\<close> and \<open>aid\<close> the keys of \<open>*r\<close> and \<open>*a\<close>.
\<close>

definition apply_success :: "RequestId \<Rightarrow> RequestRec \<Rightarrow> AttemptId \<Rightarrow> AttemptRec \<Rightarrow> MemberCompletion \<Rightarrow>
    TimePoint \<Rightarrow> Impl \<Rightarrow> Impl" where
  "apply_success i r aid a mc now s =
     (let w = work_value (m_work (req_meta r));
          s = upd_request i (\<lambda>r. r\<lparr>req_state := RS_completed, req_authoritative_complete := True\<rparr>) s;
          s = upd_attempt aid (\<lambda>a. (end_attempt RS_completed CS_success now a)\<lparr>att_result := mc_result mc\<rparr>) s;
          s = record_outcome (req_batch r) (mc_request mc) CS_success s;
          s = record_result (req_batch r) (mc_request mc) (mc_result mc) s;
          s = inc st_requests_completed_update s;
          s = s\<lparr>im_stats := st_total_work_completed_update (\<lambda>x. x + w) (im_stats s)\<rparr>;
          s = (if fair_enabled (pol_fairness (im_policy s))
               then set_fairness (note_completed (m_tenant (req_meta r)) w) s else s)
      in emit ET_complete (req_id r) (req_batch r) (att_id a) (m_tenant (req_meta r)) ''success'' s)"

definition requeue :: "RequestId \<Rightarrow> RequestRec \<Rightarrow> u32 \<Rightarrow> Impl \<Rightarrow> Impl" where
  "requeue i r num s =
     (let (aid, s) = na s;
          s = put_attempt aid ((at_attempt s aid)\<lparr>att_id := aid, att_number := num + 1,
                att_state := RS_eligible\<rparr>) s;
          s = upd_request i (\<lambda>r. r\<lparr>req_current_attempt := aid, req_attempts := req_attempts r @ [aid],
                req_state := RS_eligible, req_batch := null_id, req_in_waiting := True\<rparr>) s;
          s = upd_attempt aid (\<lambda>a. a\<lparr>att_batch := null_id\<rparr>) s;
          s = set_waiting (index_add (req_key r) (req_id r)) s;
          s = inc st_requests_retried_update s
      in emit ET_retry (req_id r) (req_batch r) aid (m_tenant (req_meta r)) ''retryable failure'' s)"

definition apply_failure :: "RequestId \<Rightarrow> RequestRec \<Rightarrow> AttemptId \<Rightarrow> MemberCompletion \<Rightarrow>
    TimePoint \<Rightarrow> Impl \<Rightarrow> Impl" where
  "apply_failure i r aid mc now s =
     (let s = set_state i RS_failed s;
          s = upd_attempt aid (\<lambda>a. (end_attempt RS_failed (mc_status mc) now a)\<lparr>att_error := mc_error_code mc\<rparr>) s;
          s = record_outcome (req_batch r) (mc_request mc) (mc_status mc) s
      in record_result (req_batch r) (mc_request mc) (mc_error_message mc) s)"

definition apply_terminal :: "RequestId \<Rightarrow> RequestRec \<Rightarrow> AttemptId \<Rightarrow> MemberCompletion \<Rightarrow>
    RequestState \<Rightarrow> TimePoint \<Rightarrow> Impl \<Rightarrow> Impl" where
  "apply_terminal i r aid mc st now s =
     (let s = set_state i st s;
          s = upd_attempt aid (end_attempt st (mc_status mc) now) s
      in record_outcome (req_batch r) (mc_request mc) (mc_status mc) s)"

definition apply_member_outcome :: "RequestId \<Rightarrow> RequestRec \<Rightarrow> AttemptId \<Rightarrow> AttemptRec \<Rightarrow>
    MemberCompletion \<Rightarrow> TimePoint \<Rightarrow> Impl \<Rightarrow> Impl" where
  "apply_member_outcome i r aid a mc now s =
     (let t = m_tenant (req_meta r) in
      case mc_status mc of
        CS_success \<Rightarrow> apply_success i r aid a mc now s
      | CS_retryable_failure \<Rightarrow>
          (let s = inc st_retryable_failures_update (apply_failure i r aid mc now s)
           in if retry_enabled (pol_retry (im_policy s)) \<and>
                 att_number a < max_attempts (pol_retry (im_policy s))
              then requeue i r (att_number a) s
              else emit ET_complete (req_id r) (req_batch r) (att_id a) t
                     ''retryable failure (exhausted)'' s)
      | CS_non_retryable_failure \<Rightarrow>
          emit ET_complete (req_id r) (req_batch r) (att_id a) t ''non-retryable failure''
            (apply_failure i r aid mc now s)
      | CS_cancelled \<Rightarrow>
          emit ET_cancel (req_id r) (req_batch r) (att_id a) t ''cancelled''
            (inc st_cancelled_update (apply_terminal i r aid mc RS_cancelled now s))
      | CS_expired \<Rightarrow>
          emit ET_expire (req_id r) (req_batch r) (att_id a) t ''expired''
            (inc st_expired_update (apply_terminal i r aid mc RS_expired now s))
      | CS_stale \<Rightarrow>
          emit ET_stale_reject (req_id r) (req_batch r) (att_id a) t
            (CompletionStatus_to_string (mc_status mc)) (inc st_stale_rejections_update s)
      | CS_deferred \<Rightarrow>
          emit ET_stale_reject (req_id r) (req_batch r) (att_id a) t
            (CompletionStatus_to_string (mc_status mc)) (inc st_stale_rejections_update s)
      | CS_raw _ \<Rightarrow> s)"

definition complete_member :: "BatchId \<Rightarrow> TimePoint \<Rightarrow> MemberCompletion \<Rightarrow> Impl \<Rightarrow> Impl" where
  "complete_member bid now mc s =
     (case find_request s (mc_request mc) of
        None \<Rightarrow> emit ET_stale_reject (mc_request mc) bid (mc_attempt mc) null_id ''unknown request'' s
      | Some r \<Rightarrow>
          if req_current_attempt r \<noteq> mc_attempt mc then
            emit ET_stale_reject (mc_request mc) bid (mc_attempt mc) (m_tenant (req_meta r))
              ''stale attempt'' (inc st_stale_rejections_update s)
          else (case find_attempt s (mc_attempt mc) of
              None \<Rightarrow> s
            | Some a \<Rightarrow>
                if att_state a = RS_completed \<or> att_state a = RS_cancelled \<or>
                   att_state a = RS_expired \<or> att_state a = RS_failed then s
                else apply_member_outcome (mc_request mc) r (mc_attempt mc) a mc now s))"

definition all_terminal :: "Impl \<Rightarrow> RequestId list \<Rightarrow> bool" where
  "all_terminal s ms = list_all (\<lambda>m. case find_request s m of None \<Rightarrow> False
     | Some r \<Rightarrow> is_request_terminal (req_state r)) ms"

definition close_batch :: "BatchId \<Rightarrow> TimePoint \<Rightarrow> Impl \<Rightarrow> Impl" where
  "close_batch bid now s =
     (if all_terminal s (bat_members (at_batch s bid))
      then inc st_batches_completed_update
             (upd_batch bid (\<lambda>b. b\<lparr>bat_state := BS_completed, bat_completed_ns := now\<rparr>) s)
      else upd_batch bid (\<lambda>b. b\<lparr>bat_state := BS_partially_completed\<rparr>) s)"

definition worker_current :: "Impl \<Rightarrow> WorkerId \<Rightarrow> WorkerBootId \<Rightarrow> bool" where
  "worker_current s w boot = (case map_of (im_workers s) w of None \<Rightarrow> False
     | Some rec \<Rightarrow> wk_live rec \<and> wk_boot rec = boot)"

definition do_complete :: "BatchCompletion \<Rightarrow> TimePoint \<Rightarrow> Impl \<Rightarrow> unit Result \<times> Impl" where
  "do_complete cmp now s =
     (let stale = (\<lambda>why. emit ET_stale_reject null_id (comp_batch cmp) null_id null_id why
            (inc st_stale_rejections_update s)) in
      if comp_epoch cmp \<noteq> im_epoch s then
        (Result_err EC_stale_epoch ''completion epoch mismatch'', stale ''stale epoch'')
      else if \<not> worker_current s (comp_worker cmp) (comp_boot cmp) then
        (Result_err EC_stale_worker ''completion worker/boot not current'', stale ''stale worker'')
      else (case find_batch s (comp_batch cmp) of
          None \<Rightarrow> (Result_err EC_not_found ''batch not found'', inc st_stale_rejections_update s)
        | Some b \<Rightarrow>
            if bat_generation b \<noteq> comp_generation cmp then
              (Result_err EC_stale_attempt ''completion generation mismatch'', stale ''stale generation'')
            else if bat_state b \<noteq> BS_dispatched \<and> bat_state b \<noteq> BS_running then
              (Result_err EC_invalid_state ''batch not running'', s)
            else
              (let s = fold (complete_member (comp_batch cmp) now) (comp_members cmp) s;
                   s = close_batch (comp_batch cmp) now s
               in (Inr (), s\<lparr>im_workers := std_modify (comp_worker cmp)
                     (\<lambda>w. w\<lparr>wk_running := removeAll (comp_batch cmp) (wk_running w)\<rparr>) (im_workers s)\<rparr>))))"

section \<open>Dispatch\<close>

definition member_work :: "Impl \<Rightarrow> RequestId \<Rightarrow> MemberWork option" where
  "member_work s m = map_option (\<lambda>r. \<lparr>mw_request = m, mw_attempt = req_current_attempt r,
     mw_work = work_value (m_work (req_meta r)), mw_input_tokens = tok_input (m_tokens (req_meta r)),
     mw_output_tokens = tok_output (m_tokens (req_meta r)), mw_payload = m_payload (req_meta r)\<rparr>)
     (find_request s m)"

definition build_execution :: "Impl \<Rightarrow> BatchRec \<Rightarrow> BatchExecution" where
  "build_execution s b = \<lparr>ex_batch = bat_id b, ex_generation = bat_generation b,
     ex_epoch = bat_epoch b, ex_worker = bat_worker b, ex_descriptor = bat_descriptor b,
     ex_members = List.map_filter (member_work s) (bat_members b)\<rparr>"

definition mark_dispatched :: "BatchId \<Rightarrow> WorkerId \<Rightarrow> WorkerBootId \<Rightarrow> TimePoint \<Rightarrow> Impl \<Rightarrow> Impl" where
  "mark_dispatched bid w boot now s =
     (let s = upd_batch bid (\<lambda>b. b\<lparr>bat_state := BS_dispatched, bat_dispatched_ns := now,
            bat_worker := w, bat_boot := boot\<rparr>) s
      in advance_members RS_batched RS_dispatched (bat_members (at_batch s bid)) s)"

text \<open>
  The executor failed: every member is completed with a retryable failure. The attempt pointer is
  used without a test, so a missing attempt record is a null dereference (\<open>None\<close>).
\<close>

fun fail_members :: "Error \<Rightarrow> TimePoint \<Rightarrow> RequestId list \<Rightarrow> Impl \<Rightarrow> Impl option" where
  "fail_members e now [] s = Some s"
| "fail_members e now (m # ms) s =
     (case find_request s m of
        None \<Rightarrow> fail_members e now ms s
      | Some r \<Rightarrow>
          (case find_attempt s (req_current_attempt r) of
             None \<Rightarrow> None
           | Some a \<Rightarrow> fail_members e now ms
               (apply_member_outcome m r (req_current_attempt r) a
                 \<lparr>mc_request = m, mc_attempt = req_current_attempt r, mc_status = CS_retryable_failure,
                  mc_result = [], mc_error_code = err_code e, mc_error_message = Error_to_string e\<rparr>
                 now s)))"

definition success_completion :: "MemberResult \<Rightarrow> MemberCompletion" where
  "success_completion m = \<lparr>mc_request = mr_request m, mc_attempt = mr_attempt m,
     mc_status = CS_success, mc_result = mr_output m, mc_error_code = EC_ok, mc_error_message = []\<rparr>"

definition mark_running :: "BatchId \<Rightarrow> Impl \<Rightarrow> Impl" where
  "mark_running bid s =
     (let s = upd_batch bid (\<lambda>b. b\<lparr>bat_state := BS_running\<rparr>) s
      in advance_members RS_dispatched RS_running (bat_members (at_batch s bid)) s)"

definition run_completion :: "BatchRec \<Rightarrow> MemberResult list \<Rightarrow> BatchCompletion" where
  "run_completion b results = \<lparr>comp_worker = bat_worker b, comp_boot = bat_boot b,
     comp_epoch = bat_epoch b, comp_generation = bat_generation b, comp_batch = bat_id b,
     comp_members = map success_completion results\<rparr>"

text \<open>The batch is handed to the executor's worker.\<close>

definition begin_dispatch :: "BatchId \<Rightarrow> IExecutor \<Rightarrow> TimePoint \<Rightarrow> Impl \<Rightarrow> Impl" where
  "begin_dispatch bid ex now s =
     (let w = cap_worker (exec_capability ex);
          boot = (case map_of (im_workers s) w of None \<Rightarrow> Id 0 | Some rec \<Rightarrow> wk_boot rec)
      in emit ET_dispatch null_id bid null_id null_id ''dispatch'' (mark_dispatched bid w boot now s))"

definition do_dispatch_and_run :: "BatchId \<Rightarrow> IExecutor \<Rightarrow> TimePoint \<Rightarrow> Impl \<Rightarrow>
    (BatchId Result \<times> Impl) option" where
  "do_dispatch_and_run bid ex now s =
     (case find_batch s bid of
        None \<Rightarrow> Some (Result_err EC_not_found ''batch not found'', s)
      | Some b \<Rightarrow>
          if bat_state b \<noteq> BS_sealed then Some (Result_err EC_invalid_state ''batch not sealed'', s)
          else
            (let s = begin_dispatch bid ex now s;
                 result = exec_execute ex (build_execution s (at_batch s bid));
                 s = mark_running bid s
             in case result of
                  Inl e \<Rightarrow> map_option (\<lambda>s. (Result_err (err_code e) (''executor failed: '' @ err_message e), s))
                      (fail_members e now (bat_members (at_batch s bid)) s)
                | Inr results \<Rightarrow>
                    (let (cret, s) = do_complete (run_completion (at_batch s bid) results) now s
                     in Some (case cret of
                          Inl e \<Rightarrow> (Result_err (err_code e) (err_message e), s)
                        | Inr _ \<Rightarrow> (Inr (bat_id (at_batch s bid)), s)))))"

definition do_prepare_dispatch :: "BatchId \<Rightarrow> WorkerId \<Rightarrow> WorkerBootId \<Rightarrow> TimePoint \<Rightarrow> Impl \<Rightarrow>
    BatchExecution Result \<times> Impl" where
  "do_prepare_dispatch bid w boot now s =
     (case find_batch s bid of
        None \<Rightarrow> (Result_err EC_not_found ''batch not found'', s)
      | Some b \<Rightarrow>
          if bat_state b \<noteq> BS_sealed then (Result_err EC_invalid_state ''batch not sealed'', s)
          else if \<not> worker_current s w boot then (Result_err EC_stale_worker ''worker not current'', s)
          else
            (let s = mark_dispatched bid w boot now s;
                 exec = build_execution s (at_batch s bid)
             in (Inr exec, emit ET_dispatch null_id (bat_id (at_batch s bid)) null_id null_id ''dispatch'' s)))"

section \<open>The public methods\<close>

definition register_worker :: "WorkerId \<Rightarrow> WorkerBootId \<Rightarrow> ExecutorCapability \<Rightarrow> Impl \<Rightarrow> unit Result \<times> Impl" where
  "register_worker w boot cap s =
     (let rec = std_at default_worker w (im_workers s);
          s = s\<lparr>im_workers := std_insert w (rec\<lparr>wk_cap := cap, wk_boot := boot, wk_live := True\<rparr>)
                (im_workers s)\<rparr>
      in (Inr (), flush (emit ET_worker_up null_id null_id null_id null_id ''worker up'' s)))"

definition submit :: "RequestMetadata \<Rightarrow> TimePoint \<Rightarrow> Impl \<Rightarrow> SubmitOutcome Result \<times> Impl" where
  "submit meta now s = map_prod id flush (do_submit meta (resolve_now s now) s)"

definition cancel :: "RequestId \<Rightarrow> CancellationReason \<Rightarrow> TimePoint \<Rightarrow> Impl \<Rightarrow> unit Result \<times> Impl" where
  "cancel i reason now s = map_prod id flush (do_cancel i reason (resolve_now s now) s)"

definition complete :: "BatchCompletion \<Rightarrow> TimePoint \<Rightarrow> Impl \<Rightarrow> unit Result \<times> Impl" where
  "complete cmp now s = map_prod id flush (do_complete cmp (resolve_now s now) s)"

definition seal :: "BatchId \<Rightarrow> SealReason \<Rightarrow> TimePoint \<Rightarrow> Impl \<Rightarrow> unit Result \<times> Impl" where
  "seal bid reason now s =
     (let (ok, s) = (case find_batch s bid of
            None \<Rightarrow> (False, s)
          | Some b \<Rightarrow> if bat_state b = BS_forming then do_seal bid reason (resolve_now s now) s
                      else (False, s))
      in (if ok then Inr () else Result_err EC_invalid_state ''batch not forming or not found'', flush s))"

definition split :: "BatchId \<Rightarrow> SplitReason \<Rightarrow> TimePoint \<Rightarrow> Impl \<Rightarrow> BatchId Result \<times> Impl" where
  "split bid reason now s =
     (let (child, s) = do_split bid reason s
      in (if is_null child then Result_err EC_split_required ''split not possible'' else Inr child, flush s))"

definition merge :: "BatchId \<Rightarrow> BatchId \<Rightarrow> MergeReason \<Rightarrow> TimePoint \<Rightarrow> Impl \<Rightarrow> (BatchId Result \<times> Impl) option" where
  "merge a b reason now s = map_option (\<lambda>(merged, s).
     (if is_null merged then Result_err EC_merge_rejected ''merge not valid'' else Inr merged, flush s))
     (do_merge a b s)"

definition retry :: "Platform \<Rightarrow> RequestId \<Rightarrow> TimePoint \<Rightarrow> Impl \<Rightarrow> (AttemptId Result \<times> Impl) option" where
  "retry P i now s = map_option (map_prod id flush) (do_retry P i (resolve_now s now) s)"

text \<open>The fields of \<open>FormationReport\<close> that the tick fills in.\<close>

record FormationReport =
  rep_sealed_batches :: "BatchId list"
  rep_forming :: nat

definition tick :: "Platform \<Rightarrow> TimePoint \<Rightarrow> Impl \<Rightarrow> (FormationReport \<times> Impl) option" where
  "tick P now s =
     (let sealed_before = im_sealed_order s
      in map_option (\<lambda>s. (\<lparr>rep_sealed_batches = filter (\<lambda>b. b \<notin> set sealed_before) (im_sealed_order s),
           rep_forming = length (im_forming s)\<rparr>, flush s)) (do_tick P (resolve_now s now) s))"

definition dispatch_and_run :: "BatchId \<Rightarrow> IExecutor \<Rightarrow> TimePoint \<Rightarrow> Impl \<Rightarrow> (BatchId Result \<times> Impl) option" where
  "dispatch_and_run bid ex now s =
     map_option (map_prod id flush) (do_dispatch_and_run bid ex (resolve_now s now) s)"

definition prepare_dispatch :: "BatchId \<Rightarrow> WorkerId \<Rightarrow> WorkerBootId \<Rightarrow> TimePoint \<Rightarrow> Impl \<Rightarrow>
    BatchExecution Result \<times> Impl" where
  "prepare_dispatch bid w boot now s =
     map_prod id flush (do_prepare_dispatch bid w boot (resolve_now s now) s)"

definition expire :: "Platform \<Rightarrow> TimePoint \<Rightarrow> Impl \<Rightarrow> Impl" where
  "expire P now s = flush (expire_locked P (resolve_now s now) s)"

definition roll_epoch :: "Impl \<Rightarrow> Impl" where
  "roll_epoch s =
     (let s = s\<lparr>im_epoch := Id (id_value (im_epoch s) + 1)\<rparr>
      in flush (emit ET_epoch_roll null_id null_id null_id null_id ''epoch roll'' s))"

end
