(* ===== verification/Sched_Inv.thy ===== *)
theory Sched_Inv
  imports Sched_Api
begin

text \<open>
  The structural invariant of the scheduler. It needs nothing of the callers: it survives every
  public method in every order, with any completion reports and any executor, as long as the
  64-bit id counters have not run through all their values.
\<close>

section \<open>Fresh ids\<close>

text \<open>
  The ids in use are exactly those the counter has handed out. While some id is unused, the next
  one is fresh and the counter does not wrap.
\<close>

definition dense :: "u64 \<Rightarrow> 'k Id set \<Rightarrow> bool" where
  "dense n D \<longleftrightarrow> n \<noteq> 0 \<and> (\<forall>v. Id v \<in> D \<longleftrightarrow> 0 < v \<and> v < n)"

definition unused :: "'k Id set \<Rightarrow> bool" where
  "unused D \<longleftrightarrow> (\<exists>v. v \<noteq> 0 \<and> Id v \<notin> D)"

lemma dense_fresh: "dense n D \<Longrightarrow> Id n \<notin> D"
  by (simp add: dense_def)

lemma unused_mono: "unused D' \<Longrightarrow> D \<subseteq> D' \<Longrightarrow> unused D"
  by (auto simp: unused_def)

lemma dense_insert:
  assumes "dense n D" and "unused (insert (Id n) D)"
  shows "dense (n + 1) (insert (Id n) D)"
proof -
  obtain v where v: "v \<noteq> 0" "v \<noteq> n" "\<not> v < n"
    using assms by (auto simp: unused_def dense_def word_gt_0)
  have "n + 1 \<noteq> 0"
  proof
    assume "n + 1 = 0"
    then have "n = - 1" by (simp add: eq_neg_iff_add_eq_0)
    then have "v \<le> n" by simp
    with v show False by simp
  qed
  moreover have "w < n + 1 \<longleftrightarrow> w < n \<or> w = n" for w
    using \<open>n + 1 \<noteq> 0\<close> by unat_arith
  ultimately show ?thesis
    using assms(1) by (auto simp: dense_def word_gt_0)
qed

definition spare :: "Impl \<Rightarrow> bool" where
  "spare s \<longleftrightarrow> unused (dom (find_request s)) \<and> unused (dom (find_batch s)) \<and>
     unused (dom (find_attempt s))"

text \<open>No operation forgets a record.\<close>

definition grows :: "Impl \<Rightarrow> Impl \<Rightarrow> bool" where
  "grows s s' \<longleftrightarrow> dom (find_request s) \<subseteq> dom (find_request s') \<and>
     dom (find_batch s) \<subseteq> dom (find_batch s') \<and> dom (find_attempt s) \<subseteq> dom (find_attempt s')"

lemma grows_refl [simp]: "grows s s"
  by (simp add: grows_def)

lemma grows_trans: "grows s t \<Longrightarrow> grows t u \<Longrightarrow> grows s u"
  unfolding grows_def by (meson subset_trans)

lemma spare_grows: "spare s' \<Longrightarrow> grows s s' \<Longrightarrow> spare s"
  unfolding spare_def grows_def by (meson unused_mono)

section \<open>The invariant\<close>

definition req_inv :: "Impl \<Rightarrow> bool" where
  "req_inv s \<longleftrightarrow> (\<forall>i r. find_request s i = Some r \<longrightarrow> req_id r = i \<and>
     req_key r = CompatibilityKey_build (m_descriptor (req_meta r)) \<and>
     req_current_attempt r \<in> dom (find_attempt s))"

text \<open>A request with the given key.\<close>

definition has_key :: "Impl \<Rightarrow> CompatibilityKey \<Rightarrow> RequestId \<Rightarrow> bool" where
  "has_key s k i \<longleftrightarrow> (\<exists>r. find_request s i = Some r \<and> req_key r = k)"

definition bat_inv :: "Impl \<Rightarrow> bool" where
  "bat_inv s \<longleftrightarrow> (\<forall>b x. find_batch s b = Some x \<longrightarrow> bat_id x = b \<and>
     (\<forall>m \<in> set (bat_members x). has_key s (bat_key x) m))"

definition idx_inv :: "Impl \<Rightarrow> bool" where
  "idx_inv s \<longleftrightarrow> index_ok (im_waiting s) \<and>
     (\<forall>k. \<forall>i \<in> set (index_ids (im_waiting s) k). has_key s k i)"

definition fillable :: "BatchState \<Rightarrow> bool" where
  "fillable st \<longleftrightarrow> st = BS_forming \<or> st = BS_partially_completed"

definition form_inv :: "Impl \<Rightarrow> bool" where
  "form_inv s \<longleftrightarrow> (\<forall>k b. map_of (im_forming s) k = Some b \<longrightarrow>
     (\<exists>x. find_batch s b = Some x \<and> bat_key x = k \<and> fillable (bat_state x)))"

definition ord_inv :: "Impl \<Rightarrow> bool" where
  "ord_inv s \<longleftrightarrow> distinct (im_sealed_order s) \<and>
     (\<forall>b \<in> set (im_sealed_order s). \<exists>x. find_batch s b = Some x \<and> bat_state x \<noteq> BS_forming)"

definition ids_inv :: "Impl \<Rightarrow> bool" where
  "ids_inv s \<longleftrightarrow> dense (im_next_request s) (dom (find_request s)) \<and>
     dense (im_next_batch s) (dom (find_batch s)) \<and> dense (im_next_attempt s) (dom (find_attempt s))"

definition struct_inv :: "Impl \<Rightarrow> bool" where
  "struct_inv s \<longleftrightarrow> ids_inv s \<and> req_inv s \<and> bat_inv s \<and> idx_inv s \<and> form_inv s \<and> ord_inv s"

lemmas inv_defs = struct_inv_def ids_inv_def req_inv_def bat_inv_def idx_inv_def form_inv_def
  ord_inv_def has_key_def

section \<open>Assignments that keep it\<close>

named_theorems keep \<comment> \<open>the structural invariant after an assignment\<close>

text \<open>What an assignment to a record may change.\<close>

definition same_request :: "RequestRec \<Rightarrow> RequestRec \<Rightarrow> bool" where
  "same_request r r' \<longleftrightarrow> req_id r' = req_id r \<and> req_key r' = req_key r \<and> req_meta r' = req_meta r"

lemma dom_map_option_upd [simp]: "dom (\<lambda>j. if j = i then map_option f (m i) else m j) = dom m"
  by (auto simp: dom_def)

lemma dom_if_Some [simp]: "dom (\<lambda>j. if j = i then Some x else m j) = insert i (dom m)"
  by (auto simp: dom_def)

lemma dom_find_upd [simp]:
  "dom (find_request (upd_request i f s)) = dom (find_request s)"
  "dom (find_batch (upd_batch b g s)) = dom (find_batch s)"
  "dom (find_attempt (upd_attempt a h s)) = dom (find_attempt s)"
  by (auto simp: dom_def)

lemma dom_find_loops [simp]:
  "dom (find_batch (recompute b s)) = dom (find_batch s)"
  "dom (find_request (assign_batch b ms s)) = dom (find_request s)"
  "dom (find_request (advance_members st st' ms s)) = dom (find_request s)"
  by (auto simp: dom_def split: if_splits)

lemma dom_find_put [simp]:
  "dom (find_request (put_request i r s)) = insert i (dom (find_request s))"
  "dom (find_batch (put_batch b x s)) = insert b (dom (find_batch s))"
  "dom (find_attempt (put_attempt a y s)) = insert a (dom (find_attempt s))"
  by (auto simp: dom_def)

lemma has_key_frame [simp]:
  "has_key (upd_batch b g s) = has_key s"
  "has_key (upd_attempt a h s) = has_key s"
  "has_key (put_batch b x s) = has_key s"
  "has_key (put_attempt a y s) = has_key s"
  "has_key (inc k s) = has_key s"
  "has_key (emit ty rr bb aa t d s) = has_key s"
  "has_key (flush s) = has_key s"
  "has_key (set_forming k' b s) = has_key s"
  "has_key (set_waiting w s) = has_key s"
  "has_key (set_fairness q s) = has_key s"
  "has_key (dec_forming_now s) = has_key s"
  by (simp_all add: has_key_def fun_eq_iff)

lemma has_key_map: "has_key s k i \<longleftrightarrow> map_option req_key (find_request s i) = Some k"
  by (auto simp: has_key_def)

lemma has_key_cong:
  assumes "\<And>i. map_option req_key (find_request t i) = map_option req_key (find_request s i)"
  shows "has_key t = has_key s"
  unfolding has_key_map fun_eq_iff by (auto simp only: assms)

lemma has_key_loops [simp]:
  "has_key (recompute b s) = has_key s"
  "has_key (assign_batch b ms s) = has_key s"
  "has_key (advance_members st st' ms s) = has_key s"
  "has_key (s\<lparr>im_next_batch := n\<rparr>) = has_key s"
  "has_key (s\<lparr>im_sealed_order := ord\<rparr>) = has_key s"
  by (rule has_key_cong, auto simp: option.map_comp intro!: option.map_cong0)+

lemma has_key_upd_request:
  "(\<And>r. same_request r (f r)) \<Longrightarrow> has_key (upd_request i f s) = has_key s"
  by (auto simp: has_key_def same_request_def fun_eq_iff)

lemma has_key_put_request:
  "find_request s i = None \<Longrightarrow> has_key s k j \<Longrightarrow> has_key (put_request i r s) k j"
  by (auto simp: has_key_def)

lemma keep_upd_request [keep]:
  assumes "struct_inv s" and same: "\<And>r. same_request r (f r)"
    and att: "\<And>r. find_request s i = Some r \<Longrightarrow> req_current_attempt (f r) \<in> dom (find_attempt s)"
  shows "struct_inv (upd_request i f s)"
proof -
  have "req_inv (upd_request i f s)"
    using assms by (auto simp: struct_inv_def req_inv_def same_request_def)
  then show ?thesis
    using assms(1) has_key_upd_request [OF same]
    by (simp add: struct_inv_def ids_inv_def bat_inv_def idx_inv_def form_inv_def ord_inv_def)
qed

lemma keep_upd_attempt [keep]: "struct_inv s \<Longrightarrow> struct_inv (upd_attempt a f s)"
  by (simp add: struct_inv_def ids_inv_def req_inv_def bat_inv_def idx_inv_def form_inv_def ord_inv_def)

lemma keep_frame [keep]:
  "struct_inv s \<Longrightarrow> struct_inv (inc k s)"
  "struct_inv s \<Longrightarrow> struct_inv (emit ty rr bb aa t d s)"
  "struct_inv s \<Longrightarrow> struct_inv (flush s)"
  "struct_inv s \<Longrightarrow> struct_inv (set_fairness q s)"
  "struct_inv s \<Longrightarrow> struct_inv (dec_forming_now s)"
  by (simp_all add: struct_inv_def ids_inv_def req_inv_def bat_inv_def idx_inv_def form_inv_def ord_inv_def)

lemma keep_fields [keep]:
  "struct_inv s \<Longrightarrow> struct_inv (s\<lparr>im_stats := st\<rparr>)"
  "struct_inv s \<Longrightarrow> struct_inv (s\<lparr>im_workers := ws\<rparr>)"
  "struct_inv s \<Longrightarrow> struct_inv (s\<lparr>im_epoch := ep\<rparr>)"
  "struct_inv s \<Longrightarrow> struct_inv (s\<lparr>im_clock_now := clk\<rparr>)"
  by (simp_all add: inv_defs)

text \<open>
  An assignment to a batch: the id and key stay, the members have the key, a batch that is being
  filled is not closed, and none goes back to forming.
\<close>

lemma keep_upd_batch [keep]:
  assumes "struct_inv s"
    and "\<And>x. find_batch s b = Some x \<Longrightarrow> bat_id (f x) = bat_id x \<and> bat_key (f x) = bat_key x \<and>
      (\<forall>m \<in> set (bat_members (f x)). has_key s (bat_key x) m) \<and>
      (bat_state (f x) = bat_state x \<or>
       bat_state (f x) \<noteq> BS_forming \<and> map_of (im_forming s) (bat_key x) \<noteq> Some b)"
  shows "struct_inv (upd_batch b f s)"
  using assms
  by (auto simp: struct_inv_def ids_inv_def req_inv_def bat_inv_def idx_inv_def form_inv_def ord_inv_def)
    (metis | blast)+

lemma keep_put_attempt [keep]:
  assumes "struct_inv s" and "aid = Id (im_next_attempt s)" and "n = im_next_attempt s + 1"
    and "unused (insert aid (dom (find_attempt s)))"
  shows "struct_inv (put_attempt aid a (s\<lparr>im_next_attempt := n\<rparr>))"
  using assms
  by (auto simp: inv_defs dense_insert dense_fresh)

lemma keep_put_batch [keep]:
  assumes "struct_inv s" and "bid = Id (im_next_batch s)" and "n = im_next_batch s + 1"
    and "unused (insert bid (dom (find_batch s)))"
    and "bat_id x = bid" and "\<forall>m \<in> set (bat_members x). has_key s (bat_key x) m"
  shows "struct_inv (put_batch bid x (s\<lparr>im_next_batch := n\<rparr>))"
proof -
  have "find_batch s bid = None"
    using assms(1,2) dense_fresh by (fastforce simp: struct_inv_def ids_inv_def)
  then show ?thesis
    using assms
    by (auto simp: struct_inv_def ids_inv_def req_inv_def bat_inv_def idx_inv_def form_inv_def
        ord_inv_def dense_insert has_key_def) fastforce+
qed

lemma keep_index_add [keep]:
  "struct_inv s \<Longrightarrow> has_key s k i \<Longrightarrow> struct_inv (set_waiting (index_add k i) s)"
  by (auto simp: struct_inv_def ids_inv_def req_inv_def bat_inv_def idx_inv_def form_inv_def
      ord_inv_def widx.ok_add widx.in_ids_add)

lemma keep_index_remove [keep]:
  "struct_inv s \<Longrightarrow> struct_inv (set_waiting (index_remove k i) s)"
  by (auto simp: struct_inv_def ids_inv_def req_inv_def bat_inv_def idx_inv_def form_inv_def
      ord_inv_def widx.ok_remove dest: widx.in_ids_removeD)

lemma keep_set_forming [keep]:
  "struct_inv s \<Longrightarrow> find_batch s b = Some x \<Longrightarrow> bat_key x = k \<Longrightarrow> fillable (bat_state x) \<Longrightarrow>
     struct_inv (set_forming k b s)"
  by (auto simp: struct_inv_def ids_inv_def req_inv_def bat_inv_def idx_inv_def form_inv_def
      ord_inv_def map_of_std_insert)

section \<open>Records are never forgotten\<close>

named_theorems grow \<comment> \<open>no operation forgets a record\<close>

lemma grow_prims [grow]:
  "grows s t \<Longrightarrow> grows s (upd_request i f t)"
  "grows s t \<Longrightarrow> grows s (upd_batch b g t)"
  "grows s t \<Longrightarrow> grows s (upd_attempt a h t)"
  "grows s t \<Longrightarrow> grows s (put_request i r t)"
  "grows s t \<Longrightarrow> grows s (put_batch b x t)"
  "grows s t \<Longrightarrow> grows s (put_attempt a y t)"
  "grows s t \<Longrightarrow> grows s (inc k t)"
  "grows s t \<Longrightarrow> grows s (emit ty rr bb aa tn d t)"
  "grows s t \<Longrightarrow> grows s (flush t)"
  "grows s t \<Longrightarrow> grows s (set_forming ky b t)"
  "grows s t \<Longrightarrow> grows s (set_waiting w t)"
  "grows s t \<Longrightarrow> grows s (set_fairness q t)"
  "grows s t \<Longrightarrow> grows s (dec_forming_now t)"
  unfolding grows_def by (simp_all del: find_upd find_put) blast+

lemma grow_fields [grow]:
  "grows s t \<Longrightarrow> grows s (t\<lparr>im_next_request := n\<rparr>)"
  "grows s t \<Longrightarrow> grows s (t\<lparr>im_next_batch := n\<rparr>)"
  "grows s t \<Longrightarrow> grows s (t\<lparr>im_next_attempt := n\<rparr>)"
  "grows s t \<Longrightarrow> grows s (t\<lparr>im_next_generation := n\<rparr>)"
  "grows s t \<Longrightarrow> grows s (t\<lparr>im_sealed_order := ord\<rparr>)"
  "grows s t \<Longrightarrow> grows s (t\<lparr>im_forming := fm\<rparr>)"
  "grows s t \<Longrightarrow> grows s (t\<lparr>im_stats := st\<rparr>)"
  "grows s t \<Longrightarrow> grows s (t\<lparr>im_workers := ws\<rparr>)"
  "grows s t \<Longrightarrow> grows s (t\<lparr>im_epoch := ep\<rparr>)"
  "grows s t \<Longrightarrow> grows s (t\<lparr>im_clock_now := clk\<rparr>)"
  by (simp_all add: grows_def)

lemma grow_fold:
  assumes "\<And>x s. grows s (f x s)"
  shows "grows s (fold f xs s)"
  by (induction xs arbitrary: s) (auto intro: grows_trans assms)

lemma grow_upd_requests [grow]: "grows s t \<Longrightarrow> grows s (upd_requests ms f t)"
  unfolding upd_requests_def
  by (rule grows_trans [where t = t]) (auto intro!: grow_fold grow)

lemma grow_assign [grow]: "grows s t \<Longrightarrow> grows s (assign_batch b ms t)"
  by (simp add: assign_batch_def grow)

lemma grow_recompute [grow]: "grows s t \<Longrightarrow> grows s (recompute b t)"
  by (auto simp: recompute_def intro: grow)

lemma grow_advance [grow]: "grows s t \<Longrightarrow> grows s (advance_members st st' ms t)"
  by (simp add: advance_members_def grow)

lemma grow_submit: "grows s (snd (do_submit meta now s))"
  by (auto simp: do_submit_def nr_def na_def Let_def intro!: grow)

lemma grow_add_member [grow]: "grows s t \<Longrightarrow> grows s (add_member_to_batch b i t)"
  by (auto simp: add_member_to_batch_def intro!: grow split: option.split)

lemma grow_fill_loop: "grows s (fill_loop P b k now cs s)"
  by (rule fill_loop_rule [where I = "\<lambda>_. grows s"]) (auto intro!: grow)

lemma grow_fill: "grows s (fill_forming P b k now s)"
  by (simp add: fill_forming_def grow_fill_loop split: option.split)

lemma grow_make_forming: "grows s (make_forming P k now s)"
  unfolding make_forming_def open_forming_def settle_forming_def nb_def ng_def Let_def prod.case
  by (intro grow grows_trans [OF _ grow_fill] grows_refl)

lemma grow_seal: "grows s (snd (do_seal b reason now s))"
  by (auto simp: do_seal_def Let_def intro!: grow split: option.split)

lemma grow_split: "grows s (snd (do_split b reason s))"
  by (auto simp: do_split_def split_child_def split_resealed_def nb_def Let_def intro!: grow
      split: option.split)

lemma grow_merge: "do_merge a b s = Some (c, s') \<Longrightarrow> grows s s'"
  by (auto simp: do_merge_def Let_def intro!: grow split: option.splits if_splits)

lemma grow_terminal [grow]: "grows s t \<Longrightarrow> grows s (complete_request_terminal i oc st now t)"
  by (auto simp: complete_request_terminal_def Let_def intro!: grow split: option.split)

lemma grow_cancel: "grows s (snd (do_cancel i reason now s))"
  by (auto simp: do_cancel_def remove_member_def Let_def intro!: grow split: option.split)

lemma grow_expire: "grows s (expire_locked P now s)"
proof -
  have "grows s (expire_waiting now i s)" "grows s (expire_member now i s)" for i s
    by (auto simp: expire_waiting_def expire_member_def intro!: grow grow_cancel split: option.split)
  then show ?thesis
    unfolding expire_locked_def Let_def by (intro grows_trans [OF grow_fold grow_fold])
qed

lemma grow_outcome [grow]:
  "grows s t \<Longrightarrow> grows s (apply_member_outcome i r aid a mc now t)"
  by (auto simp: apply_member_outcome_def apply_success_def apply_failure_def apply_terminal_def
      requeue_def record_outcome_def record_result_def set_state_def na_def Let_def
      intro!: grow split: CompletionStatus.split)

lemma grow_complete: "grows s (snd (do_complete cmp now s))"
proof -
  have m: "grows s (complete_member b now mc s)" for b mc s
    by (auto simp: complete_member_def intro!: grow split: option.split)
  show ?thesis
    by (auto simp: do_complete_def close_batch_def Let_def
        intro!: grow grows_trans [OF _ grow_fold] m split: option.split)
qed

end
