(* ===== verification/Sched_Keep.thy ===== *)
theory Sched_Keep
  imports Sched_Inv
begin

text \<open>
  Every handler of the scheduler keeps the structural invariant: formation, sealing, splitting,
  merging, cancellation, expiry, the tick, retry, completion and dispatch. The tick and the
  dispatch are shown to return in every state that satisfies the invariant: no handler reaches
  the undefined cases of the model.
\<close>

section \<open>Operations keep the invariant\<close>

lemma recompute_accum_fields [simp]:
  "bat_id (recompute_accum s x) = bat_id x" "bat_key (recompute_accum s x) = bat_key x"
  "bat_members (recompute_accum s x) = bat_members x" "bat_state (recompute_accum s x) = bat_state x"
  "bat_generation (recompute_accum s x) = bat_generation x"
  "bat_epoch (recompute_accum s x) = bat_epoch x" "bat_phase (recompute_accum s x) = bat_phase x"
  by (simp_all add: recompute_accum_def Let_def split: option.split)

lemma join_batch_fields [simp]:
  "bat_id (join_batch i r x) = bat_id x" "bat_key (join_batch i r x) = bat_key x"
  "bat_members (join_batch i r x) = bat_members x @ [i]" "bat_state (join_batch i r x) = bat_state x"
  by (simp_all add: join_batch_def Let_def)

lemma copy_lineage_fields [simp]:
  "bat_id (copy_lineage x c) = bat_id c" "bat_key (copy_lineage x c) = bat_key x"
  "bat_members (copy_lineage x c) = bat_members c" "bat_state (copy_lineage x c) = bat_state c"
  by (simp_all add: copy_lineage_def)

lemma default_batch_fields [simp]:
  "bat_members default_batch = []" "bat_state default_batch = BS_forming"
  "bat_accum default_batch = empty_accum"
  by (simp_all add: default_batch_def)

lemma struct_members: "struct_inv s \<Longrightarrow> find_batch s b = Some x \<Longrightarrow> m \<in> set (bat_members x) \<Longrightarrow>
    has_key s (bat_key x) m"
  by (simp add: struct_inv_def bat_inv_def)

lemma struct_bat_id: "struct_inv s \<Longrightarrow> find_batch s b = Some x \<Longrightarrow> bat_id x = b"
  by (simp add: struct_inv_def bat_inv_def)

lemma struct_req_id: "struct_inv s \<Longrightarrow> find_request s i = Some r \<Longrightarrow> req_id r = i"
  by (simp add: struct_inv_def req_inv_def)

lemma struct_attempt: "struct_inv s \<Longrightarrow> find_request s i = Some r \<Longrightarrow>
    req_current_attempt r \<in> dom (find_attempt s)"
  by (simp add: struct_inv_def req_inv_def)

lemma struct_waiting: "struct_inv s \<Longrightarrow> i \<in> set (index_ids (im_waiting s) k) \<Longrightarrow> has_key s k i"
  by (simp add: struct_inv_def idx_inv_def)

lemma struct_forming: "struct_inv s \<Longrightarrow> map_of (im_forming s) k = Some b \<Longrightarrow>
    \<exists>x. find_batch s b = Some x \<and> bat_key x = k \<and> fillable (bat_state x)"
  by (simp add: struct_inv_def form_inv_def)

lemma struct_fresh_request: "struct_inv s \<Longrightarrow> find_request s (Id (im_next_request s)) = None"
  by (auto simp: inv_defs dense_def dom_def)

lemma struct_fresh_batch: "struct_inv s \<Longrightarrow> find_batch s (Id (im_next_batch s)) = None"
  using dense_fresh by (fastforce simp: struct_inv_def ids_inv_def)

text \<open>Assignments to a batch that leave its id, key, members and state.\<close>

lemma keep_upd_batch_same:
  assumes "struct_inv s" and "\<And>x. bat_id (f x) = bat_id x \<and> bat_key (f x) = bat_key x \<and>
    bat_members (f x) = bat_members x \<and> bat_state (f x) = bat_state x"
  shows "struct_inv (upd_batch b f s)"
  using assms by (intro keep_upd_batch) (auto dest: struct_members)

lemma keep_recompute [keep]: "struct_inv s \<Longrightarrow> struct_inv (recompute b s)"
  unfolding recompute_def by (rule keep_upd_batch_same) simp_all

lemma keep_upd_requests:
  assumes "struct_inv s" and "\<And>r. same_request r (f r)"
    and "\<And>r. req_current_attempt (f r) = req_current_attempt r"
  shows "struct_inv (upd_requests ms f s)"
  unfolding upd_requests_def
proof (rule fold_invariant_on [where P = struct_inv])
  fix m t
  assume "struct_inv t"
  then show "struct_inv (upd_request m f t)"
    using struct_attempt [of t m] by (intro keep_upd_request [OF _ assms(2)]) (auto simp: assms(3))
qed (rule assms(1))

lemma keep_assign [keep]: "struct_inv s \<Longrightarrow> struct_inv (assign_batch b ms s)"
  unfolding assign_batch_def by (rule keep_upd_requests) (simp_all add: same_request_def)

lemma keep_advance [keep]: "struct_inv s \<Longrightarrow> struct_inv (advance_members st st' ms s)"
  unfolding advance_members_def by (rule keep_upd_requests) (simp_all add: same_request_def)

lemma keep_new_request:
  assumes "struct_inv s" and "rid = Id (im_next_request s)" and "aid = Id (im_next_attempt s)"
    and "unused (insert rid (dom (find_request s)))" and "unused (insert aid (dom (find_attempt s)))"
    and "req_id r = rid" and "req_current_attempt r = aid"
    and "req_key r = CompatibilityKey_build (m_descriptor (req_meta r))"
  shows "struct_inv (put_attempt aid a (put_request rid r
    (s\<lparr>im_next_request := im_next_request s + 1, im_next_attempt := im_next_attempt s + 1\<rparr>)))"
    (is "struct_inv ?s")
proof -
  have new: "find_request s rid = None"
    using assms(1,2) dense_fresh by (fastforce simp: struct_inv_def ids_inv_def)
  have key: "has_key s k i \<Longrightarrow> has_key ?s k i" for k i
    using new by (auto simp: has_key_def)
  have "ids_inv ?s"
    using assms(1-5) by (simp add: struct_inv_def ids_inv_def dense_insert)
  moreover have "req_inv ?s"
    using assms(1,6-8) by (auto simp: struct_inv_def req_inv_def)
  moreover have "bat_inv ?s" "idx_inv ?s" "form_inv ?s" "ord_inv ?s"
    using assms(1) key by (simp_all add: struct_inv_def bat_inv_def idx_inv_def form_inv_def ord_inv_def)
  ultimately show ?thesis by (simp add: struct_inv_def)
qed

lemma keep_submit:
  assumes "struct_inv s" and "spare (snd (do_submit meta now s))"
  shows "struct_inv (snd (do_submit meta now s))"
  using assms
  by (auto simp: do_submit_def nr_def na_def Let_def spare_def has_key_def
      intro!: keep_new_request keep_frame keep_index_add split: if_splits)

lemma find_add_member:
  "find_batch (add_member_to_batch b i s) c = (case find_request s i of
      None \<Rightarrow> find_batch s c
    | Some r \<Rightarrow> if c = b then map_option (join_batch i r) (find_batch s b) else find_batch s c)"
  "find_request (add_member_to_batch b i s) j = (if j = i
      then map_option (\<lambda>r. r\<lparr>req_state := RS_reserved, req_batch := bat_id (at_batch s b),
        req_in_waiting := False\<rparr>) (find_request s i) else find_request s j)"
  "find_attempt (add_member_to_batch b i s) = find_attempt s"
  "im_forming (add_member_to_batch b i s) = im_forming s"
  "im_waiting (add_member_to_batch b i s) = im_waiting s"
  "im_sealed_order (add_member_to_batch b i s) = im_sealed_order s"
  "im_policy (add_member_to_batch b i s) = im_policy s"
  by (auto simp: add_member_to_batch_def split: option.split)

lemma has_key_add_member [simp]: "has_key (add_member_to_batch b i s) = has_key s"
  by (auto simp: has_key_def find_add_member fun_eq_iff)

lemma keep_add_member:
  assumes "struct_inv s" and "find_batch s b = Some x" and "has_key s (bat_key x) i"
  shows "struct_inv (add_member_to_batch b i s)"
  using assms
  by (auto simp: add_member_to_batch_def same_request_def struct_attempt
      intro!: keep_frame keep_upd_request keep_upd_batch dest: struct_members struct_attempt
      split: option.split)

lemma keep_fill_loop:
  assumes "struct_inv s" and "find_batch s b = Some x" and "\<And>i. i \<in> set cs \<Longrightarrow> has_key s (bat_key x) i"
  shows "struct_inv (fill_loop P b (bat_key x) now cs s)"
proof (rule fill_loop_rule [where I = "\<lambda>cs t. struct_inv t \<and>
    (\<exists>y. find_batch t b = Some y \<and> bat_key y = bat_key x) \<and> (\<forall>i \<in> set cs. has_key t (bat_key x) i)"])
  show "struct_inv s \<and> (\<exists>y. find_batch s b = Some y \<and> bat_key y = bat_key x) \<and>
      (\<forall>i \<in> set cs. has_key s (bat_key x) i)"
    using assms by simp
next
  fix cs t p r
  assume I: "struct_inv t \<and> (\<exists>y. find_batch t b = Some y \<and> bat_key y = bat_key x) \<and>
      (\<forall>i \<in> set cs. has_key t (bat_key x) i)" and p: "p \<in> set cs" and r: "find_request t p = Some r"
  then obtain y where y: "find_batch t b = Some y" "bat_key y = bat_key x" by blast
  have "struct_inv (add_member_to_batch b p t)"
    using I p y by (intro keep_add_member [of _ _ y]) auto
  then show "struct_inv (set_waiting (index_remove (bat_key x) p) (add_member_to_batch b p t)) \<and>
      (\<exists>y. find_batch (set_waiting (index_remove (bat_key x) p) (add_member_to_batch b p t)) b = Some y \<and>
        bat_key y = bat_key x) \<and>
      (\<forall>i \<in> set (removeAll p cs). has_key (set_waiting (index_remove (bat_key x) p)
        (add_member_to_batch b p t)) (bat_key x) i)"
    using I y r by (auto simp: find_add_member intro: keep_index_remove)
qed simp

lemma keep_fill:
  assumes "struct_inv s" and "find_batch s b = Some x"
  shows "struct_inv (fill_forming P b (bat_key x) now s)"
proof -
  have "has_key s (bat_key x) i" if "index_bucket (im_waiting s) (bat_key x) = Some v" "i \<in> set v" for v i
    using struct_waiting [OF assms(1), of i "bat_key x"] that by (simp add: index_ids_def)
  then show ?thesis
    using assms by (auto simp: fill_forming_def intro: keep_fill_loop split: option.split)
qed

text \<open>Filling only appends members: the batch keeps its id, key and state, the rest of the state its batches.\<close>

lemma fill_loop_frame:
  "im_forming (fill_loop P b k now cs s) = im_forming s \<and>
   im_sealed_order (fill_loop P b k now cs s) = im_sealed_order s \<and>
   im_policy (fill_loop P b k now cs s) = im_policy s \<and>
   (\<forall>c. c \<noteq> b \<longrightarrow> find_batch (fill_loop P b k now cs s) c = find_batch s c) \<and>
   rel_option (\<lambda>x y. bat_id y = bat_id x \<and> bat_key y = bat_key x \<and> bat_state y = bat_state x)
     (find_batch s b) (find_batch (fill_loop P b k now cs s) b)"
proof (rule fill_loop_rule [where I = "\<lambda>_ t. im_forming t = im_forming s \<and>
    im_sealed_order t = im_sealed_order s \<and> im_policy t = im_policy s \<and>
    (\<forall>c. c \<noteq> b \<longrightarrow> find_batch t c = find_batch s c) \<and>
    rel_option (\<lambda>x y. bat_id y = bat_id x \<and> bat_key y = bat_key x \<and> bat_state y = bat_state x)
      (find_batch s b) (find_batch t b)"], goal_cases)
  case 1
  show ?case by (simp add: option.rel_refl)
next
  case (2 cs t p r)
  then show ?case by (auto simp: find_add_member option.rel_map)
next
  case (3 cs t)
  then show ?case by simp
qed

lemma fill_frame [simp]:
  "im_forming (fill_forming P b k now s) = im_forming s"
  "im_sealed_order (fill_forming P b k now s) = im_sealed_order s"
  "im_policy (fill_forming P b k now s) = im_policy s"
  "c \<noteq> b \<Longrightarrow> find_batch (fill_forming P b k now s) c = find_batch s c"
  by (simp_all add: fill_forming_def fill_loop_frame split: option.split)

lemma fill_batch:
  "find_batch s b = Some x \<Longrightarrow> \<exists>y. find_batch (fill_forming P b k now s) b = Some y \<and>
     bat_id y = bat_id x \<and> bat_key y = bat_key x \<and> bat_state y = bat_state x"
  using fill_loop_frame [of P b k now _ s]
  by (auto simp: fill_forming_def option_rel_Some1 split: option.split)

lemma keep_settle: "struct_inv s \<Longrightarrow> struct_inv (settle_forming b now s)"
  by (auto simp: settle_forming_def Let_def intro!: keep_upd_batch_same)

lemma grow_settle [grow]: "grows s t \<Longrightarrow> grows s (settle_forming b now t)"
  by (auto simp: settle_forming_def Let_def intro!: grow)

lemma forming_record_fields [simp]:
  "bat_id (forming_record b g k now s) = b" "bat_key (forming_record b g k now s) = k"
  "bat_state (forming_record b g k now s) = BS_forming"
  "find_batch s b = None \<Longrightarrow> bat_members (forming_record b g k now s) = []"
  "find_batch s b = None \<Longrightarrow> bat_accum (forming_record b g k now s) = empty_accum"
  by (simp_all add: forming_record_def Let_def at_find split: option.split list.split)

lemma keep_open_forming:
  assumes "struct_inv s" and "spare (snd (open_forming k now s))"
  shows "struct_inv (snd (open_forming k now s))"
proof -
  let ?b = "Id (im_next_batch s)"
  let ?s0 = "s\<lparr>im_next_generation := im_next_generation s + 1\<rparr>"
  let ?x = "forming_record ?b (Id (im_next_generation s)) k now
    (?s0\<lparr>im_next_batch := im_next_batch s + 1\<rparr>)"
  have s0: "struct_inv ?s0" using assms(1) by (simp add: inv_defs)
  have "unused (insert ?b (dom (find_batch s)))"
    using assms(2) by (simp add: open_forming_def nb_def ng_def spare_def)
  then have "struct_inv (put_batch ?b ?x (?s0\<lparr>im_next_batch := im_next_batch s + 1\<rparr>))"
    using struct_fresh_batch [OF assms(1)] by (intro keep_put_batch s0) auto
  moreover have "?s0\<lparr>im_next_batch := im_next_batch s + 1\<rparr> = s\<lparr>im_next_batch := im_next_batch s + 1,
      im_next_generation := im_next_generation s + 1\<rparr>"
    by (cases s) simp
  ultimately show ?thesis
    by (auto simp: open_forming_def nb_def ng_def fillable_def intro!: keep_frame keep_set_forming)
qed

lemma open_forming_batch:
  "find_batch (snd (open_forming k now s)) (fst (open_forming k now s))
     = Some (forming_record (Id (im_next_batch s)) (Id (im_next_generation s)) k now
         (s\<lparr>im_next_batch := im_next_batch s + 1, im_next_generation := im_next_generation s + 1\<rparr>))"
  by (simp add: open_forming_def nb_def ng_def)

lemma keep_make_forming:
  assumes "struct_inv s" and "spare (make_forming P k now s)"
  shows "struct_inv (make_forming P k now s)"
proof -
  obtain b t where o: "open_forming k now s = (b, t)" by force
  have make: "make_forming P k now s = settle_forming b now (fill_forming P b k now t)"
    by (simp add: make_forming_def o)
  then have "grows t (make_forming P k now s)"
    by (simp add: grow grow_fill)
  with assms have "struct_inv t"
    using keep_open_forming [of s k now] spare_grows o by auto
  moreover obtain x where "find_batch t b = Some x" "bat_key x = k"
    using open_forming_batch [of k now s] o by simp
  ultimately show ?thesis
    using keep_fill [of t b x P now] by (simp add: make keep_settle)
qed

text \<open>Sealing: what the state looks like afterwards.\<close>

lemma seal_view:
  fixes reason :: SealReason and now :: TimePoint
  assumes "find_batch s b = Some x" and "bat_state x = BS_forming"
  defines "t \<equiv> snd (do_seal b reason now s)"
  shows "find_batch t c = (if c = b then Some (x\<lparr>bat_state := BS_sealed, bat_seal_reason := reason,
           bat_sealed_ns := now\<rparr>) else find_batch s c)"
    and "find_request t i = (if i \<in> set (bat_members x)
           then map_option (\<lambda>r. if req_state r = RS_reserved then r\<lparr>req_state := RS_batched\<rparr> else r)
             (find_request s i) else find_request s i)"
    and "find_attempt t = find_attempt s" and "im_waiting t = im_waiting s"
    and "im_forming t = std_erase (bat_key x) (im_forming s)"
    and "im_sealed_order t = im_sealed_order s @ [b]"
    and "im_next_request t = im_next_request s" "im_next_batch t = im_next_batch s"
      "im_next_attempt t = im_next_attempt s" and "im_policy t = im_policy s"
  using assms by (simp_all add: do_seal_def Let_def del: find_upd_requests_frame)

lemma seal_none: "find_batch s b = None \<or> (\<exists>x. find_batch s b = Some x \<and> bat_state x \<noteq> BS_forming) \<Longrightarrow>
    do_seal b reason now s = (False, s)"
  by (auto simp: do_seal_def)

lemma keep_seal:
  assumes inv: "struct_inv s"
  shows "struct_inv (snd (do_seal b reason now s))"
proof (cases "\<exists>x. find_batch s b = Some x \<and> bat_state x = BS_forming")
  case False
  then show ?thesis using inv seal_none [of s b reason now] by (cases "find_batch s b") auto
next
  case True
  then obtain x where x: "find_batch s b = Some x" "bat_state x = BS_forming" by blast
  let ?t = "snd (do_seal b reason now s)"
  note view = seal_view [OF x, of reason now]
  have key: "has_key ?t k i = has_key s k i" for k i
    by (cases "find_request s i") (auto simp: has_key_def view)
  have dom: "dom (find_request ?t) = dom (find_request s)" "dom (find_batch ?t) = dom (find_batch s)"
    using x by (auto simp: view dom_def split: if_splits)
  have "ids_inv ?t"
    using inv by (simp add: struct_inv_def ids_inv_def dom view(3,7,8,9))
  moreover have "req_inv ?t"
    using inv by (auto simp: struct_inv_def req_inv_def view dom_def split: if_splits)
  moreover have "bat_inv ?t"
    using inv x by (auto simp: struct_inv_def bat_inv_def key view(1) split: if_splits)
  moreover have "idx_inv ?t"
    using inv by (simp add: struct_inv_def idx_inv_def key view(4))
  moreover have "form_inv ?t"
    using inv x
    by (fastforce simp: struct_inv_def form_inv_def view(1,5) map_of_std_erase split: if_splits)
  moreover have "ord_inv ?t"
    using inv x by (auto simp: struct_inv_def ord_inv_def view(1,6) split: if_splits)
  ultimately show ?thesis by (simp add: struct_inv_def)
qed

text \<open>Splitting.\<close>

lemma grow_at: "grows s t \<Longrightarrow> find_batch s b = Some x \<Longrightarrow> find_batch t b \<noteq> None"
  unfolding grows_def by (metis domIff option.distinct(1) subsetD)

lemma split_child_fst: "fst (split_child b x s) = Id (im_next_batch s)"
  by (simp add: split_child_def nb_def Let_def)

lemma grow_split_child: "grows s (snd (split_child b x s))"
  by (auto simp: split_child_def nb_def Let_def intro!: grow)

lemma grow_resealed [grow]: "grows s t \<Longrightarrow> grows s (split_resealed b c ms reason t)"
  by (auto simp: split_resealed_def nb_def Let_def intro!: grow)

lemma keep_split_child:
  assumes inv: "struct_inv s" and x: "find_batch s b = Some x"
    and "spare (snd (split_child b x s))"
  shows "struct_inv (snd (split_child b x s))"
proof -
  let ?c = "Id (im_next_batch s)"
  let ?s0 = "s\<lparr>im_next_batch := im_next_batch s + 1\<rparr>"
  have new: "find_batch s ?c = None" by (rule struct_fresh_batch [OF inv])
  with x have ne: "b \<noteq> ?c" by auto
  have un: "unused (insert ?c (dom (find_batch s)))"
    using assms(3) by (simp add: split_child_def nb_def spare_def Let_def)
  have mem: "m \<in> set (bat_members x) \<Longrightarrow> has_key s (bat_key x) m" for m
    by (rule struct_members [OF inv x])
  show ?thesis
    unfolding split_child_def nb_def Let_def prod.case snd_conv
    using x new ne mem
    by (intro keep_recompute keep_assign keep_upd_batch keep_put_batch [OF inv refl refl un])
      (auto simp: at_find dest: in_set_takeD in_set_dropD)
qed

lemma keep_order_remove:
  assumes "struct_inv s" and "set ord \<subseteq> set (im_sealed_order s)" and "distinct ord"
  shows "struct_inv (s\<lparr>im_sealed_order := ord\<rparr>)"
  using assms by (auto simp: inv_defs)

lemma keep_order_append:
  assumes "struct_inv s" and "find_batch s b = Some x" and "bat_state x \<noteq> BS_forming"
    and "b \<notin> set (im_sealed_order s)"
  shows "struct_inv (s\<lparr>im_sealed_order := im_sealed_order s @ [b]\<rparr>)"
  using assms by (simp add: inv_defs)

lemma struct_order: "struct_inv s \<Longrightarrow> b \<in> set (im_sealed_order s) \<Longrightarrow>
    \<exists>x. find_batch s b = Some x \<and> bat_state x \<noteq> BS_forming"
  by (simp add: struct_inv_def ord_inv_def)

lemma struct_order_distinct: "struct_inv s \<Longrightarrow> distinct (im_sealed_order s)"
  by (simp add: struct_inv_def ord_inv_def)

lemma struct_not_filling:
  "struct_inv s \<Longrightarrow> find_batch s b = Some x \<Longrightarrow> \<not> fillable (bat_state x) \<Longrightarrow>
     map_of (im_forming s) k \<noteq> Some b"
  using struct_forming by fastforce

lemma keep_resealed:
  assumes inv: "struct_inv s" and x: "find_batch s b = Some x" and st: "bat_state x = BS_sealed"
    and mem: "\<forall>m \<in> set ms. has_key s (bat_key x) m" and c: "find_batch s c \<noteq> None" "c \<noteq> b"
    and sp: "spare (split_resealed b c ms reason s)"
  shows "struct_inv (split_resealed b c ms reason s)"
proof -
  let ?f = "Id (im_next_batch s)"
  define s1 where "s1 = upd_batch b (\<lambda>b. b\<lparr>bat_state := BS_superseded\<rparr>)
    (s\<lparr>im_sealed_order := remove1 b (im_sealed_order s)\<rparr>)"
  have new: "find_batch s ?f = None" by (rule struct_fresh_batch [OF inv])
  with x c have ne: "b \<noteq> ?f" "c \<noteq> ?f" by auto
  have 0: "struct_inv (s\<lparr>im_sealed_order := remove1 b (im_sealed_order s)\<rparr>)"
    using struct_order_distinct [OF inv] by (intro keep_order_remove inv) (auto dest: notin_set_remove1)
  have 1: "struct_inv s1"
    unfolding s1_def
    using x st struct_members [OF inv x] struct_not_filling [OF inv x]
    by (intro keep_upd_batch 0) (auto simp: fillable_def)
  have un: "unused (insert ?f (dom (find_batch s1)))"
    using sp by (simp add: split_resealed_def nb_def spare_def Let_def s1_def)
  have n1: "im_next_batch s1 = im_next_batch s" and key1: "has_key s1 = has_key s"
    and b1: "find_batch s1 b = Some (x\<lparr>bat_state := BS_superseded\<rparr>)" and f1: "find_batch s1 ?f = None"
    and o1: "im_sealed_order s1 = remove1 b (im_sealed_order s)"
    using x new ne by (simp_all add: s1_def)
  have fo: "?f \<notin> set (remove1 b (im_sealed_order s))"
    using struct_order [OF inv, of ?f] new by (auto dest: notin_set_remove1 set_remove1_subset [THEN subsetD])
  show ?thesis
    unfolding split_resealed_def nb_def Let_def prod.case s1_def [symmetric]
    using b1 f1 ne mem x fo
    by (intro keep_frame keep_upd_batch_same keep_order_append keep_recompute
          keep_put_batch [OF 1]) (auto simp: n1 at_find key1 o1 un intro!: un [unfolded n1])
qed

lemma split_child_view:
  assumes inv: "struct_inv s" and x: "find_batch s b = Some x"
  defines "t \<equiv> snd (split_child b x s)" and "h \<equiv> length (bat_members x) div 2"
  shows "\<exists>y. find_batch t b = Some y \<and> bat_id y = b \<and> bat_state y = bat_state x \<and> bat_key y = bat_key x \<and>
      bat_members y = take h (bat_members x)"
    and "\<exists>y. find_batch t (Id (im_next_batch s)) = Some y \<and> bat_state y = bat_state x \<and>
      bat_key y = bat_key x \<and> bat_members y = drop h (bat_members x)"
    and "c \<noteq> b \<Longrightarrow> c \<noteq> Id (im_next_batch s) \<Longrightarrow> find_batch t c = find_batch s c"
    and "im_sealed_order t = im_sealed_order s" and "im_forming t = im_forming s"
    and "im_policy t = im_policy s" and "has_key t = has_key s" and "im_waiting t = im_waiting s"
    and "im_next_batch t = im_next_batch s + 1"
  using struct_fresh_batch [OF inv] struct_bat_id [OF inv x] x
  by (auto simp: t_def h_def split_child_def nb_def Let_def at_find)

lemma keep_split:
  assumes inv: "struct_inv s" and sp: "spare (snd (do_split b reason s))"
  shows "struct_inv (snd (do_split b reason s))"
proof (cases "\<exists>x. find_batch s b = Some x \<and> bat_state x \<noteq> BS_dispatched \<and> bat_state x \<noteq> BS_running \<and>
    \<not> is_batch_terminal (bat_state x) \<and> length (bat_members x) div 2 \<noteq> 0")
  case False
  then have "snd (do_split b reason s) = s"
    by (auto simp: do_split_def split: option.split)
  with inv show ?thesis by simp
next
  case True
  then obtain x where x: "find_batch s b = Some x"
    and go: "bat_state x \<noteq> BS_dispatched \<and> bat_state x \<noteq> BS_running \<and>
      \<not> is_batch_terminal (bat_state x) \<and> length (bat_members x) div 2 \<noteq> 0" by blast
  obtain c t where t: "split_child b x s = (c, t)" by force
  note view = split_child_view [OF inv x, unfolded t snd_conv]
  obtain y where y: "find_batch t b = Some y" "bat_state y = bat_state x" "bat_key y = bat_key x"
    using view(1) by blast
  have c: "c = Id (im_next_batch s)" using split_child_fst [of b x s] by (simp add: t)
  let ?ms = "take (length (bat_members x) div 2) (bat_members x)"
  have split: "snd (do_split b reason s) = inc st_batches_split_update
     (if bat_state x = BS_sealed then split_resealed b c ?ms reason t
      else emit ET_split null_id c null_id null_id (SplitReason_to_string reason)
        (inc st_forming_now_update (set_forming (bat_key x) b t)))" (is "_ = inc _ ?u")
    using x go y by (simp add: do_split_def t at_find)
  have "spare ?u" using sp unfolding split by (rule spare_grows) (intro grow grows_refl)
  have "grows t ?u" by (auto intro!: grow)
  then have "struct_inv t"
    using keep_split_child [OF inv x] \<open>spare ?u\<close> spare_grows by (auto simp: t)
  have "struct_inv (split_resealed b c ?ms reason t)" if "bat_state x = BS_sealed"
    using \<open>struct_inv t\<close> y that \<open>spare ?u\<close> x view(2,7) struct_members [OF inv x] struct_fresh_batch [OF inv]
    by (intro keep_resealed [of t b y]) (auto simp: c dest: in_set_takeD)
  moreover have "struct_inv (set_forming (bat_key x) b t)" if "bat_state x \<noteq> BS_sealed"
    using \<open>struct_inv t\<close> y go that
    by (intro keep_set_forming [of t b y]) (cases "bat_state x"; simp add: fillable_def is_batch_terminal_def)+
  ultimately show ?thesis
    unfolding split by (auto intro!: keep_frame)
qed

section \<open>Merging\<close>

lemma can_merge_same: "can_merge p x y \<Longrightarrow> bat_key x = bat_key y \<and> bat_state x = bat_state y \<and>
    (bat_state y = BS_sealed \<or> bat_state y = BS_forming)"
  by (auto simp: can_merge_def split: if_splits)

text \<open>The order of the last assignments of a merge does not matter.\<close>

lemma merge_commute:
  "set_forming k a ((upd_batch b f t)\<lparr>im_sealed_order := ord\<rparr>)
     = (upd_batch b f (set_forming k a t))\<lparr>im_sealed_order := ord\<rparr>"
  by (cases t) (simp add: set_forming_def upd_batch_def)

lemma keep_merge:
  assumes inv: "struct_inv s" and merge: "do_merge a b s = Some (c, s')"
  shows "struct_inv s'"
proof (cases "\<exists>x y. find_batch s a = Some x \<and> find_batch s b = Some y \<and> can_merge (im_policy s) x y")
  case False
  with merge have "s' = s" by (auto simp: do_merge_def split: option.splits if_splits)
  with inv show ?thesis by simp
next
  case True
  then obtain x y where x: "find_batch s a = Some x" and y: "find_batch s b = Some y"
    and can: "can_merge (im_policy s) x y" by blast
  then have ne: "a \<noteq> b" using merge by (auto simp: do_merge_def)
  note same = can_merge_same [OF can]
  define t where "t = recompute a (upd_batch a (\<lambda>a. a\<lparr>bat_members := bat_members a @ bat_members y,
      bat_parents := bat_parents a @ bat_parents y @ [b],
      bat_children := bat_children a @ bat_children y\<rparr>) (assign_batch a (bat_members y) s))"
  have t: "struct_inv t"
    unfolding t_def using x same struct_members [OF inv x] struct_members [OF inv y]
    by (intro keep_recompute keep_upd_batch keep_assign inv) auto
  have find: "find_batch t b = Some y" "im_forming t = im_forming s"
    "im_sealed_order t = im_sealed_order s"
    "\<exists>x'. find_batch t a = Some x' \<and> bat_key x' = bat_key x \<and> bat_state x' = bat_state x"
    using x y ne by (simp_all add: t_def)
  define u where "u = (if map_of (im_forming t) (bat_key y) = Some b then set_forming (bat_key y) a t else t)"
  have u: "struct_inv u"
  proof (cases "map_of (im_forming t) (bat_key y) = Some b")
    case True
    then have "fillable (bat_state y)" using struct_forming [OF t] find(1) by fastforce
    with True find(4) same t show ?thesis by (auto simp: u_def intro: keep_set_forming)
  qed (simp add: u_def t)
  have "find_batch u b = Some y" "map_of (im_forming u) (bat_key y) \<noteq> Some b"
    using find(1) ne by (simp_all add: u_def map_of_std_insert)
  then have "struct_inv ((upd_batch b (\<lambda>b. b\<lparr>bat_state := BS_superseded\<rparr>) u)
      \<lparr>im_sealed_order := removeAll b (im_sealed_order u)\<rparr>)" (is "struct_inv ?v")
    using struct_members [OF u, of b y] struct_order_distinct [OF u]
    by (intro keep_order_remove keep_upd_batch u) (auto simp: distinct_removeAll)
  moreover have "s' = emit ET_merge null_id a null_id null_id ''merged''
      (inc st_batches_merged_update ?v)"
    using merge x y can ne
    by (auto simp: do_merge_def Let_def t_def [symmetric] u_def merge_commute find(2,3) split: if_splits)
  ultimately show ?thesis by (simp add: keep_frame)
qed

lemma merge_defined: "a \<noteq> b \<Longrightarrow> \<exists>r. do_merge a b s = Some r"
  by (auto simp: do_merge_def Let_def split: option.split)

lemma merge_neighbours_run:
  "distinct v \<Longrightarrow> \<exists>t. merge_neighbours v s = Some t \<and> grows s t \<and> (struct_inv s \<longrightarrow> struct_inv t)"
proof (induction v s rule: merge_neighbours.induct)
  case (1 x y v s)
  then obtain c u where "do_merge x y s = Some (c, u)" using merge_defined [of x y s] by auto
  then show ?case
    using 1 grow_merge [of x y s c u] keep_merge [of s x y c u]
    by (fastforce intro: grows_trans)
qed auto

lemma merge_groups_run:
  "(\<And>v. v \<in> set vs \<Longrightarrow> distinct v) \<Longrightarrow>
     \<exists>t. merge_groups vs s = Some t \<and> grows s t \<and> (struct_inv s \<longrightarrow> struct_inv t)"
proof (induction vs arbitrary: s)
  case Nil
  then show ?case by simp
next
  case (Cons v vs)
  obtain u where u: "merge_neighbours v s = Some u" "grows s u" "struct_inv s \<longrightarrow> struct_inv u"
    using merge_neighbours_run [of v s] Cons.prems by auto
  obtain t where "merge_groups vs u = Some t" "grows u t" "struct_inv u \<longrightarrow> struct_inv t"
    using Cons.IH [of u] Cons.prems by auto
  with u show ?case by (auto intro: grows_trans)
qed

text \<open>The groups of sealed batches list no batch twice, since the order of sealed batches does not.\<close>

lemma in_std_insertD: "(k', v') \<in> set (std_insert k v m) \<Longrightarrow> k' = k \<and> v' = v \<or> (k', v') \<in> set m"
  by (induction m) (auto split: if_splits)

lemma sealed_groups_distinct:
  assumes "distinct xs" and "\<And>k v. (k, v) \<in> set m \<Longrightarrow> distinct v \<and> set v \<inter> set xs = {}"
  shows "(k, v) \<in> set (fold (\<lambda>b m. case find_batch s b of None \<Rightarrow> m
      | Some x \<Rightarrow> if bat_state x = BS_sealed
          then std_insert (bat_key x) (std_at [] (bat_key x) m @ [b]) m else m) xs m) \<Longrightarrow> distinct v"
  using assms
proof (induction xs arbitrary: m)
  case Nil
  then show ?case by auto
next
  case (Cons b xs)
  have at: "distinct (std_at [] k m) \<and> set (std_at [] k m) \<inter> set (b # xs) = {}" for k
    using Cons.prems(3) [of k] by (cases "map_of m k") (auto simp: std_at_def dest: map_of_SomeD)
  show ?case
    using Cons.prems at
    by (intro Cons.IH [where m = "case find_batch s b of None \<Rightarrow> m
        | Some x \<Rightarrow> if bat_state x = BS_sealed
            then std_insert (bat_key x) (std_at [] (bat_key x) m @ [b]) m else m"])
      (fastforce dest!: in_std_insertD split: option.splits if_splits)+
qed

lemma tick_merge_run:
  assumes "struct_inv s"
  shows "\<exists>t. tick_merge s = Some t \<and> grows s t \<and> struct_inv t"
proof -
  have "distinct v" if "v \<in> set (map snd (sealed_by_key s))" for v
    using that sealed_groups_distinct [OF struct_order_distinct [OF assms], of "[]" _ v s]
    by (auto simp: sealed_by_key_def)
  then show ?thesis
    using merge_groups_run [of "map snd (sealed_by_key s)" s] assms by (auto simp: tick_merge_def)
qed

section \<open>Cancellation and expiry\<close>

text \<open>Assignments to a request that leave its identity and its current attempt.\<close>

lemma keep_upd_request_same:
  assumes "struct_inv s" and "\<And>r. same_request r (f r)"
    and "\<And>r. req_current_attempt (f r) = req_current_attempt r"
  shows "struct_inv (upd_request i f s)"
  using assms struct_attempt [OF assms(1), of i] by (intro keep_upd_request) auto

lemmas keep_same = keep_upd_batch_same keep_upd_request_same

lemma keep_terminal: "struct_inv s \<Longrightarrow> struct_inv (complete_request_terminal i oc st now s)"
  by (auto simp: complete_request_terminal_def Let_def same_request_def
      intro!: keep_frame keep_upd_attempt keep_same split: option.split)

lemma keep_remove_member: "struct_inv s \<Longrightarrow> struct_inv (remove_member i b now s)"
  unfolding remove_member_def Let_def
  by (rule keep_upd_batch_same, rule keep_recompute, rule keep_upd_batch) (auto dest: struct_members)

lemma keep_cancel: "struct_inv s \<Longrightarrow> struct_inv (snd (do_cancel i reason now s))"
  by (auto simp: do_cancel_def Let_def same_request_def
      intro!: keep_frame keep_upd_attempt keep_same keep_index_remove keep_remove_member
      split: option.split)

lemma keep_fold:
  assumes "struct_inv s" and "\<And>x s. struct_inv s \<Longrightarrow> struct_inv (f x s)"
  shows "struct_inv (fold f xs s)"
  using assms by (intro fold_invariant_on [where P = struct_inv])

lemma keep_expire: "struct_inv s \<Longrightarrow> struct_inv (expire_locked P now s)"
  unfolding expire_locked_def Let_def
  by (intro keep_fold)
    (auto simp: expire_waiting_def expire_member_def intro!: keep_terminal keep_index_remove keep_cancel
      split: option.split)

section \<open>The tick\<close>

text \<open>A loop of allocating steps keeps the invariant if ids are left at its end.\<close>

lemma keep_fold_spare:
  assumes "\<And>x s. struct_inv s \<Longrightarrow> spare (f x s) \<Longrightarrow> struct_inv (f x s)" and "\<And>x s. grows s (f x s)"
  shows "struct_inv s \<Longrightarrow> spare (fold f xs s) \<Longrightarrow> struct_inv (fold f xs s)"
proof (induction xs arbitrary: s)
  case (Cons x xs)
  then have "spare (f x s)" using grow_fold [of f] assms(2) spare_grows by auto
  with Cons assms(1) show ?case by simp
qed simp

lemma keep_tick_form: "struct_inv s \<Longrightarrow> spare (tick_form P now k s) \<Longrightarrow> struct_inv (tick_form P now k s)"
  by (auto simp: tick_form_def keep_make_forming split: if_splits)

lemma grow_tick_form: "grows s (tick_form P now k s)"
  by (simp add: tick_form_def grow_make_forming)

lemma keep_tick_fill: "struct_inv (snd ts) \<Longrightarrow> struct_inv (snd (tick_fill P now b ts))"
  by (cases ts) (auto simp: tick_fill_def Let_def intro!: keep_upd_batch_same keep_fill split: option.split)

lemma keep_tick_fills: "struct_inv (snd ts) \<Longrightarrow> struct_inv (snd (fold (tick_fill P now) bs ts))"
  by (rule fold_invariant_on) (simp_all add: keep_tick_fill)

lemma grow_tick_fills: "grows (snd ts) (snd (fold (tick_fill P now) bs ts))"
proof (induction bs arbitrary: ts)
  case (Cons b bs)
  have "grows (snd ts) (snd (tick_fill P now b ts))"
    by (cases ts) (auto simp: tick_fill_def Let_def intro!: grow grow_fill split: option.split)
  then show ?case using Cons.IH [of "tick_fill P now b ts"] grows_trans by auto
qed simp

lemma keep_tick_seal: "struct_inv s \<Longrightarrow> struct_inv (tick_seal now b s)"
  by (simp add: tick_seal_def keep_seal split: option.split)

lemma grow_tick_seal: "grows s (tick_seal now b s)"
  by (simp add: tick_seal_def grow_seal split: option.split)

lemma tick_until_merge_run:
  assumes "struct_inv s" and "spare (tick_until_merge P now s)"
  shows "struct_inv (tick_until_merge P now s)"
proof -
  define s1 where "s1 = expire_locked P now s"
  define s2 where "s2 = fold (tick_form P now) (map fst (plat_bucket_iter P (im_waiting s1))) s1"
  obtain bs s3 where s3: "fold (tick_fill P now) (map snd (im_forming s2)) ([], s2) = (bs, s3)" by force
  have def: "tick_until_merge P now s = fold (tick_seal now) bs s3"
    by (simp add: tick_until_merge_def s1_def [symmetric] s2_def [symmetric] s3)
  have "grows s2 (fold (tick_seal now) bs s3)"
    using grow_tick_fills [of "([], s2)" P now "map snd (im_forming s2)"]
      grow_fold [of "tick_seal now" s3 bs] grow_tick_seal s3 grows_trans by fastforce
  then have "spare s2" using assms(2) spare_grows def by simp
  then have "struct_inv s2"
    unfolding s2_def
    by (intro keep_fold_spare keep_tick_form grow_tick_form)
      (simp_all add: s1_def keep_expire assms(1))
  then have "struct_inv s3"
    using keep_tick_fills [of "([], s2)" P now "map snd (im_forming s2)"] s3 by simp
  then show ?thesis unfolding def by (rule keep_fold) (rule keep_tick_seal)
qed

lemma grow_until_merge: "grows s (tick_until_merge P now s)"
proof -
  define s2 where "s2 = fold (tick_form P now) (map fst (plat_bucket_iter P (im_waiting (expire_locked P now s))))
    (expire_locked P now s)"
  obtain bs s3 where s3: "fold (tick_fill P now) (map snd (im_forming s2)) ([], s2) = (bs, s3)" by force
  have "grows s s2"
    unfolding s2_def by (rule grows_trans [OF grow_expire grow_fold [OF grow_tick_form]])
  moreover have "grows s2 s3"
    using grow_tick_fills [of "([], s2)" P now "map snd (im_forming s2)"] s3 by simp
  moreover have "grows s3 (tick_until_merge P now s)"
    by (simp add: tick_until_merge_def s2_def [symmetric] s3 grow_fold grow_tick_seal)
  ultimately show ?thesis using grows_trans by blast
qed

section \<open>The split loop\<close>

text \<open>
  A split takes the batch out of the order of sealed batches and appends one new id, so the loop
  over the order ends. This needs only that batches are listed under their own ids.
\<close>

definition own_ids :: "Impl \<Rightarrow> bool" where
  "own_ids s \<longleftrightarrow> (\<forall>b x. find_batch s b = Some x \<longrightarrow> bat_id x = b)"

lemma own_ids_struct: "struct_inv s \<Longrightarrow> own_ids s"
  by (simp add: own_ids_def struct_bat_id)

lemma own_ids_prims:
  "own_ids s \<Longrightarrow> (\<And>x. bat_id (f x) = bat_id x) \<Longrightarrow> own_ids (upd_batch b f s)"
  "own_ids s \<Longrightarrow> bat_id x = b \<Longrightarrow> own_ids (put_batch b x s)"
  "own_ids s \<Longrightarrow> own_ids (recompute b s)"
  "own_ids s \<Longrightarrow> own_ids (assign_batch b ms s)"
  "own_ids s \<Longrightarrow> own_ids (set_forming k b s)"
  "own_ids s \<Longrightarrow> own_ids (inc ff s)"
  "own_ids s \<Longrightarrow> own_ids (emit ty rr bb aa t d s)"
  "own_ids s \<Longrightarrow> own_ids (s\<lparr>im_sealed_order := ord\<rparr>)"
  "own_ids s \<Longrightarrow> own_ids (s\<lparr>im_next_batch := n\<rparr>)"
  by (auto simp: own_ids_def)

lemma own_ids_split: "own_ids s \<Longrightarrow> own_ids (snd (do_split b reason s))"
  by (auto simp: do_split_def split_child_def split_resealed_def nb_def Let_def
      intro!: own_ids_prims split: option.split)

lemma split_order_length:
  "b \<in> set (im_sealed_order s) \<Longrightarrow>
     length (im_sealed_order (snd (do_split b reason s))) = length (im_sealed_order s)"
  by (auto simp: do_split_def split_child_def split_resealed_def nb_def Let_def length_remove1
      dest: length_pos_if_in_set split: option.split)

lemma tick_split_step:
  assumes "own_ids s" and "i < length (im_sealed_order s)"
  shows "own_ids (tick_split i s)" and "length (im_sealed_order (tick_split i s)) = length (im_sealed_order s)"
  using assms
  by (auto simp: tick_split_def Let_def own_ids_split own_ids_def [of s] split_order_length
      split: option.split)

lemma grow_tick_split: "grows s (tick_split i s)"
  by (simp add: tick_split_def Let_def grow_split split: option.split)

lemma keep_tick_split: "struct_inv s \<Longrightarrow> spare (tick_split i s) \<Longrightarrow> struct_inv (tick_split i s)"
  by (auto simp: tick_split_def Let_def keep_split split: option.splits if_splits)

lemma split_loop_total:
  assumes "own_ids s"
  shows "split_loop i s = Some (fold tick_split [i..<length (im_sealed_order s)] s)"
  using assms
proof (induction "length (im_sealed_order s) - i" arbitrary: i s)
  case 0
  then show ?case by (subst split_loop.simps) simp
next
  case (Suc n)
  then have i: "i < length (im_sealed_order s)" by simp
  note step = tick_split_step [OF Suc.prems i]
  have "split_loop i s = split_loop (Suc i) (tick_split i s)"
    using i by (subst split_loop.simps) simp
  also have "\<dots> = Some (fold tick_split [Suc i..<length (im_sealed_order (tick_split i s))] (tick_split i s))"
    using Suc.hyps(2) step by (intro Suc.hyps(1)) simp_all
  finally show ?case using i by (simp add: step(2) upt_conv_Cons)
qed

text \<open>The whole tick: it returns, keeps every record and keeps the invariant.\<close>

lemma tick_run:
  assumes "struct_inv s" and "spare (tick_until_merge P now s)"
  obtains t where "do_tick P now s = Some t" and "grows s t" and "spare t \<Longrightarrow> struct_inv t"
proof -
  let ?u = "tick_until_merge P now s"
  obtain v where v: "tick_merge ?u = Some v" "grows ?u v" "struct_inv v"
    using tick_merge_run [OF tick_until_merge_run [OF assms]] by blast
  let ?t = "fold tick_split [0..<length (im_sealed_order v)] v"
  have "do_tick P now s = Some ?t"
    using v split_loop_total [OF own_ids_struct, of v 0] by (simp add: do_tick_def)
  moreover have "grows s ?t"
    by (rule grows_trans [OF grow_until_merge grows_trans [OF v(2) grow_fold [OF grow_tick_split]]])
  moreover have "spare ?t \<Longrightarrow> struct_inv ?t"
    using v(3) by (intro keep_fold_spare keep_tick_split grow_tick_split)
  ultimately show ?thesis using that by blast
qed

lemma grow_merge_neighbours: "merge_neighbours v s = Some t \<Longrightarrow> grows s t"
proof (induction v s rule: merge_neighbours.induct)
  case (1 x y v s)
  then show ?case
    by (fastforce split: if_splits option.splits intro: grows_trans dest: grow_merge)
qed auto

lemma grow_merge_groups: "merge_groups vs s = Some t \<Longrightarrow> grows s t"
  by (induction vs arbitrary: s)
    (auto split: option.splits intro: grows_trans dest: grow_merge_neighbours)

lemma grow_split_loop:
  assumes "split_loop i s = Some t"
  shows "grows s t"
proof (rule split_loop.raw_induct [where P = "\<lambda>_. grows", OF _ assms])
  fix loop i s t
  assume "\<And>i s t. loop i s = Some t \<Longrightarrow> grows s t"
    and "(if i < length (im_sealed_order s) then loop (Suc i) (tick_split i s) else Some s) = Some t"
  then show "grows s t"
    using grows_trans [OF grow_tick_split [of s i]] by (auto split: if_splits)
qed

lemma grow_after_merge: "do_tick P now s = Some t \<Longrightarrow> grows (tick_until_merge P now s) t"
  by (auto simp: do_tick_def tick_merge_def intro: grows_trans
      dest!: grow_merge_groups grow_split_loop split: option.splits if_splits)

lemma grow_tick: "do_tick P now s = Some t \<Longrightarrow> grows s t"
  by (rule grows_trans [OF grow_until_merge grow_after_merge])

lemma keep_tick:
  assumes "struct_inv s" and "do_tick P now s = Some t" and "spare t"
  shows "struct_inv t"
proof -
  have "spare (tick_until_merge P now s)"
    using spare_grows [OF assms(3) grow_after_merge [OF assms(2)]] .
  then show ?thesis
    using tick_run [OF assms(1), of P now] assms(2,3) by (metis option.inject)
qed

section \<open>Retry\<close>

text \<open>A new attempt for a request: allocation, registration and a fresh entry in the waiting index.\<close>

lemma keep_new_attempt:
  assumes inv: "struct_inv s" and "aid = Id (im_next_attempt s)"
    and "unused (insert aid (dom (find_attempt s)))" and "\<And>r. same_request r (f r)"
    and "\<And>r. req_current_attempt (f r) = aid"
  shows "struct_inv (upd_request i f (put_attempt aid a
    (s\<lparr>im_next_attempt := im_next_attempt s + 1\<rparr>)))"
  using assms by (intro keep_upd_request keep_put_attempt [OF inv]) auto

lemma has_key_upd_new [simp]:
  "(\<And>r. same_request r (f r)) \<Longrightarrow>
     has_key (upd_request i f (put_attempt aid a (s\<lparr>im_next_attempt := n\<rparr>))) = has_key s"
  by (simp add: has_key_upd_request) (simp add: has_key_def fun_eq_iff)

lemma retry_cases:
  assumes "do_retry P i now s = Some (res, s')"
  obtains "s' = s" | r num where "find_request s i = Some r" "do_tick P now (snd (queue_retry i r num s)) = Some s'"
proof (cases "find_request s i")
  case (Some r)
  define num where "num = (case find_attempt s (req_current_attempt r) of None \<Rightarrow> 0
    | Some a \<Rightarrow> att_number a)"
  have "s' = s \<or> do_tick P now (snd (queue_retry i r num s)) = Some s'"
    using assms Some
    by (auto simp: do_retry_def num_def [symmetric] Let_def split_beta split: if_splits)
  then show ?thesis using that Some by blast
qed (use assms that in \<open>simp add: do_retry_def\<close>)

lemma grow_queue: "grows s (snd (queue_retry i r num s))"
  unfolding queue_retry_def na_def Let_def prod.case snd_conv by (intro grow grows_refl)

lemma keep_queue:
  assumes "struct_inv s" and "find_request s i = Some r" and "spare (snd (queue_retry i r num s))"
  shows "struct_inv (snd (queue_retry i r num s))"
proof -
  have "unused (insert (Id (im_next_attempt s)) (dom (find_attempt s)))"
    using assms(3) by (simp add: queue_retry_def na_def spare_def Let_def)
  then show ?thesis
    unfolding queue_retry_def na_def Let_def prod.case snd_conv using assms(1,2)
    by (intro keep_frame keep_index_add keep_new_attempt) (auto simp: same_request_def has_key_def)
qed

lemma keep_retry:
  assumes "struct_inv s" and "do_retry P i now s = Some (res, s')" and "spare s'"
  shows "struct_inv s'"
  using assms(2)
proof (cases rule: retry_cases)
  case (2 r num)
  then show ?thesis
    using keep_tick [OF _ 2(2) assms(3)] keep_queue [OF assms(1) 2(1)]
      spare_grows [OF assms(3) grow_tick [OF 2(2)]] by blast
qed (use assms(1) in simp)

lemma grow_retry:
  assumes "do_retry P i now s = Some (res, s')"
  shows "grows s s'"
  using assms
proof (cases rule: retry_cases)
  case (2 r num)
  show ?thesis by (rule grows_trans [OF grow_queue grow_tick [OF 2(2)]])
qed simp

section \<open>Completion and dispatch\<close>

lemma keep_requeue:
  assumes inv: "struct_inv s" and r: "find_request s i = Some r0" "req_key r = req_key r0" "req_id r = i"
    and "spare (requeue i r num s)"
  shows "struct_inv (requeue i r num s)"
proof -
  have "unused (insert (Id (im_next_attempt s)) (dom (find_attempt s)))"
    using assms(5) by (simp add: requeue_def na_def spare_def Let_def)
  then show ?thesis
    unfolding requeue_def na_def Let_def prod.case using assms(1-4)
    by (intro keep_frame keep_index_add keep_upd_attempt keep_new_attempt)
      (auto simp: same_request_def has_key_def)
qed

lemma keep_apply_parts:
  "struct_inv s \<Longrightarrow> struct_inv (apply_success i r aid a mc now s)"
  "struct_inv s \<Longrightarrow> struct_inv (apply_failure i r aid mc now s)"
  "struct_inv s \<Longrightarrow> struct_inv (apply_terminal i r aid mc st now s)"
  by (auto simp: apply_success_def apply_failure_def apply_terminal_def record_outcome_def
      record_result_def set_state_def same_request_def Let_def
      intro!: keep_frame keep_fields keep_same keep_upd_attempt)

lemma find_apply_failure [simp]:
  "find_request (apply_failure i r aid mc now s) j
     = (if j = i then map_option (\<lambda>r. r\<lparr>req_state := RS_failed\<rparr>) (find_request s i) else find_request s j)"
  by (simp add: apply_failure_def record_outcome_def record_result_def set_state_def Let_def)

lemma keep_outcome:
  assumes inv: "struct_inv s" and r: "find_request s i = Some r"
    and "spare (apply_member_outcome i r aid a mc now s)"
  shows "struct_inv (apply_member_outcome i r aid a mc now s)"
proof -
  note parts = keep_apply_parts [OF inv]
  have "struct_inv (requeue i r num (inc st_retryable_failures_update (apply_failure i r aid mc now s)))"
    if "spare (requeue i r num (inc st_retryable_failures_update (apply_failure i r aid mc now s)))" for num
    using that parts r struct_req_id [OF inv r]
    by (intro keep_requeue [of _ i "r\<lparr>req_state := RS_failed\<rparr>"] keep_frame) auto
  then show ?thesis
    using assms
    by (auto simp: apply_member_outcome_def Let_def intro!: keep_frame parts
        split: CompletionStatus.splits if_splits)
qed

lemma grow_complete_member: "grows s (complete_member b now mc s)"
  by (auto simp: complete_member_def intro!: grow split: option.split)

lemma keep_complete_member:
  "struct_inv s \<Longrightarrow> spare (complete_member b now mc s) \<Longrightarrow> struct_inv (complete_member b now mc s)"
  by (auto simp: complete_member_def intro!: keep_frame keep_outcome split: option.splits if_splits)

text \<open>A batch that is not being filled may be closed.\<close>

lemma keep_close_state:
  assumes "struct_inv s" and "find_batch s b = Some x" and "\<not> fillable (bat_state x)"
    and "\<And>x. bat_id (f x) = bat_id x \<and> bat_key (f x) = bat_key x \<and> bat_members (f x) = bat_members x \<and>
      bat_state (f x) \<noteq> BS_forming"
  shows "struct_inv (upd_batch b f s)"
  using assms struct_members [OF assms(1,2)] struct_not_filling [OF assms(1-3)]
  by (intro keep_upd_batch) auto

text \<open>Members' outcomes do not touch the state of any batch.\<close>

definition same_batch :: "BatchRec \<Rightarrow> BatchRec \<Rightarrow> bool" where
  "same_batch x y \<longleftrightarrow> bat_id y = bat_id x \<and> bat_state y = bat_state x \<and> bat_key y = bat_key x \<and>
     bat_members y = bat_members x \<and> bat_accum y = bat_accum x \<and> bat_phase y = bat_phase x"

definition same_batches :: "Impl \<Rightarrow> Impl \<Rightarrow> bool" where
  "same_batches s t \<longleftrightarrow> (\<forall>b. rel_option same_batch (find_batch s b) (find_batch t b))"

lemma same_batches_refl [simp]: "same_batches s s"
  by (simp add: same_batches_def same_batch_def option.rel_refl)

lemma same_batches_trans:
  assumes "same_batches s t" and "same_batches t u"
  shows "same_batches s u"
  unfolding same_batches_def
proof
  fix b
  have "rel_option same_batch (find_batch s b) (find_batch t b)"
    "rel_option same_batch (find_batch t b) (find_batch u b)"
    using assms by (simp_all add: same_batches_def)
  then show "rel_option same_batch (find_batch s b) (find_batch u b)"
    by (cases "find_batch s b"; cases "find_batch t b"; cases "find_batch u b")
      (simp_all add: same_batch_def)
qed

lemma same_batches_prims:
  "same_batches s t \<Longrightarrow> same_batches s (upd_request i f t)"
  "same_batches s t \<Longrightarrow> same_batches s (upd_attempt a h t)"
  "same_batches s t \<Longrightarrow> same_batches s (put_attempt a y t)"
  "same_batches s t \<Longrightarrow> same_batches s (inc k t)"
  "same_batches s t \<Longrightarrow> same_batches s (emit ty rr bb aa tn d t)"
  "same_batches s t \<Longrightarrow> same_batches s (set_waiting w t)"
  "same_batches s t \<Longrightarrow> same_batches s (set_fairness q t)"
  "same_batches s t \<Longrightarrow> same_batches s (t\<lparr>im_stats := st\<rparr>)"
  "same_batches s t \<Longrightarrow> same_batches s (t\<lparr>im_next_attempt := n\<rparr>)"
  by (simp_all add: same_batches_def)

lemma same_batches_upd:
  assumes "same_batches s t" and "\<And>x. same_batch x (f x)"
  shows "same_batches s (upd_batch b f t)"
proof (rule same_batches_trans [OF assms(1)])
  show "same_batches t (upd_batch b f t)"
    by (simp add: same_batches_def same_batch_def option.rel_map option.rel_refl
        assms(2) [unfolded same_batch_def])
qed

lemma same_batches_outcome: "same_batches s (apply_member_outcome i r aid a mc now s)"
  by (auto simp: apply_member_outcome_def apply_success_def apply_failure_def apply_terminal_def
      requeue_def record_outcome_def record_result_def set_state_def na_def Let_def same_batch_def
      intro!: same_batches_prims same_batches_upd split: CompletionStatus.split)

lemma same_batches_member: "same_batches s (complete_member b now mc s)"
  by (auto simp: complete_member_def intro!: same_batches_prims same_batches_outcome split: option.split)

lemma same_batches_members: "same_batches s (fold (complete_member b now) mcs s)"
  by (induction mcs arbitrary: s) (auto intro: same_batches_trans same_batches_member)

lemma same_batches_find:
  assumes "same_batches s t" and "find_batch s b = Some x"
  obtains y where "find_batch t b = Some y" and "same_batch x y"
  using assms by (metis same_batches_def option_rel_Some1)

lemma keep_close_batch:
  assumes "struct_inv s" and "find_batch s b = Some x" and "bat_state x = BS_dispatched \<or> bat_state x = BS_running"
  shows "struct_inv (close_batch b now s)"
proof -
  have "\<not> fillable (bat_state x)" using assms(3) by (auto simp: fillable_def)
  note close = keep_close_state [OF assms(1,2) this]
  show ?thesis
    by (cases "all_terminal s (bat_members (at_batch s b))")
      (auto simp: close_batch_def intro!: keep_frame close)
qed

lemma grow_close [grow]: "grows s t \<Longrightarrow> grows s (close_batch b now t)"
  by (auto simp: close_batch_def intro!: grow)

text \<open>A completion that gets past the staleness checks.\<close>

definition completion_current :: "Impl \<Rightarrow> BatchCompletion \<Rightarrow> bool" where
  "completion_current s cmp \<longleftrightarrow> comp_epoch cmp = im_epoch s \<and>
     worker_current s (comp_worker cmp) (comp_boot cmp) \<and>
     (\<exists>x. find_batch s (comp_batch cmp) = Some x \<and> bat_generation x = comp_generation cmp \<and>
        (bat_state x = BS_dispatched \<or> bat_state x = BS_running))"

lemma complete_current:
  fixes now :: TimePoint
  assumes "completion_current s cmp"
  defines "t \<equiv> close_batch (comp_batch cmp) now (fold (complete_member (comp_batch cmp) now) (comp_members cmp) s)"
  shows "do_complete cmp now s = (Inr (), t\<lparr>im_workers := std_modify (comp_worker cmp)
     (\<lambda>w. w\<lparr>wk_running := removeAll (comp_batch cmp) (wk_running w)\<rparr>) (im_workers t)\<rparr>)"
  using assms by (auto simp: do_complete_def completion_current_def Let_def)

lemma complete_stale:
  assumes "\<not> completion_current s cmp"
  shows "\<exists>c m. fst (do_complete cmp now s) = Result_err c m"
    and "snd (do_complete cmp now s) \<in> {s, inc st_stale_rejections_update s} \<union>
      range (\<lambda>why. emit ET_stale_reject null_id (comp_batch cmp) null_id null_id why
        (inc st_stale_rejections_update s))"
  using assms
  by (auto simp: do_complete_def completion_current_def Let_def split: option.splits)

lemma keep_complete:
  assumes inv: "struct_inv s" and sp: "spare (snd (do_complete cmp now s))"
  shows "struct_inv (snd (do_complete cmp now s))"
proof (cases "completion_current s cmp")
  case False
  then show ?thesis
    using complete_stale(2) [OF False, of now] inv by (auto simp: keep_frame)
next
  case True
  then obtain x where x: "find_batch s (comp_batch cmp) = Some x"
    "bat_state x = BS_dispatched \<or> bat_state x = BS_running" by (auto simp: completion_current_def)
  let ?u = "fold (complete_member (comp_batch cmp) now) (comp_members cmp) s"
  obtain y where y: "find_batch ?u (comp_batch cmp) = Some y" "bat_state y = bat_state x"
    using same_batches_find [OF same_batches_members x(1)] by (metis same_batch_def)
  have "grows ?u (snd (do_complete cmp now s))"
    by (simp add: complete_current [OF True] grow)
  then have "struct_inv ?u"
    using spare_grows [OF sp] by (intro keep_fold_spare keep_complete_member grow_complete_member inv)
  then show ?thesis
    using y x(2) by (simp add: complete_current [OF True] keep_fields keep_close_batch)
qed

text \<open>Dispatch.\<close>

lemma mark_dispatched_view:
  fixes w :: WorkerId and boot :: WorkerBootId and now :: TimePoint
  assumes "find_batch s b = Some x"
  defines "t \<equiv> mark_dispatched b w boot now s"
  shows "find_batch t c = (if c = b then Some (x\<lparr>bat_state := BS_dispatched, bat_dispatched_ns := now,
      bat_worker := w, bat_boot := boot\<rparr>) else find_batch s c)"
    and "find_request t i = (if i \<in> set (bat_members x)
      then map_option (\<lambda>r. if req_state r = RS_batched then r\<lparr>req_state := RS_dispatched\<rparr> else r)
        (find_request s i) else find_request s i)"
  using assms by (simp_all add: mark_dispatched_def Let_def at_find)

lemma keep_mark_dispatched:
  assumes "struct_inv s" and "find_batch s b = Some x" and "bat_state x = BS_sealed"
  shows "struct_inv (mark_dispatched b w boot now s)"
  unfolding mark_dispatched_def Let_def
  using assms by (intro keep_advance keep_close_state [of s b x]) (auto simp: fillable_def)

lemma grow_mark_dispatched [grow]: "grows s t \<Longrightarrow> grows s (mark_dispatched b w boot now t)"
  by (simp add: mark_dispatched_def Let_def grow)

lemma keep_prepare: "struct_inv s \<Longrightarrow> struct_inv (snd (do_prepare_dispatch b w boot now s))"
  by (auto simp: do_prepare_dispatch_def Let_def intro!: keep_frame keep_mark_dispatched split: option.split)

lemma grow_prepare: "grows s (snd (do_prepare_dispatch b w boot now s))"
  by (auto simp: do_prepare_dispatch_def Let_def intro!: grow split: option.split)

text \<open>Every request has its current attempt, so the executor-failure path finds one.\<close>

definition attempts_known :: "Impl \<Rightarrow> bool" where
  "attempts_known s \<longleftrightarrow> (\<forall>i r. find_request s i = Some r \<longrightarrow> req_current_attempt r \<in> dom (find_attempt s))"

lemma attempts_known_struct: "struct_inv s \<Longrightarrow> attempts_known s"
  unfolding attempts_known_def using struct_attempt by blast

lemma attempts_known_outcome:
  assumes "attempts_known s"
  shows "attempts_known (apply_member_outcome i r aid a mc now s)"
  using assms
  by (auto simp: attempts_known_def dom_def apply_member_outcome_def apply_success_def apply_failure_def
      apply_terminal_def requeue_def record_outcome_def record_result_def set_state_def na_def Let_def
      split: CompletionStatus.splits if_splits)

lemma fail_members_run:
  "attempts_known s \<Longrightarrow> \<exists>t. fail_members e now ms s = Some t \<and> grows s t \<and> same_batches s t \<and>
     (struct_inv s \<and> spare t \<longrightarrow> struct_inv t)"
proof (induction ms arbitrary: s)
  case Nil
  then show ?case by simp
next
  case (Cons m ms)
  show ?case
  proof (cases "find_request s m")
    case None
    then show ?thesis using Cons by simp
  next
    case (Some r)
    then obtain a where a: "find_attempt s (req_current_attempt r) = Some a"
      using Cons.prems by (auto simp: attempts_known_def)
    define u where "u = apply_member_outcome m r (req_current_attempt r) a
      \<lparr>mc_request = m, mc_attempt = req_current_attempt r, mc_status = CS_retryable_failure,
       mc_result = [], mc_error_code = err_code e, mc_error_message = Error_to_string e\<rparr> now s"
    have u: "grows s u" "same_batches s u" "struct_inv s \<and> spare u \<longrightarrow> struct_inv u"
      by (auto simp: u_def same_batches_outcome Some intro!: grow keep_outcome)
    obtain t where "fail_members e now ms u = Some t" "grows u t" "same_batches u t"
      "struct_inv u \<and> spare t \<longrightarrow> struct_inv t"
      using Cons.IH [of u] attempts_known_outcome [OF Cons.prems] by (auto simp: u_def)
    then show ?thesis
      using u Some a by (auto simp: u_def [symmetric] intro: grows_trans same_batches_trans dest: spare_grows)
  qed
qed

lemma mark_running_view:
  assumes "find_batch s b = Some x"
  shows "find_batch (mark_running b s) c = (if c = b then Some (x\<lparr>bat_state := BS_running\<rparr>) else find_batch s c)"
    and "find_request (mark_running b s) i = (if i \<in> set (bat_members x)
      then map_option (\<lambda>r. if req_state r = RS_dispatched then r\<lparr>req_state := RS_running\<rparr> else r)
        (find_request s i) else find_request s i)"
  using assms by (simp_all add: mark_running_def Let_def at_find)

lemma keep_mark_running:
  assumes "struct_inv s" and "find_batch s b = Some x" and "bat_state x = BS_dispatched"
  shows "struct_inv (mark_running b s)"
  unfolding mark_running_def Let_def
  using assms by (intro keep_advance keep_close_state [of s b x]) (auto simp: fillable_def)

lemma grow_mark_running [grow]: "grows s t \<Longrightarrow> grows s (mark_running b t)"
  by (simp add: mark_running_def Let_def grow)

text \<open>
  An in-process dispatch of a sealed batch: the state in which the executor's answer is applied,
  and how the answer is applied.
\<close>

definition running_state :: "BatchId \<Rightarrow> IExecutor \<Rightarrow> TimePoint \<Rightarrow> Impl \<Rightarrow> Impl" where
  "running_state b ex now s = mark_running b (begin_dispatch b ex now s)"

lemma begin_dispatch_batch:
  assumes "find_batch s b = Some x"
  shows "\<exists>y. find_batch (begin_dispatch b ex now s) b = Some y \<and> bat_state y = BS_dispatched \<and>
      bat_id y = bat_id x \<and> bat_members y = bat_members x \<and> bat_key y = bat_key x"
    and "c \<noteq> b \<Longrightarrow> find_batch (begin_dispatch b ex now s) c = find_batch s c"
  using assms by (simp_all add: begin_dispatch_def Let_def mark_dispatched_view)

lemma keep_begin_dispatch:
  assumes "struct_inv s" and "find_batch s b = Some x" and "bat_state x = BS_sealed"
  shows "struct_inv (begin_dispatch b ex now s)"
  unfolding begin_dispatch_def Let_def using assms
  by (intro keep_frame keep_mark_dispatched [of s b x])

lemma running_state_batch:
  assumes "find_batch s b = Some x"
  shows "\<exists>y. find_batch (running_state b ex now s) b = Some y \<and> bat_state y = BS_running \<and>
      bat_id y = bat_id x \<and> bat_members y = bat_members x \<and> bat_key y = bat_key x"
    and "c \<noteq> b \<Longrightarrow> find_batch (running_state b ex now s) c = find_batch s c"
proof -
  obtain y where y: "find_batch (begin_dispatch b ex now s) b = Some y" "bat_id y = bat_id x"
    "bat_members y = bat_members x" "bat_key y = bat_key x"
    using begin_dispatch_batch(1) [OF assms] by blast
  then show "\<exists>y. find_batch (running_state b ex now s) b = Some y \<and> bat_state y = BS_running \<and>
      bat_id y = bat_id x \<and> bat_members y = bat_members x \<and> bat_key y = bat_key x"
    by (simp add: running_state_def mark_running_view [OF y(1)])
  show "c \<noteq> b \<Longrightarrow> find_batch (running_state b ex now s) c = find_batch s c"
    by (simp add: running_state_def mark_running_view [OF y(1)] begin_dispatch_batch(2) [OF assms])
qed

lemma keep_running_state:
  assumes "struct_inv s" and "find_batch s b = Some x" and "bat_state x = BS_sealed"
  shows "struct_inv (running_state b ex now s)"
  using keep_mark_running [OF keep_begin_dispatch [OF assms, of ex now], of b]
    begin_dispatch_batch(1) [OF assms(2), of ex now]
  by (auto simp: running_state_def)

lemma grow_running_state: "grows s (running_state b ex now s)"
  unfolding running_state_def begin_dispatch_def Let_def by (intro grow grows_refl)

lemma dispatch_run_cases:
  assumes "do_dispatch_and_run b ex now s = Some (res, s')"
  obtains (none) "s' = s"
  | (failed) e x where "find_batch s b = Some x" "bat_state x = BS_sealed"
      "fail_members e now (bat_members x) (running_state b ex now s) = Some s'"
  | (completed) x rs bx where "find_batch s b = Some x" "bat_state x = BS_sealed"
      "exec_execute ex bx = Inr rs" "mw_request ` set (ex_members bx) \<subseteq> set (bat_members x)"
      "s' = snd (do_complete (run_completion (at_batch (running_state b ex now s) b) rs) now
        (running_state b ex now s))"
proof (cases "find_batch s b")
  case (Some x)
  show ?thesis
  proof (cases "bat_state x = BS_sealed")
    case True
    let ?t = "running_state b ex now s"
    define u where "u = begin_dispatch b ex now s"
    define bx where "bx = build_execution u (at_batch u b)"
    have mem: "bat_members (at_batch ?t b) = bat_members x" "bat_members (at_batch u b) = bat_members x"
      using running_state_batch(1) [OF Some, of ex now] begin_dispatch_batch(1) [OF Some, of ex now]
      by (auto simp: at_find u_def)
    have run: "do_dispatch_and_run b ex now s = (case exec_execute ex bx of
        Inl e \<Rightarrow> map_option (\<lambda>s. (Result_err (err_code e) (''executor failed: '' @ err_message e), s))
          (fail_members e now (bat_members x) ?t)
      | Inr results \<Rightarrow>
          (let (cret, s) = do_complete (run_completion (at_batch ?t b) results) now ?t
           in Some (case cret of
                Inl e \<Rightarrow> (Result_err (err_code e) (err_message e), s)
              | Inr _ \<Rightarrow> (Inr (bat_id (at_batch s b)), s))))"
      using Some True mem
      by (simp add: do_dispatch_and_run_def Let_def u_def bx_def running_state_def cong: sum.case_cong)
    show ?thesis
    proof (cases "exec_execute ex bx")
      case (Inl e)
      then show ?thesis using assms run failed [OF Some True] by auto
    next
      case (Inr rs)
      have "mw_request ` set (ex_members bx) \<subseteq> set (bat_members x)"
        by (auto simp: bx_def build_execution_def member_work_def mem List.map_filter_def)
      moreover have "s' = snd (do_complete (run_completion (at_batch ?t b) rs) now ?t)"
        using assms run Inr by (auto simp: Let_def split: prod.splits sum.splits)
      ultimately show ?thesis using completed [OF Some True Inr] by blast
    qed
  qed (use assms Some none in \<open>auto simp: do_dispatch_and_run_def\<close>)
qed (use assms none in \<open>auto simp: do_dispatch_and_run_def\<close>)

lemma keep_dispatch_run:
  assumes inv: "struct_inv s" and "do_dispatch_and_run b ex now s = Some (res, s')" and "spare s'"
  shows "struct_inv s'"
  using assms(2)
proof (cases rule: dispatch_run_cases)
  case (failed e x)
  have "struct_inv (running_state b ex now s)"
    by (rule keep_running_state [OF inv failed(1,2)])
  then show ?thesis
    using fail_members_run [OF attempts_known_struct, of "running_state b ex now s" e now "bat_members x"]
      failed(3) assms(3) by auto
next
  case (completed x rs bx)
  then show ?thesis
    using keep_complete [OF keep_running_state [OF inv completed(1,2)]] assms(3) by blast
qed (use inv in simp)

lemma dispatch_run_defined:
  assumes inv: "struct_inv s"
  shows "\<exists>r. do_dispatch_and_run b ex now s = Some r"
proof (cases "\<exists>x. find_batch s b = Some x \<and> bat_state x = BS_sealed")
  case True
  then obtain x where x: "find_batch s b = Some x" "bat_state x = BS_sealed" by blast
  have "\<exists>t. fail_members e now (bat_members x) (running_state b ex now s) = Some t" for e
    using fail_members_run [OF attempts_known_struct [OF keep_running_state [OF inv x]]] by blast
  then show ?thesis
    using x running_state_batch(1) [OF x(1), of ex now]
    by (fastforce simp: do_dispatch_and_run_def running_state_def Let_def at_find
        split: sum.split prod.split)
qed (auto simp: do_dispatch_and_run_def split: option.split)

lemma grow_dispatch_run:
  assumes "struct_inv s" and "do_dispatch_and_run b ex now s = Some (res, s')"
  shows "grows s s'"
  using assms(2)
proof (cases rule: dispatch_run_cases)
  case (failed e x)
  have "grows (running_state b ex now s) s'"
    using fail_members_run [OF attempts_known_struct [OF keep_running_state [OF assms(1) failed(1,2),
        of ex now]], of e now "bat_members x"] failed(3) by auto
  then show ?thesis by (rule grows_trans [OF grow_running_state])
next
  case (completed x rs bx)
  then show ?thesis using grows_trans [OF grow_running_state grow_complete] by simp
qed simp

end
