(* ===== verification/Reach.thy ===== *)
theory Reach
  imports Sched_Keep
begin

text \<open>
  The runtime as a transition system: one call of a public method is one step (the mutex makes
  them atomic), and the clock may move between calls. States are reachable through any sequence
  of calls that satisfy a condition \<open>ok\<close> on the callers; the results of this theory hold without
  any such condition.
\<close>

section \<open>Calls\<close>

datatype Call =
    Call_register_worker WorkerId WorkerBootId ExecutorCapability
  | Call_submit RequestMetadata TimePoint
  | Call_cancel RequestId CancellationReason TimePoint
  | Call_complete BatchCompletion TimePoint
  | Call_seal BatchId SealReason TimePoint
  | Call_split BatchId SplitReason TimePoint
  | Call_merge BatchId BatchId MergeReason TimePoint
  | Call_retry RequestId TimePoint
  | Call_tick TimePoint
  | Call_dispatch_and_run BatchId IExecutor TimePoint
  | Call_prepare_dispatch BatchId WorkerId WorkerBootId TimePoint
  | Call_expire TimePoint
  | Call_roll_epoch
  | Call_clock TimePoint

fun run_call :: "Platform \<Rightarrow> Call \<Rightarrow> Impl \<Rightarrow> Impl option" where
  "run_call P (Call_register_worker w boot cap) s = Some (snd (register_worker w boot cap s))"
| "run_call P (Call_submit meta now) s = Some (snd (submit meta now s))"
| "run_call P (Call_cancel i reason now) s = Some (snd (cancel i reason now s))"
| "run_call P (Call_complete cmp now) s = Some (snd (complete cmp now s))"
| "run_call P (Call_seal b reason now) s = Some (snd (seal b reason now s))"
| "run_call P (Call_split b reason now) s = Some (snd (split b reason now s))"
| "run_call P (Call_merge a b reason now) s = map_option snd (merge a b reason now s)"
| "run_call P (Call_retry i now) s = map_option snd (retry P i now s)"
| "run_call P (Call_tick now) s = map_option snd (tick P now s)"
| "run_call P (Call_dispatch_and_run b ex now) s = map_option snd (dispatch_and_run b ex now s)"
| "run_call P (Call_prepare_dispatch b w boot now) s = Some (snd (prepare_dispatch b w boot now s))"
| "run_call P (Call_expire now) s = Some (expire P now s)"
| "run_call P Call_roll_epoch s = Some (roll_epoch s)"
| "run_call P (Call_clock t) s = Some (s\<lparr>im_clock_now := t\<rparr>)"

text \<open>
  Reachable states. Every step leaves some id of each kind unused, so that no 64-bit counter has
  wrapped.
\<close>

inductive reachable :: "Platform \<Rightarrow> (Call \<Rightarrow> Impl \<Rightarrow> bool) \<Rightarrow> BatchPolicy \<Rightarrow> Impl \<Rightarrow> bool"
  for P ok p where
  reach_init: "reachable P ok p (Impl_init p clk sink)"
| reach_step: "reachable P ok p s \<Longrightarrow> ok c s \<Longrightarrow> run_call P c s = Some s' \<Longrightarrow> spare s' \<Longrightarrow>
    reachable P ok p s'"

definition any_call :: "Call \<Rightarrow> Impl \<Rightarrow> bool" where
  "any_call c s \<longleftrightarrow> True"

lemma reachable_mono: "reachable P ok p s \<Longrightarrow> (\<And>c s. ok c s \<Longrightarrow> ok' c s) \<Longrightarrow> reachable P ok' p s"
  by (induction rule: reachable.induct) (auto intro: reachable.intros)

lemma reachable_any: "reachable P ok p s \<Longrightarrow> reachable P any_call p s"
  by (erule reachable_mono) (simp add: any_call_def)

text \<open>
  The general form of an invariant proof: a property of the initial states that every call keeps
  in states with the structural invariant holds in all reachable states.
\<close>

section \<open>Every call keeps the structural invariant\<close>

lemma struct_init: "struct_inv (Impl_init p clk sink)"
  by (auto simp: inv_defs Impl_init_def dense_def find_request_def find_batch_def find_attempt_def
      index_ok_def std_keys_def index_ids_def index_bucket_def word_gt_0)

lemma snd_map_prod [simp]: "snd (map_prod f g x) = g (snd x)"
  by (cases x) simp

lemma seal_state: "snd (seal b reason now s) = flush (snd (do_seal b reason (resolve_now s now) s))"
  by (auto simp: seal_def Let_def split_beta do_seal_def split: option.split)

lemma split_state: "snd (split b reason now s) = flush (snd (do_split b reason s))"
  by (simp add: split_def split_beta Let_def)

lemma merge_state: "merge a b reason now s = Some (res, s') \<Longrightarrow>
    \<exists>c t. do_merge a b s = Some (c, t) \<and> s' = flush t"
  by (auto simp: merge_def)

lemma retry_state: "retry P i now s = Some (res, s') \<Longrightarrow>
    \<exists>r t. do_retry P i (resolve_now s now) s = Some (r, t) \<and> s' = flush t"
  by (auto simp: retry_def)

lemma tick_state: "tick P now s = Some (rep, s') \<Longrightarrow>
    \<exists>t. do_tick P (resolve_now s now) s = Some t \<and> s' = flush t"
  by (auto simp: tick_def Let_def)

lemma dispatch_state: "dispatch_and_run b ex now s = Some (res, s') \<Longrightarrow>
    \<exists>r t. do_dispatch_and_run b ex (resolve_now s now) s = Some (r, t) \<and> s' = flush t"
  by (auto simp: dispatch_and_run_def)

lemma spare_flush [simp]: "spare (flush s) = spare s"
  by (simp add: spare_def)

lemma keep_register: "struct_inv s \<Longrightarrow> struct_inv (snd (register_worker w boot cap s))"
  by (simp add: register_worker_def Let_def keep_frame keep_fields)

lemma keep_roll_epoch: "struct_inv s \<Longrightarrow> struct_inv (roll_epoch s)"
  by (simp add: roll_epoch_def Let_def keep_frame keep_fields)

theorem keep_call:
  assumes "struct_inv s" and "run_call P c s = Some s'" and "spare s'"
  shows "struct_inv s'"
  using assms
proof (cases c)
  case (Call_merge a b reason now)
  then obtain d t where "do_merge a b s = Some (d, t)" "s' = flush t"
    using assms(2) by (auto dest!: merge_state)
  then show ?thesis by (simp add: keep_frame(3) keep_merge [OF assms(1)])
next
  case (Call_retry i now)
  then obtain r t where "do_retry P i (resolve_now s now) s = Some (r, t)" "s' = flush t"
    using assms(2) by (auto dest!: retry_state)
  then show ?thesis using assms(3) by (simp add: keep_frame(3) keep_retry [OF assms(1)])
next
  case (Call_tick now)
  then obtain t where "do_tick P (resolve_now s now) s = Some t" "s' = flush t"
    using assms(2) by (auto dest!: tick_state)
  then show ?thesis using assms(3) by (simp add: keep_frame(3) keep_tick [OF assms(1)])
next
  case (Call_dispatch_and_run b ex now)
  then obtain r t where "do_dispatch_and_run b ex (resolve_now s now) s = Some (r, t)" "s' = flush t"
    using assms(2) by (auto dest!: dispatch_state)
  then show ?thesis using assms(3) by (simp add: keep_frame(3) keep_dispatch_run [OF assms(1)])
qed (auto simp: submit_def cancel_def complete_def seal_state split_state prepare_dispatch_def expire_def
    intro!: keep_frame keep_fields keep_register keep_submit keep_cancel keep_complete keep_seal keep_split
      keep_prepare keep_expire keep_roll_epoch)

lemma reachable_struct: "reachable P ok p s \<Longrightarrow> struct_inv s"
  by (induction rule: reachable.induct) (auto simp: struct_init intro: keep_call)

lemma reachable_invariant:
  assumes "reachable P ok p s" and "\<And>clk sink. I (Impl_init p clk sink)"
    and "\<And>s c s'. struct_inv s \<Longrightarrow> I s \<Longrightarrow> ok c s \<Longrightarrow> run_call P c s = Some s' \<Longrightarrow> spare s' \<Longrightarrow> I s'"
  shows "I s"
  using assms(1)
proof (induction rule: reachable.induct)
  case (reach_step s c s')
  then show ?case using assms(3) reachable_struct by blast
qed (rule assms(2))

end
