(* ===== verification/Scenario.thy ===== *)
theory Scenario
  imports Reach
begin

text \<open>
  A short run of the runtime, evaluated by the simplifier: one request is submitted, a tick forms a
  batch for it and seals it, and the batch is handed to worker 0. The compatibility key stays the
  symbol it is, so that no digest has to be computed. The properties of reachable states are
  applied to these states.
\<close>

section \<open>One submitted request\<close>

definition sample_descriptor :: ModelDescriptor where
  "sample_descriptor = default_descriptor\<lparr>d_model := Name ''m'', d_revision := Name ''r''\<rparr>"

definition sample_key :: CompatibilityKey where
  "sample_key = CompatibilityKey_build sample_descriptor"

definition sample_meta :: RequestMetadata where
  "sample_meta = default_metadata\<lparr>m_tenant := Id 7, m_descriptor := sample_descriptor,
     m_work := \<lparr>work_value = 3\<rparr>\<rparr>"

definition plain_platform :: Platform where
  "plain_platform = \<lparr>plat_quotient = (\<lambda>_ _. 0), plat_bucket_iter = (\<lambda>ix. ix)\<rparr>"

definition sample0 :: Impl where
  "sample0 = Impl_init default_policy 0 NullEventSink"

definition sample1 :: Impl where
  "sample1 = snd (submit sample_meta 5 sample0)"

definition sample_request :: RequestRec where
  "sample_request = \<lparr>req_id = Id 1, req_meta = sample_meta, req_state = RS_eligible,
     req_current_attempt = Id 1, req_attempts = [Id 1], req_batch = null_id, req_submitted = 5,
     req_sealed_ns = 0, req_key = sample_key, req_in_waiting = True,
     req_authoritative_complete = False\<rparr>"

definition sample_attempt :: AttemptRec where
  "sample_attempt = default_attempt\<lparr>att_id := Id 1, att_number := 1, att_state := RS_eligible\<rparr>"

lemma sample_meta_fields [simp]:
  "m_tenant sample_meta = Id 7" "m_descriptor sample_meta = sample_descriptor"
  "m_tokens sample_meta = \<lparr>tok_input = 0, tok_output = 0\<rparr>" "m_work sample_meta = \<lparr>work_value = 3\<rparr>"
  "m_memory_bytes sample_meta = 0" "m_deadline sample_meta = \<lparr>absolute_ns = 0\<rparr>"
  "m_latency sample_meta = LC_batch" "m_payload sample_meta = []"
  "d_model sample_descriptor = Name ''m''" "d_revision sample_descriptor = Name ''r''"
  "d_phase sample_descriptor = PH_prefill"
  "CompatibilityKey_build sample_descriptor = sample_key"
  by (simp_all add: sample_meta_def default_metadata_def sample_descriptor_def default_descriptor_def
      sample_key_def)

lemmas eval_prims = Let_def find_request_def find_batch_def find_attempt_def upd_request_def
  upd_batch_def upd_attempt_def put_request_def put_batch_def put_attempt_def inc_def emit_def
  flush_def set_forming_def set_waiting_def set_fairness_def dec_forming_now_def std_modify_def
  std_erase_def std_keys_def std_at_def at_batch_def at_request_def at_attempt_def nb_def nr_def
  na_def ng_def resolve_now_def has_deadline_def expired_def index_bucket_def index_add_def
  index_remove_def name_empty_def at_outstanding_cap_def

lemma sample1_fields [simp]:
  "im_policy sample1 = default_policy" "im_clock_now sample1 = 0" "im_epoch sample1 = Id 1"
  "im_next_batch sample1 = 1" "im_next_generation sample1 = 1" "im_next_request sample1 = 2"
  "im_next_attempt sample1 = 2" "im_requests sample1 = [(Id 1, sample_request)]"
  "im_attempts sample1 = [(Id 1, sample_attempt)]" "im_batches sample1 = []"
  "im_forming sample1 = []" "im_sealed_order sample1 = []"
  "im_waiting sample1 = [(sample_key, [Id 1])]"
  "im_workers sample1 = im_workers sample0" "im_ev sample1 = []"
  by (simp_all add: sample1_def sample0_def Impl_init_def submit_def do_submit_def eval_prims
      default_policy_def oversized_def sample_request_def default_request_def default_attempt_def
      sample_attempt_def)

lemma sample_workers:
  "im_workers sample0 = [(Id 0, \<lparr>wk_cap = default_capability\<lparr>cap_worker := Id 0, cap_backend := BK_cpu\<rparr>,
     wk_boot = Id 0, wk_live = True, wk_running = []\<rparr>)]"
  by (simp add: sample0_def Impl_init_def)

section \<open>A tick forms and seals a batch\<close>

lemma plain_iter [simp]: "plat_bucket_iter plain_platform ix = ix"
  by (simp add: plain_platform_def)

lemma sample_expire: "expire_locked plain_platform 6 sample1 = sample1"
  by (simp add: expire_locked_def plain_platform_def past_deadline_def find_request_def
      sample_request_def has_deadline_def forming_members_def)

definition sample_empty :: BatchRec where
  "sample_empty = default_batch\<lparr>bat_id := Id 1, bat_generation := Id 1, bat_epoch := Id 1,
     bat_key := sample_key, bat_formed_ns := 6\<rparr>"

lemma sample_open:
  "open_forming sample_key 6 sample1 = (Id 1, sample1\<lparr>im_next_batch := 2, im_next_generation := 2,
     im_batches := [(Id 1, sample_empty)], im_forming := [(sample_key, Id 1)],
     im_stats := st_forming_now_update (\<lambda>x. x + 1) (im_stats sample1)\<rparr>)"
  by (simp add: open_forming_def forming_record_def eval_prims default_batch_def sample_request_def
      sample_empty_def)

definition sample_filled :: Impl where
  "sample_filled = set_waiting (index_remove sample_key (Id 1))
     (add_member_to_batch (Id 1) (Id 1) (snd (open_forming sample_key 6 sample1)))"

lemma sample_fill:
  "fill_forming plain_platform (Id 1) sample_key 6 (snd (open_forming sample_key 6 sample1)) = sample_filled"
proof -
  let ?s = "snd (open_forming sample_key 6 sample1)"
  have bt: "by_tenant ?s (at_batch ?s (Id 1)) 6 [Id 1] = [(Id 7, [Id 1])]"
    by (simp add: sample_open by_tenant_def group_step_def find_request_def sample_request_def
        may_join_def is_waiting_state_def expired_def has_deadline_def default_policy_def
        at_outstanding_cap_def fits_def allows_add_def std_at_def Let_def)
  have "pick_member plain_platform ?s [(Id 7, [Id 1])] = Id 1"
    by (simp add: pick_member_def select_next_def std_keys_def std_at_def Let_def)
  then have "fill_loop plain_platform (Id 1) sample_key 6 [Id 1] ?s
      = fill_loop plain_platform (Id 1) sample_key 6 [] sample_filled"
    by (subst fill_loop.simps) (simp add: bt Let_def sample_filled_def)
  also have "\<dots> = sample_filled"
    by (subst fill_loop.simps) (simp add: by_tenant_def)
  finally show ?thesis
    by (simp add: fill_forming_def find_batch_def index_bucket_def sample_open)
qed

definition sample_member :: RequestRec where
  "sample_member = sample_request\<lparr>req_state := RS_reserved, req_batch := Id 1, req_in_waiting := False\<rparr>"

definition sample_batch :: BatchRec where
  "sample_batch = sample_empty\<lparr>bat_members := [Id 1], bat_descriptor := sample_descriptor,
     bat_accum := \<lparr>acc_count = 1, acc_input_tokens = 0, acc_output_tokens = 0, acc_work = 3,
       acc_memory = 0\<rparr>, bat_formed_ns := 5\<rparr>"

lemmas eval_sample = sample_batch_def sample_empty_def default_batch_def sample_member_def
  sample_request_def empty_accum_def default_policy_def

definition sample_formed :: Impl where
  "sample_formed = make_forming plain_platform sample_key 6 sample1"

lemma sample_formed_settle: "sample_formed = settle_forming (Id 1) 6 sample_filled"
  using sample_fill by (simp add: sample_formed_def make_forming_def split_beta sample_open)

lemma sample_filled_fields:
  "im_policy sample_filled = default_policy" "im_requests sample_filled = [(Id 1, sample_member)]"
  "im_batches sample_filled = [(Id 1, sample_batch\<lparr>bat_formed_ns := 6\<rparr>)]"
  "im_forming sample_filled = [(sample_key, Id 1)]" "im_attempts sample_filled = [(Id 1, sample_attempt)]"
  "im_sealed_order sample_filled = []" "im_waiting sample_filled = []"
  "im_workers sample_filled = im_workers sample0" "im_epoch sample_filled = Id 1"
  "im_clock_now sample_filled = 0"
  by (simp_all add: sample_filled_def sample_open eval_prims add_member_to_batch_def join_batch_def
      add_usage_def eval_sample)

lemma sample_formed_fields [simp]:
  "im_policy sample_formed = default_policy" "im_requests sample_formed = [(Id 1, sample_member)]"
  "im_batches sample_formed = [(Id 1, sample_batch)]"
  "im_forming sample_formed = [(sample_key, Id 1)]" "im_attempts sample_formed = [(Id 1, sample_attempt)]"
  "im_sealed_order sample_formed = []" "im_waiting sample_formed = []"
  "im_workers sample_formed = im_workers sample0" "im_epoch sample_formed = Id 1"
  "im_clock_now sample_formed = 0"
  by (simp_all add: sample_formed_settle settle_forming_def sample_filled_fields Let_def upd_batch_def
      std_modify_def compute_allowed_wait_def earliest_arrival_def find_request_def has_deadline_def
      eval_sample)

definition sample_sealed :: Impl where
  "sample_sealed = snd (do_seal (Id 1) SR_max_wait_elapsed 6 sample_formed)"

lemma sample_sealed_fields [simp]:
  "im_policy sample_sealed = default_policy"
  "im_requests sample_sealed = [(Id 1, sample_member\<lparr>req_state := RS_batched\<rparr>)]"
  "im_batches sample_sealed = [(Id 1, sample_batch\<lparr>bat_state := BS_sealed, bat_sealed_ns := 6\<rparr>)]"
  "im_forming sample_sealed = []" "im_attempts sample_sealed = [(Id 1, sample_attempt)]"
  "im_sealed_order sample_sealed = [Id 1]" "im_waiting sample_sealed = []"
  "im_workers sample_sealed = im_workers sample0" "im_epoch sample_sealed = Id 1"
  "im_clock_now sample_sealed = 0"
  by (simp_all add: sample_sealed_def do_seal_def eval_prims advance_members_def upd_requests_def
      eval_sample)

lemma sample_tick: "do_tick plain_platform 6 sample1 = Some sample_sealed"
proof -
  have "tick_fill plain_platform 6 (Id 1) ([], sample_formed) = ([Id 1], sample_formed)"
    by (simp add: tick_fill_def find_batch_def fill_forming_def index_bucket_def Let_def upd_batch_def
        std_modify_def compute_allowed_wait_def find_request_def at_batch_def std_at_def has_deadline_def
        decide_def remaining_candidates_def to_former_batch_def eval_sample)
  moreover have "tick_form plain_platform 6 sample_key sample1 = sample_formed"
    by (simp add: tick_form_def sample_formed_def)
  moreover have "tick_seal 6 (Id 1) sample_formed = sample_sealed"
    by (simp add: tick_seal_def sealed_reason_for_def find_batch_def sample_sealed_def)
      (simp add: eval_sample)
  ultimately have u: "tick_until_merge plain_platform 6 sample1 = sample_sealed"
    by (simp add: tick_until_merge_def sample_expire Let_def)
  have "tick_merge sample_sealed = Some sample_sealed"
    by (simp add: tick_merge_def default_policy_def sealed_by_key_def find_batch_def std_at_def)
  moreover have "tick_split 0 sample_sealed = sample_sealed"
    by (simp add: tick_split_def find_batch_def max_worker_batch_size_def sample_workers
        default_capability_def Let_def)
  then have "split_loop 0 sample_sealed = Some sample_sealed"
    by (subst split_loop.simps, simp, subst split_loop.simps, simp)
  ultimately show ?thesis by (simp add: do_tick_def u)
qed

definition sample2 :: Impl where
  "sample2 = flush sample_sealed"

lemma sample2_fields [simp]:
  "im_requests sample2 = [(Id 1, sample_member\<lparr>req_state := RS_batched\<rparr>)]"
  "im_batches sample2 = [(Id 1, sample_batch\<lparr>bat_state := BS_sealed, bat_sealed_ns := 6\<rparr>)]"
  "im_attempts sample2 = [(Id 1, sample_attempt)]" "im_workers sample2 = im_workers sample0"
  "im_policy sample2 = default_policy" "im_epoch sample2 = Id 1" "im_waiting sample2 = []"
  "im_forming sample2 = []" "im_sealed_order sample2 = [Id 1]" "im_clock_now sample2 = 0"
  by (simp_all add: sample2_def)

section \<open>The states are reachable\<close>

lemma spare_small:
  assumes "Id 9 \<notin> set (std_keys (im_requests s))" and "Id 9 \<notin> set (std_keys (im_batches s))"
    and "Id 9 \<notin> set (std_keys (im_attempts s))"
  shows "spare s"
  using assms
  by (auto simp: spare_def unused_def set_keys_dom find_request_def [abs_def] find_batch_def [abs_def]
      find_attempt_def [abs_def] intro!: exI [of _ 9])

lemma sample1_step: "run_call P (Call_submit sample_meta 5) sample0 = Some sample1"
  by (simp add: sample1_def)

lemma sample2_step: "run_call plain_platform (Call_tick 6) sample1 = Some sample2"
  by (simp add: tick_def Let_def resolve_now_def sample_tick sample2_def)

lemma sample_reachable:
  assumes "ok (Call_submit sample_meta 5) sample0" and "ok (Call_tick 6) sample1"
  shows "reachable plain_platform ok default_policy sample1"
    and "reachable plain_platform ok default_policy sample2"
proof -
  have "reachable plain_platform ok default_policy sample0"
    unfolding sample0_def by (rule reach_init)
  then show 1: "reachable plain_platform ok default_policy sample1"
    using assms(1) sample1_step by (rule reach_step) (simp add: spare_small std_keys_def)
  show "reachable plain_platform ok default_policy sample2"
    using 1 assms(2) sample2_step by (rule reach_step) (simp add: spare_small std_keys_def)
qed

end
