(* ===== verification/Sched_Live.thy ===== *)
theory Sched_Live
  imports Scenario
begin

text \<open>
  What the formation part of a tick achieves: filling stops only when nobody in the bucket may
  join, and no batch that has waited as long as allowed is still forming when the tick returns.
\<close>

section \<open>Filling is maximal\<close>

lemma group_step_keeps: "bt \<noteq> [] \<Longrightarrow> group_step s b now i bt \<noteq> []"
  by (simp add: group_step_def split: option.split)

lemma group_steps_keep: "bt \<noteq> [] \<Longrightarrow> fold (group_step s b now) cs bt \<noteq> []"
  by (induction cs arbitrary: bt) (simp_all add: group_step_keeps)

lemma by_tenant_empty:
  assumes "by_tenant s b now cs = []" and "i \<in> set cs" and "find_request s i = Some r"
  shows "\<not> may_join s b now i r"
proof
  assume j: "may_join s b now i r"
  obtain us vs where cs: "cs = us @ i # vs" using assms(2) by (meson split_list)
  have "group_step s b now i bt \<noteq> []" for bt
    using j assms(3) by (simp add: group_step_def)
  then have "by_tenant s b now cs \<noteq> []"
    by (simp add: by_tenant_def cs group_steps_keep)
  with assms(1) show False by simp
qed

text \<open>
  The loop works on a copy of the bucket from which it removes every occurrence of the pick, while
  the index removes one; an entry that stays in the index twice has left the waiting states.
\<close>

lemma fill_loop_maximal:
  fixes P :: Platform and now :: TimePoint and b :: BatchId
  assumes "set (index_ids (im_waiting s) k) \<subseteq> set cs"
  defines "t \<equiv> fill_loop P b k now cs s"
  shows "\<forall>i r. i \<in> set (index_ids (im_waiting t) k) \<longrightarrow> find_request t i = Some r \<longrightarrow>
    \<not> may_join t (at_batch t b) now i r"
  unfolding t_def
proof (rule fill_loop_rule [where I = "\<lambda>cs s. \<forall>i \<in> set (index_ids (im_waiting s) k). i \<in> set cs \<or>
    (\<forall>r. find_request s i = Some r \<longrightarrow> req_state r = RS_reserved)"])
  show "\<forall>i \<in> set (index_ids (im_waiting s) k). i \<in> set cs \<or>
      (\<forall>r. find_request s i = Some r \<longrightarrow> req_state r = RS_reserved)"
    using assms(1) by blast
next
  fix cs s p r
  assume I: "\<forall>i \<in> set (index_ids (im_waiting s) k). i \<in> set cs \<or>
      (\<forall>r. find_request s i = Some r \<longrightarrow> req_state r = RS_reserved)"
    and p: "find_request s p = Some r"
  show "\<forall>i \<in> set (index_ids (im_waiting (set_waiting (index_remove k p) (add_member_to_batch b p s))) k).
      i \<in> set (removeAll p cs) \<or>
      (\<forall>r. find_request (set_waiting (index_remove k p) (add_member_to_batch b p s)) i = Some r \<longrightarrow>
         req_state r = RS_reserved)"
    using I p by (auto simp: add_member_to_batch_def dest!: widx.in_ids_removeD)
next
  fix cs s
  assume I: "\<forall>i \<in> set (index_ids (im_waiting s) k). i \<in> set cs \<or>
      (\<forall>r. find_request s i = Some r \<longrightarrow> req_state r = RS_reserved)"
    and done_: "by_tenant s (at_batch s b) now cs = []"
  show "\<forall>i r. i \<in> set (index_ids (im_waiting s) k) \<longrightarrow> find_request s i = Some r \<longrightarrow>
      \<not> may_join s (at_batch s b) now i r"
    using I by_tenant_empty [OF done_] by (fastforce simp: may_join_def is_waiting_state_def)
qed

lemma fill_forming_maximal:
  assumes "find_batch s b = Some x"
    and "i \<in> set (index_ids (im_waiting (fill_forming P b k now s)) k)"
    and "find_request (fill_forming P b k now s) i = Some r"
  shows "\<not> may_join (fill_forming P b k now s) (at_batch (fill_forming P b k now s) b) now i r"
  using assms fill_loop_maximal [of s k "index_ids (im_waiting s) k" P b now]
  by (auto simp: fill_forming_def index_ids_def split: option.splits)

section \<open>No overdue batch is left forming\<close>

definition overdue :: "TimePoint \<Rightarrow> BatchRec \<Rightarrow> bool" where
  "overdue now x \<longleftrightarrow> bat_allowed_wait_ns x \<noteq> kNoDeadline \<and> now - bat_formed_ns x \<ge> bat_allowed_wait_ns x"

text \<open>A later part of the tick opens no batch and does not touch the ones that stay forming.\<close>

definition forming_kept :: "Impl \<Rightarrow> Impl \<Rightarrow> bool" where
  "forming_kept s t \<longleftrightarrow> map_of (im_forming t) \<subseteq>\<^sub>m map_of (im_forming s) \<and>
     (\<forall>b x. find_batch t b = Some x \<and> bat_state x = BS_forming \<longrightarrow> find_batch s b = Some x)"

lemma forming_kept_refl [simp]: "forming_kept s s"
  by (simp add: forming_kept_def)

lemma forming_kept_trans: "forming_kept s t \<Longrightarrow> forming_kept t u \<Longrightarrow> forming_kept s u"
  unfolding forming_kept_def using map_le_trans by blast

lemma forming_kept_fold: "(\<And>x s. forming_kept s (f x s)) \<Longrightarrow> forming_kept s (fold f xs s)"
  by (induction xs arbitrary: s) (auto intro: forming_kept_trans)

lemma decide_waits: "dec_action (decide p (to_former_batch x) cs now) \<noteq> Act_seal \<Longrightarrow> \<not> overdue now x"
  using decide_overdue [of "to_former_batch x" now p cs] by (auto simp: overdue_def to_former_batch_def)

lemma kept_prims:
  "forming_kept s t \<Longrightarrow> forming_kept s (inc g t)"
  "forming_kept s t \<Longrightarrow> forming_kept s (emit ty rr bb aa tt d t)"
  "forming_kept s t \<Longrightarrow> forming_kept s (t\<lparr>im_sealed_order := ord\<rparr>)"
  "forming_kept s t \<Longrightarrow> forming_kept s (t\<lparr>im_next_batch := n\<rparr>)"
  "forming_kept s t \<Longrightarrow> forming_kept s (assign_batch b ms t)"
  "forming_kept s t \<Longrightarrow> (\<And>x. find_batch t b = Some x \<Longrightarrow> bat_state (f x) \<noteq> BS_forming) \<Longrightarrow>
     forming_kept s (upd_batch b f t)"
  "forming_kept s t \<Longrightarrow> (\<And>x. find_batch t b = Some x \<Longrightarrow> bat_state x \<noteq> BS_forming) \<Longrightarrow>
     forming_kept s (recompute b t)"
  "forming_kept s t \<Longrightarrow> bat_state x \<noteq> BS_forming \<Longrightarrow> forming_kept s (put_batch b x t)"
  by (auto simp: forming_kept_def split: if_splits)

lemma tick_fill_decides:
  assumes "find_batch (snd ts) b = Some x"
  shows "b \<in> set (fst (tick_fill P now b ts)) \<or>
    (\<exists>y. find_batch (snd (tick_fill P now b ts)) b = Some y \<and> \<not> overdue now y)"
proof -
  obtain bs s where ts: "ts = (bs, s)" by force
  obtain y where "find_batch (fill_forming P b (bat_key x) now s) b = Some y"
    using fill_batch assms ts by fastforce
  then show ?thesis
    using assms
    by (auto simp: ts tick_fill_def Let_def at_find dest!: decide_waits)
qed

lemma tick_fill_frame:
  "im_forming (snd (tick_fill P now b ts)) = im_forming (snd ts)"
  "c \<noteq> b \<Longrightarrow> find_batch (snd (tick_fill P now b ts)) c = find_batch (snd ts) c"
  "set (fst ts) \<subseteq> set (fst (tick_fill P now b ts))"
  "find_batch (snd ts) c = None \<Longrightarrow> find_batch (snd (tick_fill P now b ts)) c = None"
  by (auto simp: tick_fill_def Let_def split: prod.split option.split)

lemma tick_fills_decide:
  "\<forall>b \<in> set bs. b \<in> set (fst (fold (tick_fill P now) bs ts)) \<or>
     (\<forall>y. find_batch (snd (fold (tick_fill P now) bs ts)) b = Some y \<longrightarrow> \<not> overdue now y)"
proof (induction bs rule: rev_induct)
  case (snoc b bs)
  let ?t = "fold (tick_fill P now) bs ts"
  have "b \<in> set (fst (tick_fill P now b ?t)) \<or>
      (\<forall>y. find_batch (snd (tick_fill P now b ?t)) b = Some y \<longrightarrow> \<not> overdue now y)"
  proof (cases "find_batch (snd ?t) b")
    case None
    then show ?thesis using tick_fill_frame(4) [OF None] by simp
  next
    case (Some x)
    then show ?thesis using tick_fill_decides by fastforce
  qed
  moreover have "c \<in> set (fst (tick_fill P now b ?t)) \<or>
      (\<forall>y. find_batch (snd (tick_fill P now b ?t)) c = Some y \<longrightarrow> \<not> overdue now y)"
    if "c \<in> set bs" "c \<noteq> b" for c
    using snoc that tick_fill_frame(2,3) by (metis subsetD)
  ultimately show ?case by auto
qed simp

lemma tick_fills_forming: "im_forming (snd (fold (tick_fill P now) bs ts)) = im_forming (snd ts)"
  by (induction bs arbitrary: ts) (simp_all add: tick_fill_frame(1))

lemma map_le_erase: "map_of (std_erase k m) \<subseteq>\<^sub>m map_of m"
  by (simp add: map_of_std_erase map_le_def)

lemma seal_kept: "forming_kept s (tick_seal now b s)"
proof (cases "\<exists>x. find_batch s b = Some x \<and> bat_state x = BS_forming")
  case True
  then obtain x where x: "find_batch s b = Some x" "bat_state x = BS_forming" by blast
  then show ?thesis
    using seal_view [OF x] by (auto simp: tick_seal_def forming_kept_def map_le_erase split: if_splits)
next
  case False
  then show ?thesis by (auto simp: tick_seal_def seal_none split: option.split)
qed

lemma seal_done: "find_batch (tick_seal now b s) b = Some x \<Longrightarrow> bat_state x \<noteq> BS_forming"
  by (auto simp: tick_seal_def do_seal_def Let_def split: option.splits if_splits)

lemma seals_done:
  assumes "b \<in> set bs" and "find_batch (fold (tick_seal now) bs s) b = Some x"
  shows "bat_state x \<noteq> BS_forming"
proof
  assume st: "bat_state x = BS_forming"
  obtain us vs where bs: "bs = us @ b # vs" using assms(1) by (meson split_list)
  let ?u = "tick_seal now b (fold (tick_seal now) us s)"
  have "forming_kept ?u (fold (tick_seal now) vs ?u)" by (rule forming_kept_fold) (rule seal_kept)
  then have "find_batch ?u b = Some x" using assms(2) st by (simp add: bs forming_kept_def)
  then show False using seal_done st by blast
qed

lemma merge_kept:
  assumes inv: "struct_inv s" and "do_merge a b s = Some (c, t)"
    and "\<And>x. find_batch s a = Some x \<Longrightarrow> bat_state x \<noteq> BS_forming"
  shows "forming_kept s t"
proof (cases "\<exists>x y. find_batch s a = Some x \<and> find_batch s b = Some y \<and> can_merge (im_policy s) x y")
  case False
  with assms(2) have "t = s" by (auto simp: do_merge_def split: option.splits if_splits)
  then show ?thesis by simp
next
  case True
  then obtain x y where xy: "find_batch s a = Some x" "find_batch s b = Some y"
    "can_merge (im_policy s) x y" by blast
  have st: "bat_state x = BS_sealed" "bat_state y = BS_sealed"
    using can_merge_same [OF xy(3)] assms(3) [OF xy(1)] by auto
  have "map_of (im_forming s) (bat_key y) \<noteq> Some b"
    using struct_forming [OF inv] xy(2) st by (fastforce simp: fillable_def)
  then show ?thesis
    using assms(2) xy st
    by (auto simp: do_merge_def Let_def intro!: kept_prims split: if_splits)
qed

definition past_forming :: "Impl \<Rightarrow> BatchId \<Rightarrow> bool" where
  "past_forming s b \<longleftrightarrow> (\<forall>x. find_batch s b = Some x \<longrightarrow> bat_state x \<noteq> BS_forming)"

lemma past_forming_kept: "forming_kept s t \<Longrightarrow> past_forming s b \<Longrightarrow> past_forming t b"
  unfolding forming_kept_def past_forming_def by (metis option.inject)

lemma merge_neighbours_kept:
  "struct_inv s \<Longrightarrow> merge_neighbours v s = Some t \<Longrightarrow> \<forall>b \<in> set v. past_forming s b \<Longrightarrow>
     forming_kept s t \<and> struct_inv t"
proof (induction v s rule: merge_neighbours.induct)
  case (1 x y v s)
  show ?case
  proof (cases "st_batches_merged (im_stats s) < ucast (max_merges_per_cycle (pol_merge (im_policy s)))")
    case True
    then obtain c u where u: "do_merge x y s = Some (c, u)" "merge_neighbours (y # v) u = Some t"
      using "1.prems"(2) by (auto split: option.splits)
    have k: "forming_kept s u" "struct_inv u"
      using "1.prems" merge_kept [OF _ u(1)] keep_merge [OF _ u(1)] by (auto simp: past_forming_def)
    then have "forming_kept u t \<and> struct_inv t"
      using "1.IH" [OF True u(1) _ k(2) u(2)] "1.prems"(3) by (auto intro: past_forming_kept)
    then show ?thesis using k(1) forming_kept_trans by blast
  qed (use 1 in auto)
qed auto

lemma merge_groups_kept:
  "struct_inv s \<Longrightarrow> merge_groups vs s = Some t \<Longrightarrow> \<forall>v \<in> set vs. \<forall>b \<in> set v. past_forming s b \<Longrightarrow>
     forming_kept s t"
proof (induction vs arbitrary: s)
  case (Cons v vs)
  then obtain u where u: "merge_neighbours v s = Some u" "merge_groups vs u = Some t"
    by (auto split: option.splits)
  then have k: "forming_kept s u \<and> struct_inv u" using merge_neighbours_kept Cons.prems by auto
  then have "forming_kept u t"
    using Cons.IH u(2) Cons.prems(3) past_forming_kept by (metis list.set_intros(2))
  then show ?case using k forming_kept_trans by blast
qed simp

lemma sealed_groups_sealed:
  assumes "\<And>k v. (k, v) \<in> set m \<Longrightarrow> \<forall>b \<in> set v. past_forming s b"
  shows "(k, v) \<in> set (fold (\<lambda>b m. case find_batch s b of None \<Rightarrow> m
      | Some x \<Rightarrow> if bat_state x = BS_sealed
          then std_insert (bat_key x) (std_at [] (bat_key x) m @ [b]) m else m) xs m) \<Longrightarrow>
    \<forall>b \<in> set v. past_forming s b"
  using assms
proof (induction xs arbitrary: m)
  case (Cons b xs)
  have at: "\<forall>b \<in> set (std_at [] k m). past_forming s b" for k
    using Cons.prems(2) [of k] by (cases "map_of m k") (auto simp: std_at_def dest: map_of_SomeD)
  show ?case
    using Cons.prems at
    by (intro Cons.IH [where m = "case find_batch s b of None \<Rightarrow> m
        | Some x \<Rightarrow> if bat_state x = BS_sealed
            then std_insert (bat_key x) (std_at [] (bat_key x) m @ [b]) m else m"])
      (fastforce simp: past_forming_def dest!: in_std_insertD split: option.splits if_splits)+
qed auto

lemma tick_merge_kept: "struct_inv s \<Longrightarrow> tick_merge s = Some t \<Longrightarrow> forming_kept s t"
  using merge_groups_kept [of s "map snd (sealed_by_key s)" t] sealed_groups_sealed [of "[]" s]
  by (fastforce simp: tick_merge_def sealed_by_key_def split: if_splits)

lemma split_child_kept:
  assumes "find_batch s b = Some x" and "bat_state x \<noteq> BS_forming" and "b \<noteq> Id (im_next_batch s)"
  shows "forming_kept s (snd (split_child b x s))"
  using assms by (auto simp: split_child_def nb_def Let_def intro!: kept_prims)

lemma resealed_kept:
  assumes "forming_kept s t" and "\<And>x. find_batch t c = Some x \<Longrightarrow> bat_state x \<noteq> BS_forming"
  shows "forming_kept s (split_resealed b c ms reason t)"
  using assms
  by (auto simp: split_resealed_def nb_def Let_def intro!: kept_prims split: if_splits)

lemma split_kept:
  assumes "struct_inv s" and "find_batch s b = Some x" and "bat_state x = BS_sealed"
  shows "forming_kept s (snd (do_split b reason s))"
proof (cases "length (bat_members x) div 2 = 0")
  case False
  let ?t = "snd (split_child b x s)"
  note v = split_child_view [OF assms(1,2)]
  have "forming_kept s ?t"
    using assms struct_fresh_batch [OF assms(1)] by (intro split_child_kept) auto
  moreover have "bat_state (at_batch ?t b) = BS_sealed"
    using v(1) assms(3) by (auto simp: at_find)
  moreover have "\<And>y. find_batch ?t (Id (im_next_batch s)) = Some y \<Longrightarrow> bat_state y \<noteq> BS_forming"
    using v(2) assms(3) by auto
  ultimately show ?thesis
    using assms(2,3) False
    by (auto simp: do_split_def Let_def is_batch_terminal_def split_beta split_child_fst
        intro!: kept_prims resealed_kept)
qed (use assms in \<open>simp add: do_split_def\<close>)

lemma tick_split_kept: "struct_inv s \<Longrightarrow> forming_kept s (tick_split i s)"
  by (auto simp: tick_split_def Let_def struct_bat_id intro: split_kept split: option.split)

text \<open>The tick, phase by phase.\<close>

lemma split_loop_kept:
  assumes inv: "struct_inv s" and "split_loop i s = Some t" and sp: "spare t"
  shows "forming_kept s t"
proof -
  have t: "t = fold tick_split [i..<length (im_sealed_order s)] s"
    using split_loop_total [OF own_ids_struct [OF inv]] assms(2) by simp
  have "struct_inv s \<and> spare (fold tick_split is s) \<longrightarrow> forming_kept s (fold tick_split is s)" for "is"
  proof (induction "is" arbitrary: s)
    case (Cons i "is")
    show ?case
    proof
      assume a: "struct_inv s \<and> spare (fold tick_split (i # is) s)"
      then have "spare (tick_split i s)"
        using spare_grows grow_fold [of tick_split "tick_split i s" "is"] grow_tick_split by fastforce
      then have "struct_inv (tick_split i s)" using a keep_tick_split by blast
      then show "forming_kept s (fold tick_split (i # is) s)"
        using a Cons.IH [of "tick_split i s"] forming_kept_trans [OF tick_split_kept [of s i]] by auto
    qed
  qed simp
  then show ?thesis using inv sp t by simp
qed

lemma until_merge_not_overdue:
  assumes "map_of (im_forming (tick_until_merge P now s)) k = Some b"
    and "find_batch (tick_until_merge P now s) b = Some x" and "bat_state x = BS_forming"
  shows "\<not> overdue now x"
proof -
  define s1 where "s1 = expire_locked P now s"
  define s2 where "s2 = fold (tick_form P now) (map fst (plat_bucket_iter P (im_waiting s1))) s1"
  obtain bs s3 where s3: "fold (tick_fill P now) (map snd (im_forming s2)) ([], s2) = (bs, s3)" by force
  have u: "tick_until_merge P now s = fold (tick_seal now) bs s3"
    by (simp add: tick_until_merge_def s1_def [symmetric] s2_def [symmetric] s3)
  have "forming_kept s3 (fold (tick_seal now) bs s3)" by (rule forming_kept_fold) (rule seal_kept)
  then have 1: "map_of (im_forming s3) k = Some b" "find_batch s3 b = Some x"
    using assms by (auto simp: u forming_kept_def map_le_def dom_def)
  moreover have "b \<notin> set bs" using seals_done assms(2,3) u by metis
  moreover have "b \<in> set (map snd (im_forming s2))"
    using 1(1) tick_fills_forming [of P now "map snd (im_forming s2)" "([], s2)"] s3
    by (force dest!: map_of_SomeD)
  ultimately show ?thesis
    using tick_fills_decide [of "map snd (im_forming s2)" P now "([], s2)"] s3 by auto
qed

lemma tick_not_overdue:
  assumes inv: "struct_inv s" and "do_tick P now s = Some t" and "spare t"
    and "map_of (im_forming t) k = Some b" and "find_batch t b = Some x" and "bat_state x = BS_forming"
  shows "\<not> overdue now x"
proof -
  let ?u = "tick_until_merge P now s"
  have "struct_inv ?u"
    using tick_until_merge_run [OF inv] spare_grows [OF assms(3) grow_after_merge [OF assms(2)]] by blast
  moreover obtain v where v: "tick_merge ?u = Some v" "split_loop 0 v = Some t"
    using assms(2) by (auto simp: do_tick_def split: option.splits)
  ultimately have "forming_kept ?u v" "struct_inv v"
    using tick_merge_kept tick_merge_run by fastforce+
  then have "forming_kept ?u t"
    using split_loop_kept [OF _ v(2) assms(3)] forming_kept_trans by blast
  then show ?thesis
    using until_merge_not_overdue [of P now s k b x] assms(4-6)
    by (auto simp: forming_kept_def map_le_def dom_def)
qed

end
