(* ===== verification/Scenario_Wait.thy ===== *)
theory Scenario_Wait
  imports Scenario
begin

text \<open>
  The run of \<open>Scenario\<close> under a policy with limits that prefers two requests per batch and lets a
  batch wait 100 ns: the tick forms a batch for the only request and leaves it forming.
\<close>

definition patient_policy :: BatchPolicy where
  "patient_policy = default_policy\<lparr>pol_constraints := (pol_constraints default_policy)
     \<lparr>budget := small_budget, global_max_wait_ns := 100, minimum_preferred_batch := 2\<rparr>\<rparr>"

definition patient1 :: Impl where
  "patient1 = snd (submit sample_meta 5 (Impl_init patient_policy 0 NullEventSink))"

lemma patient_policy_fields [simp]:
  "pol_fairness patient_policy = pol_fairness default_policy"
  "pol_wait patient_policy = pol_wait default_policy"
  "pol_merge patient_policy = pol_merge default_policy"
  "budget (pol_constraints patient_policy) = small_budget"
  "global_max_wait_ns (pol_constraints patient_policy) = 100"
  "minimum_preferred_batch (pol_constraints patient_policy) = 2"
  by (simp_all add: patient_policy_def)

lemma patient1_fields [simp]:
  "im_policy patient1 = patient_policy" "im_clock_now patient1 = 0" "im_epoch patient1 = Id 1"
  "im_next_batch patient1 = 1" "im_next_generation patient1 = 1"
  "im_requests patient1 = [(Id 1, sample_request)]"
  "im_attempts patient1 = [(Id 1, sample_attempt)]" "im_batches patient1 = []"
  "im_forming patient1 = []" "im_sealed_order patient1 = []"
  "im_waiting patient1 = [(sample_key, [Id 1])]" "im_workers patient1 = im_workers sample0"
  by (simp_all add: patient1_def sample0_def Impl_init_def submit_def do_submit_def eval_prims
      default_policy_def small_budget_def oversized_def sample_request_def default_request_def
      default_attempt_def sample_attempt_def)

definition patient_open :: Impl where
  "patient_open = snd (open_forming sample_key 6 patient1)"

lemma patient_open_fields [simp]:
  "fst (open_forming sample_key 6 patient1) = Id 1"
  "im_policy patient_open = patient_policy" "im_requests patient_open = [(Id 1, sample_request)]"
  "im_batches patient_open = [(Id 1, sample_empty)]" "im_forming patient_open = [(sample_key, Id 1)]"
  "im_attempts patient_open = [(Id 1, sample_attempt)]" "im_sealed_order patient_open = []"
  "im_waiting patient_open = [(sample_key, [Id 1])]" "im_workers patient_open = im_workers sample0"
  by (simp_all add: patient_open_def open_forming_def forming_record_def eval_prims default_batch_def
      sample_request_def sample_empty_def)

definition patient_filled :: Impl where
  "patient_filled = set_waiting (index_remove sample_key (Id 1)) (add_member_to_batch (Id 1) (Id 1) patient_open)"

lemma patient_fill: "fill_forming plain_platform (Id 1) sample_key 6 patient_open = patient_filled"
proof -
  have bt: "by_tenant patient_open (at_batch patient_open (Id 1)) 6 [Id 1] = [(Id 7, [Id 1])]"
    by (simp add: by_tenant_def group_step_def find_request_def sample_request_def may_join_def
        is_waiting_state_def expired_def has_deadline_def default_policy_def at_outstanding_cap_def
        fits_def allows_add_def std_at_def Let_def small_budget_def to_former_batch_def to_candidate_def
        at_batch_def sample_empty_def default_batch_def empty_accum_def)
  have "pick_member plain_platform patient_open [(Id 7, [Id 1])] = Id 1"
    by (simp add: pick_member_def select_next_def std_keys_def std_at_def Let_def)
  then have "fill_loop plain_platform (Id 1) sample_key 6 [Id 1] patient_open
      = fill_loop plain_platform (Id 1) sample_key 6 [] patient_filled"
    by (subst fill_loop.simps) (simp add: bt Let_def patient_filled_def)
  also have "\<dots> = patient_filled"
    by (subst fill_loop.simps) (simp add: by_tenant_def)
  finally show ?thesis
    by (simp add: fill_forming_def find_batch_def index_bucket_def)
qed

definition patient_formed :: Impl where
  "patient_formed = make_forming plain_platform sample_key 6 patient1"

lemma patient_formed_settle: "patient_formed = settle_forming (Id 1) 6 patient_filled"
  using patient_fill by (simp add: patient_formed_def make_forming_def split_beta patient_open_def [symmetric])

lemma patient_filled_fields:
  "im_policy patient_filled = patient_policy" "im_requests patient_filled = [(Id 1, sample_member)]"
  "im_batches patient_filled = [(Id 1, sample_batch\<lparr>bat_formed_ns := 6\<rparr>)]"
  "im_forming patient_filled = [(sample_key, Id 1)]" "im_attempts patient_filled = [(Id 1, sample_attempt)]"
  "im_sealed_order patient_filled = []" "im_waiting patient_filled = []"
  "im_workers patient_filled = im_workers sample0"
  by (simp_all add: patient_filled_def eval_prims add_member_to_batch_def join_batch_def
      add_usage_def eval_sample)

lemma patient_formed_fields [simp]:
  "im_policy patient_formed = patient_policy" "im_requests patient_formed = [(Id 1, sample_member)]"
  "im_batches patient_formed = [(Id 1, sample_batch\<lparr>bat_allowed_wait_ns := 100\<rparr>)]"
  "im_forming patient_formed = [(sample_key, Id 1)]" "im_attempts patient_formed = [(Id 1, sample_attempt)]"
  "im_sealed_order patient_formed = []" "im_waiting patient_formed = []"
  "im_workers patient_formed = im_workers sample0"
  by (simp_all add: patient_formed_settle settle_forming_def patient_filled_fields Let_def upd_batch_def
      std_modify_def compute_allowed_wait_def earliest_arrival_def find_request_def has_deadline_def
      kNoDeadline_def eval_sample)

lemma patient_tick: "do_tick plain_platform 6 patient1 = Some patient_formed"
proof -
  have e: "expire_locked plain_platform 6 patient1 = patient1"
    by (simp add: expire_locked_def plain_platform_def past_deadline_def find_request_def
        sample_request_def has_deadline_def forming_members_def)
  have "patient_formed\<lparr>im_batches := im_batches patient_formed\<rparr> = patient_formed" by simp
  then have same: "patient_formed\<lparr>im_batches := [(Id 1, sample_batch\<lparr>bat_allowed_wait_ns := 100\<rparr>)]\<rparr> = patient_formed"
    by (simp only: patient_formed_fields)
  have two: "\<not> (2 :: u32) \<le> 1" "\<not> (4 :: u32) \<le> 1" by (simp_all add: word_le_nat_alt)
  have "tick_fill plain_platform 6 (Id 1) ([], patient_formed) = ([], patient_formed)"
    using same two
    by (simp add: tick_fill_def find_batch_def fill_forming_def index_bucket_def Let_def upd_batch_def
        std_modify_def compute_allowed_wait_def find_request_def at_batch_def std_at_def has_deadline_def
        decide_def remaining_candidates_def to_former_batch_def kNoDeadline_def small_budget_def
        eval_sample)
  moreover have "tick_form plain_platform 6 sample_key patient1 = patient_formed"
    by (simp add: tick_form_def patient_formed_def)
  ultimately have u: "tick_until_merge plain_platform 6 patient1 = patient_formed"
    by (simp add: tick_until_merge_def e Let_def)
  have "tick_merge patient_formed = Some patient_formed"
    by (simp add: tick_merge_def default_policy_def sealed_by_key_def)
  moreover have "split_loop 0 patient_formed = Some patient_formed"
    by (subst split_loop.simps) simp
  ultimately show ?thesis by (simp add: do_tick_def u)
qed

lemma patient_reachable:
  assumes "ok (Call_submit sample_meta 5) (Impl_init patient_policy 0 NullEventSink)"
  shows "reachable plain_platform ok patient_policy patient1"
    and "ok (Call_tick 6) patient1 \<Longrightarrow> reachable plain_platform ok patient_policy (flush patient_formed)"
proof -
  have step: "run_call plain_platform (Call_submit sample_meta 5) (Impl_init patient_policy 0 NullEventSink)
      = Some patient1"
    by (simp add: patient1_def)
  show 1: "reachable plain_platform ok patient_policy patient1"
    by (rule reach_step [OF reach_init _ step]) (simp_all add: assms spare_small std_keys_def)
  have tick: "run_call plain_platform (Call_tick 6) patient1 = Some (flush patient_formed)"
    by (simp add: tick_def Let_def resolve_now_def patient_tick)
  show "ok (Call_tick 6) patient1 \<Longrightarrow> reachable plain_platform ok patient_policy (flush patient_formed)"
    by (rule reach_step [OF 1 _ tick]) (simp_all add: spare_small std_keys_def)
qed

end
