(* ===== verification/Sched_Props.thy ===== *)
theory Sched_Props
  imports Sched_Live Scenario_Wait
begin

text \<open>
  Properties of the scheduler that hold in every reachable state, whatever the callers do, and of
  its single operations. The witnesses apply them to the states of \<open>Scenario\<close>.
\<close>

lemma sample_any:
  "reachable plain_platform any_call default_policy sample1"
  "reachable plain_platform any_call default_policy sample2"
  by (simp_all add: sample_reachable any_call_def)

lemma sample2_batch: "find_batch sample2 (Id 1) = Some (sample_batch\<lparr>bat_state := BS_sealed, bat_sealed_ns := 6\<rparr>)"
  by (simp add: find_batch_def)

lemma sample_batch_fields [simp]:
  "bat_members sample_batch = [Id 1]" "bat_key sample_batch = sample_key" "bat_id sample_batch = Id 1"
  "bat_state sample_batch = BS_forming" "bat_generation sample_batch = Id 1" "bat_epoch sample_batch = Id 1"
  by (simp_all add: sample_batch_def sample_empty_def default_batch_def)

section \<open>The run continued: dispatch and completion\<close>

definition sample_report :: BatchCompletion where
  "sample_report = \<lparr>comp_worker = Id 0, comp_boot = Id 0, comp_epoch = Id 1, comp_generation = Id 1,
     comp_batch = Id 1, comp_members = [\<lparr>mc_request = Id 1, mc_attempt = Id 1, mc_status = CS_success,
       mc_result = ''out'', mc_error_code = EC_ok, mc_error_message = []\<rparr>]\<rparr>"

definition sample3 :: Impl where
  "sample3 = snd (prepare_dispatch (Id 1) (Id 0) (Id 0) 7 sample2)"

definition sample4 :: Impl where
  "sample4 = snd (complete sample_report 8 sample3)"

lemma sample_worker_current: "im_workers s = im_workers sample0 \<Longrightarrow> worker_current s (Id 0) (Id 0)"
  by (simp add: worker_current_def sample_workers)

lemma sample3_fields [simp]:
  "im_requests sample3 = [(Id 1, sample_member\<lparr>req_state := RS_dispatched\<rparr>)]"
  "im_batches sample3 = [(Id 1, sample_batch\<lparr>bat_state := BS_dispatched, bat_sealed_ns := 6,
     bat_dispatched_ns := 7, bat_worker := Id 0, bat_boot := Id 0\<rparr>)]"
  "im_attempts sample3 = [(Id 1, sample_attempt)]" "im_workers sample3 = im_workers sample0"
  "im_policy sample3 = default_policy" "im_epoch sample3 = Id 1" "im_waiting sample3 = []"
  "im_forming sample3 = []" "im_sealed_order sample3 = [Id 1]" "im_clock_now sample3 = 0"
  by (simp_all add: sample3_def prepare_dispatch_def do_prepare_dispatch_def sample_worker_current
      mark_dispatched_def advance_members_def upd_requests_def eval_prims)

lemma sample4_fields [simp]:
  "im_requests sample4 = [(Id 1, sample_member\<lparr>req_state := RS_completed, req_authoritative_complete := True\<rparr>)]"
  "im_attempts sample4 = [(Id 1, (end_attempt RS_completed CS_success 8 sample_attempt)\<lparr>att_result := ''out''\<rparr>)]"
  by (simp_all add: sample4_def complete_def do_complete_def sample_worker_current sample_report_def
      complete_member_def apply_member_outcome_def apply_success_def record_outcome_def record_result_def
      close_batch_def all_terminal_def eval_prims sample_attempt_def default_attempt_def end_attempt_def eval_sample)

lemma sample3_step: "run_call P (Call_prepare_dispatch (Id 1) (Id 0) (Id 0) 7) sample2 = Some sample3"
  by (simp add: sample3_def)

lemma sample4_step: "run_call P (Call_complete sample_report 8) sample3 = Some sample4"
  by (simp add: sample4_def)

lemma sample4_batches:
  "std_keys (im_batches sample4) = [Id 1]" "map_option bat_state (find_batch sample4 (Id 1)) = Some BS_completed"
  by (simp_all add: sample4_def complete_def do_complete_def sample_worker_current sample_report_def
      complete_member_def apply_member_outcome_def apply_success_def record_outcome_def record_result_def
      close_batch_def all_terminal_def is_request_terminal_def eval_prims sample_attempt_def
      default_attempt_def eval_sample)

lemma sample4_spare: "spare sample4"
  by (rule spare_small) (simp_all add: sample4_batches, simp_all add: std_keys_def)

lemma sample34_reachable:
  "reachable plain_platform any_call default_policy sample3"
  "reachable plain_platform any_call default_policy sample4"
proof -
  show 3: "reachable plain_platform any_call default_policy sample3"
    using sample_any(2) _ sample3_step
    by (rule reach_step) (simp_all add: any_call_def spare_small std_keys_def)
  show "reachable plain_platform any_call default_policy sample4"
    using reach_step [OF 3 _ sample4_step sample4_spare] by (simp add: any_call_def)
qed

section \<open>Membership and the structure of the state\<close>

text \<open>
  C3: in every reachable state, whatever calls were made, every member of every batch is a known
  request, and the compatibility key built from its descriptor is the key of the batch.
\<close>

theorem members_always_compatible:
  assumes "reachable P ok p s" and "find_batch s b = Some x" and "m \<in> set (bat_members x)"
  shows "\<exists>r. find_request s m = Some r \<and> CompatibilityKey_build (m_descriptor (req_meta r)) = bat_key x"
proof -
  have inv: "struct_inv s" using assms(1) by (rule reachable_struct)
  obtain r where "find_request s m = Some r" "req_key r = bat_key x"
    using struct_members [OF inv assms(2,3)] by (auto simp: has_key_def)
  then show ?thesis using inv by (auto simp: inv_defs)
qed

theorem members_always_compatible_witness:
  "\<exists>r. find_request sample2 (Id 1) = Some r \<and>
     CompatibilityKey_build (m_descriptor (req_meta r)) = sample_key"
  using members_always_compatible [OF sample_any(2) sample2_batch, of "Id 1"] by simp

text \<open>
  C13: in every reachable state the request, batch and attempt ids in use are exactly those below
  the next id; every record is stored under its own id; the forming table names for each key a
  batch with that key that can still be filled; the order of sealed batches lists no batch twice
  and none that is forming; and every waiting entry is a request with the key of its bucket.
\<close>

theorem scheduler_tables_consistent:
  assumes "reachable P ok p s"
  shows "(\<forall>v. (find_request s (Id v) \<noteq> None \<longleftrightarrow> 0 < v \<and> v < im_next_request s) \<and>
        (find_batch s (Id v) \<noteq> None \<longleftrightarrow> 0 < v \<and> v < im_next_batch s) \<and>
        (find_attempt s (Id v) \<noteq> None \<longleftrightarrow> 0 < v \<and> v < im_next_attempt s)) \<and>
      (\<forall>i r. find_request s i = Some r \<longrightarrow> req_id r = i \<and> find_attempt s (req_current_attempt r) \<noteq> None) \<and>
      (\<forall>b x. find_batch s b = Some x \<longrightarrow> bat_id x = b) \<and>
      (\<forall>k b. map_of (im_forming s) k = Some b \<longrightarrow>
        (\<exists>x. find_batch s b = Some x \<and> bat_key x = k \<and> fillable (bat_state x))) \<and>
      distinct (im_sealed_order s) \<and>
      (\<forall>b \<in> set (im_sealed_order s). \<exists>x. find_batch s b = Some x \<and> bat_state x \<noteq> BS_forming) \<and>
      (\<forall>k. \<forall>i \<in> set (index_ids (im_waiting s) k). \<exists>r. find_request s i = Some r \<and> req_key r = k)"
  using reachable_struct [OF assms] by (auto simp: inv_defs dense_def dom_def)

theorem scheduler_tables_consistent_witness:
  "find_batch sample2 (Id 1) \<noteq> None \<and> find_batch sample2 (Id (im_next_batch sample2)) = None \<and>
     distinct (im_sealed_order sample2) \<and> im_sealed_order sample2 = [Id 1]"
proof -
  note ok = scheduler_tables_consistent [OF sample_any(2)]
  show ?thesis
    using ok [THEN conjunct1, rule_format, of "im_next_batch sample2"] ok sample2_batch by simp
qed

section \<open>Every call returns\<close>

text \<open>
  C4: in a reachable state a tick returns if its formation part leaves an id unused; an in-process
  dispatch always returns, also when the executor fails; and so does a merge of two different
  batches. The loops end and no missing record is dereferenced.
\<close>

theorem calls_return:
  assumes "reachable P ok p s"
  shows "(spare (tick_until_merge P (resolve_now s now) s) \<longrightarrow> tick P now s \<noteq> None) \<and>
    dispatch_and_run b ex now s \<noteq> None \<and> (a \<noteq> c \<longrightarrow> merge a c reason now s \<noteq> None)"
proof -
  have inv: "struct_inv s" using assms by (rule reachable_struct)
  have "tick P now s \<noteq> None" if "spare (tick_until_merge P (resolve_now s now) s)"
    using tick_run [OF inv that] by (auto simp: tick_def Let_def)
  moreover have "dispatch_and_run b ex now s \<noteq> None"
    using dispatch_run_defined [OF inv] by (auto simp: dispatch_and_run_def)
  ultimately show ?thesis
    using merge_defined [of a c s] by (auto simp: merge_def)
qed

lemma sample2_spare: "spare (tick_until_merge plain_platform 6 sample1)"
  by (simp add: spare_small spare_grows [OF _ grow_after_merge [OF sample_tick]] std_keys_def)

theorem calls_return_witness:
  "tick plain_platform 6 sample1 \<noteq> None \<and> merge (Id 1) (Id 2) MR_policy 6 sample1 \<noteq> None"
  using calls_return [OF sample_any(1), of 6 _ _ "Id 1" "Id 2"] sample2_spare by (simp add: resolve_now_def)



section \<open>Formation\<close>

text \<open>
  C14: when a batch has been filled, no request left in the bucket of its key may join it: each is
  no longer waiting, expired, over a tenant cap or over the batch budget.
\<close>

theorem fill_stops_only_when_nobody_fits:
  assumes "find_batch s b = Some x"
    and "i \<in> set (index_ids (im_waiting (fill_forming P b k now s)) k)"
    and "find_request (fill_forming P b k now s) i = Some r"
  shows "\<not> may_join (fill_forming P b k now s) (at_batch (fill_forming P b k now s) b) now i r"
  using assms by (rule fill_forming_maximal)

definition tight_policy :: BatchPolicy where
  "tight_policy = default_policy\<lparr>pol_constraints := (pol_constraints default_policy)
     \<lparr>budget := (budget (pol_constraints default_policy))\<lparr>max_work := 2\<rparr>\<rparr>\<rparr>"

theorem fill_stops_only_when_nobody_fits_witness:
  "\<exists>s r. find_batch s (Id 1) \<noteq> None \<and> index_ids (im_waiting s) sample_key = [Id 1] \<and>
     find_request s (Id 1) = Some r \<and> is_waiting_state (req_state r) \<and>
     \<not> may_join s (at_batch s (Id 1)) 6 (Id 1) r"
proof -
  define s where "s = (snd (open_forming sample_key 6 sample1))\<lparr>im_policy := tight_policy\<rparr>"
  have f: "find_batch s (Id 1) = Some sample_empty" "find_request s (Id 1) = Some sample_request"
    "index_ids (im_waiting s) sample_key = [Id 1]"
    by (simp_all add: s_def sample_open find_batch_def find_request_def index_ids_def index_bucket_def)
  have "by_tenant s (at_batch s (Id 1)) 6 [Id 1] = []"
    using f by (simp add: by_tenant_def group_step_def may_join_def fits_def allows_add_def at_find
        to_former_batch_def to_candidate_def s_def tight_policy_def default_policy_def sample_request_def
        sample_empty_def default_batch_def empty_accum_def)
  then have "fill_forming plain_platform (Id 1) sample_key 6 s = s"
    by (simp add: fill_forming_def f fill_loop.simps s_def sample_open index_bucket_def split: option.split)
  then show ?thesis
    using fill_stops_only_when_nobody_fits [of s "Id 1" sample_empty "Id 1" plain_platform sample_key 6 sample_request] f
    by (auto simp: sample_request_def is_waiting_state_def)
qed



section \<open>Submission and cancellation\<close>

text \<open>The state a submitted request is left in, by the outcome of the submission.\<close>

fun submitted_state :: "AdmissionDecision \<Rightarrow> RequestState" where
  "submitted_state AD_admitted = RS_eligible"
| "submitted_state AD_expired = RS_expired"
| "submitted_state AD_oversized = RS_rejected"
| "submitted_state _ = RS_waiting"

text \<open>
  C18: a submission answers with a decision and changes no batch and no other request. Unless the
  descriptor has no model or revision, the request is recorded under a new id in the state that
  belongs to the decision. Exactly the admitted request is appended to the waiting bucket of its
  key; all other buckets stay as they are.
\<close>

theorem submit_effect:
  assumes "reachable P ok p s" and "do_submit meta now s = (res, t)"
  shows "\<exists>out. res = Inr out \<and> im_batches t = im_batches s \<and>
    (\<forall>k. index_ids (im_waiting t) k = index_ids (im_waiting s) k @
       (if so_admission out = AD_admitted \<and> k = CompatibilityKey_build (m_descriptor meta)
        then [so_request out] else [])) \<and>
    (if name_empty (d_model (m_descriptor meta)) \<or> name_empty (d_revision (m_descriptor meta))
     then so_admission out = AD_rejected \<and> find_request t = find_request s
     else find_request s (so_request out) = None \<and>
       (\<exists>r. find_request t = (find_request s)(so_request out \<mapsto> r) \<and> req_meta r = meta \<and>
          req_submitted r = now \<and> req_state r = submitted_state (so_admission out)))"
  using assms(2) struct_fresh_request [OF reachable_struct [OF assms(1)]]
  by (auto simp: do_submit_def nr_def na_def Let_def fun_eq_iff at_find widx.ids_add split: if_splits)

theorem submit_effect_witness:
  "\<exists>out t. do_submit sample_meta 9 sample1 = (Inr out, t) \<and>
     index_ids (im_waiting t) sample_key = Id 1 # (if so_admission out = AD_admitted then [so_request out] else []) \<and>
     find_request sample1 (so_request out) = None"
proof -
  obtain res t where "do_submit sample_meta 9 sample1 = (res, t)" by force
  then show ?thesis
    using submit_effect [OF sample_any(1), of sample_meta 9 res t]
    by (auto simp: index_ids_def [of "[(sample_key, [Id 1])]"] index_bucket_def name_empty_def)
qed

text \<open>
  C17: a cancellation is all or nothing. If it answers with an error, the state is unchanged, and
  the error tells an unknown request from one that cannot be cancelled any more. If it succeeds,
  the request was known and not finished, it is cancelled now and so is its current attempt, no
  other request changes, and it is no member of its batch any more if that batch is forming.
\<close>

theorem cancel_all_or_nothing:
  assumes "do_cancel i reason now s = (res, t)"
  shows "case res of
      Inl e \<Rightarrow> t = s \<and> err_code e = (if find_request s i = None then EC_not_found else EC_invalid_state)
    | Inr _ \<Rightarrow> (\<exists>r. find_request s i = Some r \<and> \<not> is_request_terminal (req_state r) \<and>
        map_option req_state (find_request t i) = Some RS_cancelled \<and>
        (\<forall>j. j \<noteq> i \<longrightarrow> find_request t j = find_request s j) \<and>
        find_attempt t (req_current_attempt r)
          = map_option (end_attempt RS_cancelled CS_cancelled now) (find_attempt s (req_current_attempt r)) \<and>
        (\<forall>b. find_batch t (req_batch r) = Some b \<and> bat_state b = BS_forming \<and> in_batch_state (req_state r)
           \<longrightarrow> i \<notin> set (bat_members b)))"
  using assms
  by (auto simp: do_cancel_def Let_def remove_member_def Result_err_def split: option.splits if_splits)

theorem cancel_all_or_nothing_witness:
  "find_request (snd (do_cancel (Id 4) CR_client_request 8 sample1)) = find_request sample1 \<and>
     map_option req_state (find_request (snd (do_cancel (Id 1) CR_client_request 8 sample1)) (Id 1))
       = Some RS_cancelled"
proof -
  have 1: "fst (do_cancel (Id 4) CR_client_request 8 sample1) = Result_err EC_not_found ''request not found''"
    by (simp add: do_cancel_def find_request_def)
  have 2: "fst (do_cancel (Id 1) CR_client_request 8 sample1) = Inr ()"
    by (simp add: do_cancel_def find_request_def sample_request_def is_request_terminal_def
        in_batch_state_def Let_def)
  show ?thesis
    using cancel_all_or_nothing [OF prod.collapse [symmetric], of "Id 4" CR_client_request 8 sample1]
      cancel_all_or_nothing [OF prod.collapse [symmetric], of "Id 1" CR_client_request 8 sample1] 1 2
    by (auto simp: Result_err_def)
qed

section \<open>Completion\<close>

text \<open>
  C15: a completion report with the wrong epoch, an unknown, dead or restarted worker, an unknown
  batch, the wrong generation or a batch that is not in flight is answered with an error and
  changes no request, attempt, batch, worker or waiting entry.
\<close>

theorem stale_completion_changes_nothing:
  assumes "\<not> completion_current s cmp"
  shows "\<exists>c m. fst (do_complete cmp now s) = Result_err c m \<and>
    im_requests (snd (do_complete cmp now s)) = im_requests s \<and>
    im_attempts (snd (do_complete cmp now s)) = im_attempts s \<and>
    im_batches (snd (do_complete cmp now s)) = im_batches s \<and>
    im_workers (snd (do_complete cmp now s)) = im_workers s \<and>
    im_waiting (snd (do_complete cmp now s)) = im_waiting s \<and>
    im_forming (snd (do_complete cmp now s)) = im_forming s \<and>
    im_sealed_order (snd (do_complete cmp now s)) = im_sealed_order s"
proof -
  obtain c m where "fst (do_complete cmp now s) = Result_err c m"
    using complete_stale(1) [OF assms] by blast
  then show ?thesis using complete_stale(2) [OF assms, of now] by auto
qed

theorem stale_completion_changes_nothing_witness:
  "im_requests (snd (do_complete (sample_report\<lparr>comp_epoch := Id 2\<rparr>) 8 sample2)) = im_requests sample2"
  using stale_completion_changes_nothing [of sample2 "sample_report\<lparr>comp_epoch := Id 2\<rparr>" 8]
  by (auto simp: completion_current_def)

text \<open>An attempt that has its outcome.\<close>

definition finished :: "AttemptRec \<Rightarrow> bool" where
  "finished a \<longleftrightarrow> att_state a = RS_completed \<or> att_state a = RS_cancelled \<or> att_state a = RS_expired \<or>
     att_state a = RS_failed"

lemma struct_fresh_attempt: "struct_inv s \<Longrightarrow> find_attempt s (Id (im_next_attempt s)) = None"
  by (auto simp: inv_defs dense_def dom_def)

lemma outcome_other_attempts:
  assumes "find_attempt s k = Some a" and "k \<noteq> aid" and "k \<noteq> Id (im_next_attempt s)"
  shows "find_attempt (apply_member_outcome i r aid y mc now s) k = Some a"
  using assms
  by (auto simp: apply_member_outcome_def apply_success_def apply_failure_def apply_terminal_def
      requeue_def record_outcome_def record_result_def set_state_def na_def Let_def
      split: CompletionStatus.split)

lemma complete_member_finished:
  assumes "struct_inv s" and "find_attempt s k = Some a" and "finished a"
  shows "find_attempt (complete_member b now mc s) k = Some a"
proof -
  have "k \<noteq> Id (im_next_attempt s)" using struct_fresh_attempt [OF assms(1)] assms(2) by auto
  then show ?thesis
    using assms(2,3) outcome_other_attempts [OF assms(2)]
    by (cases "k = mc_attempt mc") (auto simp: complete_member_def finished_def split: option.split)
qed

lemma complete_members_finished:
  assumes "struct_inv s" and "find_attempt s k = Some a" and "finished a"
    and "spare (fold (complete_member b now) mcs s)"
  shows "find_attempt (fold (complete_member b now) mcs s) k = Some a"
  using assms
proof (induction mcs arbitrary: s)
  case (Cons mc mcs)
  let ?t = "complete_member b now mc s"
  have "spare ?t"
    using Cons.prems(4) spare_grows grow_fold [of "complete_member b now" ?t mcs] grow_complete_member
    by fastforce
  then have "struct_inv ?t" using Cons.prems(1) keep_complete_member by blast
  then show ?case
    using Cons.IH [of ?t] Cons.prems complete_member_finished [OF Cons.prems(1-3)] by simp
qed simp

text \<open>
  C8: no completion report, whatever it contains, changes an attempt that already has its outcome:
  a result that was accepted once is never replaced by a later or repeated report.
\<close>

theorem completion_never_overwrites_an_outcome:
  assumes "reachable P ok p s" and "find_attempt s k = Some a" and "finished a"
    and "spare (snd (do_complete cmp now s))"
  shows "find_attempt (snd (do_complete cmp now s)) k = Some a"
proof (cases "completion_current s cmp")
  case True
  let ?u = "fold (complete_member (comp_batch cmp) now) (comp_members cmp) s"
  have "spare ?u"
    using assms(4) by (rule spare_grows) (simp add: complete_current [OF True] grow)
  then show ?thesis
    using complete_members_finished [OF reachable_struct [OF assms(1)] assms(2,3)]
    by (simp add: complete_current [OF True] close_batch_def)
next
  case False
  then show ?thesis using complete_stale(2) [OF False, of now] assms(2) by auto
qed

theorem completion_never_overwrites_an_outcome_witness:
  "map_option att_result (find_attempt (snd (do_complete sample_report 9 sample4)) (Id 1)) = Some ''out''"
proof -
  let ?a = "(end_attempt RS_completed CS_success 8 sample_attempt)\<lparr>att_result := ''out''\<rparr>"
  have "\<not> completion_current sample4 sample_report"
    using sample4_batches(2) by (auto simp: completion_current_def sample_report_def)
  then have "grows (snd (do_complete sample_report 9 sample4)) sample4"
    using complete_stale(2) [of sample4 sample_report 9] by (auto simp: grows_def)
  then have "spare (snd (do_complete sample_report 9 sample4))"
    using spare_grows sample4_spare by blast
  then show ?thesis
    using completion_never_overwrites_an_outcome [OF sample34_reachable(2), of "Id 1" ?a sample_report 9]
    by (simp add: find_attempt_def finished_def end_attempt_def)
qed

section \<open>Dispatch\<close>

lemma prepare_facts:
  assumes "struct_inv s" and "do_prepare_dispatch b w boot now s = (Inr ex, t)"
  shows "\<exists>x. find_batch s b = Some x \<and> bat_state x = BS_sealed \<and> worker_current s w boot \<and>
    ex_batch ex = b \<and> ex_generation ex = bat_generation x \<and> ex_worker ex = w \<and>
    map mw_request (ex_members ex) = bat_members x \<and>
    (\<forall>m \<in> set (ex_members ex). \<exists>r. find_request s (mw_request m) = Some r \<and>
       mw_attempt m = req_current_attempt r \<and> mw_payload m = m_payload (req_meta r)) \<and>
    find_batch t = (find_batch s)(b \<mapsto> x\<lparr>bat_state := BS_dispatched, bat_dispatched_ns := now,
      bat_worker := w, bat_boot := boot\<rparr>) \<and>
    (\<forall>i r. find_request s i = Some r \<longrightarrow> map_option req_state (find_request t i)
       = Some (if i \<in> set (bat_members x) \<and> req_state r = RS_batched then RS_dispatched else req_state r))"
proof -
  obtain x where x: "find_batch s b = Some x" "bat_state x = BS_sealed" "worker_current s w boot"
    using assms(2) by (auto simp: do_prepare_dispatch_def Let_def split: option.splits if_splits)
  let ?u = "mark_dispatched b w boot now s"
  note v = mark_dispatched_view [OF x(1)]
  have ex: "ex = build_execution ?u (at_batch ?u b)" and t: "find_batch t = find_batch ?u"
    "find_request t = find_request ?u"
    using assms(2) x by (auto simp: do_prepare_dispatch_def Let_def)
  have mem: "find_request ?u m \<noteq> None" if "m \<in> set (bat_members x)" for m
    using struct_members [OF assms(1) x(1) that] by (auto simp: has_key_def v)
  have ms: "map mw_request (List.map_filter (member_work ?u) ms) = ms" if "set ms \<subseteq> set (bat_members x)" for ms
    using that mem by (induction ms) (fastforce simp: List.map_filter_simps member_work_def)+
  show ?thesis
    using x ms [of "bat_members x"] struct_bat_id [OF assms(1) x(1)]
    by (auto simp: ex t build_execution_def at_find v fun_eq_iff List.map_filter_def member_work_def
        split: if_splits)
qed

text \<open>
  C19: handing out a batch to a worker succeeds only for a sealed batch and a registered worker with
  the current boot id. The work handed out then names the batch, its generation and the worker, and
  lists exactly the members in order, each with its current attempt; the batch is dispatched to
  that worker, every other batch is unchanged, and of the members exactly the batched ones become
  dispatched.
\<close>

theorem prepare_dispatch_hands_out_the_members:
  assumes "reachable P ok p s" and "do_prepare_dispatch b w boot now s = (Inr ex, t)"
  shows "\<exists>x. find_batch s b = Some x \<and> bat_state x = BS_sealed \<and> worker_current s w boot \<and>
    ex_batch ex = b \<and> ex_generation ex = bat_generation x \<and> ex_worker ex = w \<and>
    map mw_request (ex_members ex) = bat_members x \<and>
    (\<forall>m \<in> set (ex_members ex). \<exists>r. find_request s (mw_request m) = Some r \<and>
       mw_attempt m = req_current_attempt r \<and> mw_payload m = m_payload (req_meta r)) \<and>
    find_batch t = (find_batch s)(b \<mapsto> x\<lparr>bat_state := BS_dispatched, bat_dispatched_ns := now,
      bat_worker := w, bat_boot := boot\<rparr>) \<and>
    (\<forall>i r. find_request s i = Some r \<longrightarrow> map_option req_state (find_request t i)
       = Some (if i \<in> set (bat_members x) \<and> req_state r = RS_batched then RS_dispatched else req_state r))"
  using prepare_facts [OF reachable_struct [OF assms(1)] assms(2)] .

theorem prepare_dispatch_hands_out_the_members_witness:
  "\<exists>ex t. do_prepare_dispatch (Id 1) (Id 0) (Id 0) 7 sample2 = (Inr ex, t) \<and>
     map mw_request (ex_members ex) = [Id 1] \<and> ex_worker ex = Id 0 \<and>
     map_option bat_state (find_batch t (Id 1)) = Some BS_dispatched"
proof -
  obtain ex t where 1: "do_prepare_dispatch (Id 1) (Id 0) (Id 0) 7 sample2 = (Inr ex, t)"
    by (simp add: do_prepare_dispatch_def sample2_batch sample_worker_current Let_def)
  then show ?thesis
    using prepare_dispatch_hands_out_the_members [OF sample_any(2) 1] by (auto simp: sample2_batch)
qed

end
