(* ===== verification/Sched_Store.thy ===== *)
theory Sched_Store
  imports Reach
begin

text \<open>
  Every method of the runtime is a sequence of assignments to the tables. The locale
  \<open>assignment_inv\<close> is the interface for invariants that only look at single assignments: whatever
  every assignment keeps, every call keeps. It is interpreted for the representation invariant of
  the ordered maps and for the policy, which no call changes.
\<close>

locale assignment_inv =
  fixes I :: "Impl \<Rightarrow> bool"
  assumes i_upd_request: "I s \<Longrightarrow> (\<And>r. req_id (f r) = req_id r) \<Longrightarrow> I (upd_request i f s)"
    and i_upd_batch: "I s \<Longrightarrow> (\<And>x. bat_id (g x) = bat_id x) \<Longrightarrow> I (upd_batch b g s)"
    and i_upd_attempt: "I s \<Longrightarrow> (\<And>y. att_id (h y) = att_id y) \<Longrightarrow> I (upd_attempt a h s)"
    and i_put_request: "I s \<Longrightarrow> req_id r = i \<Longrightarrow> I (put_request i r s)"
    and i_put_batch: "I s \<Longrightarrow> bat_id x = b \<Longrightarrow> I (put_batch b x s)"
    and i_put_attempt: "I s \<Longrightarrow> att_id y = a \<Longrightarrow> I (put_attempt a y s)"
    and i_inc: "I s \<Longrightarrow> I (inc ff s)"
    and i_emit: "I s \<Longrightarrow> I (emit ty rr bb aa tn d s)"
    and i_flush: "I s \<Longrightarrow> I (flush s)"
    and i_set_forming: "I s \<Longrightarrow> I (set_forming k b s)"
    and i_erase_forming: "I s \<Longrightarrow> fm = std_erase k (im_forming s) \<Longrightarrow>
      I (s\<lparr>im_forming := fm, im_sealed_order := ord\<rparr>)"
    and i_index_add: "I s \<Longrightarrow> I (set_waiting (index_add k i) s)"
    and i_index_remove: "I s \<Longrightarrow> I (set_waiting (index_remove k i) s)"
    and i_submission: "I s \<Longrightarrow> I (set_fairness (note_submission t w) s)"
    and i_placed: "I s \<Longrightarrow> I (set_fairness (note_placed t w) s)"
    and i_completed: "I s \<Longrightarrow> I (set_fairness (note_completed t w) s)"
    and i_dec: "I s \<Longrightarrow> I (dec_forming_now s)"
    and i_next_request: "I s \<Longrightarrow> I (s\<lparr>im_next_request := n\<rparr>)"
    and i_next_batch: "I s \<Longrightarrow> I (s\<lparr>im_next_batch := n\<rparr>)"
    and i_next_attempt: "I s \<Longrightarrow> I (s\<lparr>im_next_attempt := n\<rparr>)"
    and i_next_generation: "I s \<Longrightarrow> I (s\<lparr>im_next_generation := n\<rparr>)"
    and i_order: "I s \<Longrightarrow> I (s\<lparr>im_sealed_order := ord\<rparr>)"
    and i_stats: "I s \<Longrightarrow> I (s\<lparr>im_stats := st\<rparr>)"
    and i_workers: "I s \<Longrightarrow> I (s\<lparr>im_workers := ws\<rparr>)"
    and i_epoch: "I s \<Longrightarrow> I (s\<lparr>im_epoch := ep\<rparr>)"
    and i_clock: "I s \<Longrightarrow> I (s\<lparr>im_clock_now := clk\<rparr>)"
begin

lemmas i_prims = i_upd_request i_upd_batch i_upd_attempt i_put_request i_put_batch i_put_attempt i_inc
  i_emit i_flush i_set_forming i_erase_forming i_index_add i_index_remove i_submission i_placed
  i_completed i_dec i_next_request i_next_batch i_next_attempt i_next_generation i_order i_stats
  i_workers i_epoch i_clock

lemma i_fold: "I s \<Longrightarrow> (\<And>x s. I s \<Longrightarrow> I (f x s)) \<Longrightarrow> I (fold f xs s)"
  by (induction xs arbitrary: s) auto

lemma i_upd_requests: "I s \<Longrightarrow> (\<And>r. req_id (f r) = req_id r) \<Longrightarrow> I (upd_requests ms f s)"
  unfolding upd_requests_def by (intro i_fold i_upd_request)

lemma i_assign: "I s \<Longrightarrow> I (assign_batch b ms s)"
  by (simp add: assign_batch_def i_upd_requests)

lemma i_recompute: "I s \<Longrightarrow> I (recompute b s)"
  by (simp add: recompute_def i_upd_batch)

lemma i_advance: "I s \<Longrightarrow> I (advance_members st st' ms s)"
  by (simp add: advance_members_def i_upd_requests)

lemmas i_loops = i_upd_requests i_assign i_recompute i_advance

lemma i_submit: "I s \<Longrightarrow> I (snd (do_submit meta now s))"
  by (auto simp: do_submit_def nr_def na_def Let_def intro!: i_prims)

lemma i_add_member: "I s \<Longrightarrow> I (add_member_to_batch b i s)"
  by (auto simp: add_member_to_batch_def intro!: i_prims split: option.split)

lemma i_fill: "I s \<Longrightarrow> I (fill_forming P b k now s)"
proof -
  have "I (fill_loop P b k now cs s)" if "I s" for cs s
    by (rule fill_loop_rule [where I = "\<lambda>_. I"]) (simp_all add: that i_index_remove i_add_member)
  then show "I s \<Longrightarrow> I (fill_forming P b k now s)"
    by (simp add: fill_forming_def split: option.split)
qed

lemma i_make_forming: "I s \<Longrightarrow> I (make_forming P k now s)"
  by (auto simp: make_forming_def open_forming_def settle_forming_def nb_def ng_def Let_def
      intro!: i_upd_batch i_fill i_inc i_set_forming i_put_batch i_next_generation i_next_batch)

lemma i_seal: "I s \<Longrightarrow> I (snd (do_seal b reason now s))"
  by (auto simp: do_seal_def Let_def intro!: i_emit i_inc i_dec i_erase_forming i_advance i_upd_batch
      split: option.split)

lemma i_split: "I s \<Longrightarrow> I (snd (do_split b reason s))"
  by (auto simp: do_split_def split_child_def split_resealed_def nb_def Let_def
      intro!: i_prims i_loops split: option.split)

lemma i_merge: "I s \<Longrightarrow> do_merge a b s = Some (c, s') \<Longrightarrow> I s'"
  by (auto simp: do_merge_def Let_def intro!: i_prims i_loops split: option.splits if_splits)

lemma i_terminal: "I s \<Longrightarrow> I (complete_request_terminal i oc st now s)"
  by (auto simp: complete_request_terminal_def Let_def end_attempt_def intro!: i_prims split: option.split)

lemma i_cancel: "I s \<Longrightarrow> I (snd (do_cancel i reason now s))"
  by (auto simp: do_cancel_def remove_member_def Let_def end_attempt_def intro!: i_prims i_loops
      split: option.split)

lemma i_expire: "I s \<Longrightarrow> I (expire_locked P now s)"
proof -
  have "I s \<Longrightarrow> I (expire_waiting now i s)" "I s \<Longrightarrow> I (expire_member now i s)" for i s
    by (auto simp: expire_waiting_def expire_member_def intro!: i_terminal i_index_remove i_cancel
        split: option.split)
  then show "I s \<Longrightarrow> I (expire_locked P now s)"
    unfolding expire_locked_def Let_def by (intro i_fold)
qed

lemma i_tick_fill: "I (snd ts) \<Longrightarrow> I (snd (tick_fill P now b ts))"
  by (cases ts) (auto simp: tick_fill_def Let_def intro!: i_upd_batch i_fill split: option.split)

lemma i_until_merge: "I s \<Longrightarrow> I (tick_until_merge P now s)"
proof -
  assume s: "I s"
  define s2 where "s2 = fold (tick_form P now) (map fst (plat_bucket_iter P (im_waiting (expire_locked P now s))))
    (expire_locked P now s)"
  have "I s2" unfolding s2_def
    by (intro i_fold i_expire s) (simp add: tick_form_def i_make_forming)
  then have "I (snd (fold (tick_fill P now) bs ([], s2)))" for bs
    by (intro fold_invariant_on [where P = "\<lambda>ts. I (snd ts)"]) (simp_all add: i_tick_fill)
  then have "I (snd (fold (tick_fill P now) (map snd (im_forming s2)) ([], s2)))" .
  moreover have "I t \<Longrightarrow> I (tick_seal now b t)" for t b
    by (simp add: tick_seal_def i_seal split: option.split)
  ultimately show "I (tick_until_merge P now s)"
    by (auto simp: tick_until_merge_def s2_def [symmetric] Let_def split_beta intro!: i_fold)
qed

lemma i_merges: "I s \<Longrightarrow> merge_groups vs s = Some t \<Longrightarrow> I t"
proof -
  have n: "I s \<Longrightarrow> merge_neighbours v s = Some t \<Longrightarrow> I t" for v s t
  proof (induction v s rule: merge_neighbours.induct)
    case (1 x y v s)
    then show ?case by (fastforce split: if_splits option.splits dest: i_merge [rotated])
  qed auto
  show "I s \<Longrightarrow> merge_groups vs s = Some t \<Longrightarrow> I t"
    by (induction vs arbitrary: s) (auto split: option.splits dest: n [rotated])
qed

lemma i_split_loop:
  assumes "split_loop i s = Some t" and "I s"
  shows "I t"
proof -
  have "I s \<longrightarrow> I t"
  proof (rule split_loop.raw_induct [where P = "\<lambda>_ s t. I s \<longrightarrow> I t", OF _ assms(1)])
    fix loop i s t
    assume "\<And>i s t. loop i s = Some t \<Longrightarrow> I s \<longrightarrow> I t"
      and "(if i < length (im_sealed_order s) then loop (Suc i) (tick_split i s) else Some s) = Some t"
    moreover have "I s \<Longrightarrow> I (tick_split i s)"
      by (simp add: tick_split_def Let_def i_split split: option.split)
    ultimately show "I s \<longrightarrow> I t" by (auto split: if_splits)
  qed
  then show ?thesis using assms(2) by blast
qed

lemma i_tick: "I s \<Longrightarrow> do_tick P now s = Some t \<Longrightarrow> I t"
  by (auto simp: do_tick_def tick_merge_def split: option.splits if_splits
      dest!: i_split_loop intro: i_merges i_until_merge)

lemma i_retry: "I s \<Longrightarrow> do_retry P i now s = Some (res, s') \<Longrightarrow> I s'"
proof (erule retry_cases)
  fix r num
  assume "I s" and t: "do_tick P now (snd (queue_retry i r num s)) = Some s'"
  then have "I (snd (queue_retry i r num s))"
    by (auto simp: queue_retry_def na_def Let_def intro!: i_prims)
  then show "I s'" using t i_tick by blast
qed simp

lemma i_outcome: "I s \<Longrightarrow> I (apply_member_outcome i r aid a mc now s)"
  by (auto simp: apply_member_outcome_def apply_success_def apply_failure_def apply_terminal_def
      requeue_def record_outcome_def record_result_def set_state_def end_attempt_def na_def Let_def
      intro!: i_prims split: CompletionStatus.split)

lemma i_complete: "I s \<Longrightarrow> I (snd (do_complete cmp now s))"
proof -
  have m: "I s \<Longrightarrow> I (complete_member b now mc s)" for b mc s
    by (auto simp: complete_member_def intro!: i_prims i_outcome split: option.split)
  show "I s \<Longrightarrow> I (snd (do_complete cmp now s))"
    by (auto simp: do_complete_def close_batch_def Let_def intro!: i_prims i_fold m split: option.split)
qed

lemma i_mark_dispatched: "I s \<Longrightarrow> I (mark_dispatched b w boot now s)"
  by (auto simp: mark_dispatched_def Let_def intro!: i_advance i_upd_batch)

lemma i_dispatch_run:
  assumes "I s" and "do_dispatch_and_run b ex now s = Some (res, s')"
  shows "I s'"
proof -
  have run: "I (running_state b ex now s)"
    by (auto simp: running_state_def begin_dispatch_def mark_running_def Let_def assms(1)
        intro!: i_advance i_upd_batch i_emit i_mark_dispatched)
  have fail: "I s \<Longrightarrow> fail_members e now ms s = Some t \<Longrightarrow> I t" for e ms s t
    by (induction ms arbitrary: s) (auto split: option.splits intro: i_outcome)
  from assms(2) show ?thesis
    by (cases rule: dispatch_run_cases) (use assms(1) run fail i_complete in auto)
qed

theorem i_call:
  assumes "I s" and "run_call P c s = Some s'"
  shows "I s'"
proof (cases c)
  case (Call_merge a b reason now)
  then show ?thesis using assms by (auto dest!: merge_state intro!: i_flush intro: i_merge)
next
  case (Call_retry i now)
  then show ?thesis using assms by (auto dest!: retry_state intro!: i_flush intro: i_retry)
next
  case (Call_tick now)
  then show ?thesis using assms by (auto dest!: tick_state intro!: i_flush intro: i_tick)
next
  case (Call_dispatch_and_run b ex now)
  then show ?thesis using assms by (auto dest!: dispatch_state intro!: i_flush intro: i_dispatch_run)
qed (use assms in \<open>auto simp: register_worker_def roll_epoch_def submit_def cancel_def complete_def
    seal_state split_state prepare_dispatch_def do_prepare_dispatch_def expire_def Let_def
    intro!: i_prims i_submit i_cancel i_complete i_seal i_split i_expire i_mark_dispatched
    split: option.splits\<close>)

lemma i_reachable:
  assumes "reachable P ok p s" and "\<And>clk sink. I (Impl_init p clk sink)"
  shows "I s"
  using assms(1) by (induction rule: reachable.induct) (auto intro: assms(2) i_call)

end

section \<open>The ordered maps\<close>

text \<open>The tables stay sorted by their keys, and an attempt is stored under its own id.\<close>

definition store_inv :: "Impl \<Rightarrow> bool" where
  "store_inv s \<longleftrightarrow> std_ok (im_requests s) \<and> std_ok (im_attempts s) \<and> std_ok (im_batches s) \<and>
     std_ok (fc_served (im_fairness s)) \<and> (\<forall>a y. find_attempt s a = Some y \<longrightarrow> att_id y = a)"

lemma served_ok_note [simp]:
  "fc_served (note_submission t w f) = fc_served f"
  "std_ok (fc_served f) \<Longrightarrow> std_ok (fc_served (note_placed t w f))"
  "std_ok (fc_served f) \<Longrightarrow> std_ok (fc_served (note_completed t w f))"
  by (simp_all add: note_submission_def note_placed_def note_completed_def std_ok_insert Let_def)

interpretation store: assignment_inv store_inv
  by unfold_locales
    (auto simp: store_inv_def std_ok_insert std_ok_modify upd_request_def upd_batch_def upd_attempt_def
      put_request_def put_batch_def put_attempt_def inc_def emit_def flush_def set_fairness_def
      find_attempt_def std_lookup split: if_splits)

lemma store_inv_init: "store_inv (Impl_init p clk sink)"
  by (simp add: store_inv_def Impl_init_def fairness_init_def find_attempt_def)

lemma store_inv_reachable: "reachable P ok p s \<Longrightarrow> store_inv s"
  by (rule store.i_reachable) (auto intro: store_inv_init)

section \<open>The policy\<close>

interpretation policy: assignment_inv "\<lambda>s. im_policy s = p" for p
  by unfold_locales (auto simp: upd_request_def upd_batch_def upd_attempt_def
      put_request_def put_batch_def put_attempt_def inc_def emit_def flush_def)

lemma policy_reachable: "reachable P ok p s \<Longrightarrow> im_policy s = p"
  by (rule policy.i_reachable) (auto simp: Impl_init_def)

end
