(* ===== verification/Protocol.thy ===== *)
theory Protocol
  imports Executor
begin

text \<open>
  \<open>protocol.hpp\<close> and \<open>protocol.cpp\<close>: the bodies of the messages between coordinator, workers and
  clients. A decoder is the value it fills in, or \<open>None\<close> when it answers false. Every part is an
  instance of the locale \<open>codec\<close>, most of \<open>exact_codec\<close>: the decoder undoes the encoder and, for
  the exact ones, accepts nothing else.
\<close>

section \<open>Parts of messages\<close>

definition write_desc :: "ModelDescriptor \<Rightarrow> u8 list" where
  "write_desc d =
     wr_u8 1 @ wr_string (name_str (d_model d)) @ wr_string (name_str (d_revision d)) @
     wr_string (name_str (d_adapter d)) @ wr_string (name_str (d_tokenizer d)) @
     wr_u8 (Phase_value (d_phase d)) @ wr_u8 (Dtype_value (d_dtype d)) @
     wr_u8 (Backend_value (d_backend d)) @ wr_u8 (ExecutionMode_value (d_execution_mode d)) @
     wr_u8 (Backend_value (dev_backend (d_device d))) @ wr_u32 (compute_major (d_device d)) @
     wr_u32 (compute_minor (d_device d)) @ wr_u64 (min_memory_bytes (d_device d)) @
     wr_string (name_str (d_shape d)) @ wr_string (d_sampling_semantics d) @
     wr_u32 (of_nat (length (d_extensions d))) @ concat (map wr_string (d_extensions d))"

definition read_desc :: "ModelDescriptor reader" where
  "read_desc r = do {
     (ver, r) \<leftarrow> rd_u8 r;
     guard (ver = 1);
     (model, r) \<leftarrow> rd_string r;
     (revision, r) \<leftarrow> rd_string r;
     (adapter, r) \<leftarrow> rd_string r;
     (tokenizer, r) \<leftarrow> rd_string r;
     (phase, r) \<leftarrow> rd_u8 r;
     (dtype, r) \<leftarrow> rd_u8 r;
     (backend, r) \<leftarrow> rd_u8 r;
     (mode, r) \<leftarrow> rd_u8 r;
     (dbackend, r) \<leftarrow> rd_u8 r;
     (cmaj, r) \<leftarrow> rd_u32 r;
     (cmin, r) \<leftarrow> rd_u32 r;
     (mem, r) \<leftarrow> rd_u64 r;
     (shape, r) \<leftarrow> rd_string r;
     (sampling, r) \<leftarrow> rd_string r;
     (n_ext, r) \<leftarrow> rd_u32 r;
     guard (\<not> n_ext > 1024);
     (exts, r) \<leftarrow> rd_times rd_string (unat n_ext) r;
     Some (\<lparr>d_model = Name model, d_revision = Name revision, d_adapter = Name adapter,
       d_tokenizer = Name tokenizer, d_phase = Phase_cast phase, d_dtype = Dtype_cast dtype,
       d_backend = Backend_cast backend, d_execution_mode = ExecutionMode_cast mode,
       d_device = \<lparr>dev_backend = Backend_cast dbackend, compute_major = cmaj, compute_minor = cmin,
         min_memory_bytes = mem\<rparr>,
       d_shape = Name shape, d_sampling_semantics = sampling, d_extensions = exts\<rparr>, r)
   }"

definition write_cap :: "ExecutorCapability \<Rightarrow> u8 list" where
  "write_cap c =
     wr_id (cap_worker c) @ wr_u8 (Backend_value (cap_backend c)) @
     wr_u8 (Backend_value (dev_backend (cap_device c))) @ wr_u32 (compute_major (cap_device c)) @
     wr_u32 (compute_minor (cap_device c)) @ wr_u64 (min_memory_bytes (cap_device c)) @
     wr_u32 (cap_max_batch_size c) @ wr_u64 (cap_max_tokens c) @ wr_u64 (cap_max_work c) @
     wr_u64 (cap_max_memory_bytes c) @ wr_u8 (if cap_supports_cancellation c then 1 else 0)"

definition read_cap :: "ExecutorCapability reader" where
  "read_cap r = do {
     (wv, r) \<leftarrow> rd_u64 r;
     (backend, r) \<leftarrow> rd_u8 r;
     (db, r) \<leftarrow> rd_u8 r;
     (cmaj, r) \<leftarrow> rd_u32 r;
     (cmin, r) \<leftarrow> rd_u32 r;
     (minmem, r) \<leftarrow> rd_u64 r;
     (maxb, r) \<leftarrow> rd_u32 r;
     (maxt, r) \<leftarrow> rd_u64 r;
     (maxw, r) \<leftarrow> rd_u64 r;
     (maxmem, r) \<leftarrow> rd_u64 r;
     (canc, r) \<leftarrow> rd_u8 r;
     Some (\<lparr>cap_worker = Id wv, cap_backend = Backend_cast backend,
       cap_device = \<lparr>dev_backend = Backend_cast db, compute_major = cmaj, compute_minor = cmin,
         min_memory_bytes = minmem\<rparr>,
       cap_max_batch_size = maxb, cap_max_tokens = maxt, cap_max_work = maxw,
       cap_max_memory_bytes = maxmem, cap_supports_cancellation = (canc \<noteq> 0)\<rparr>, r)
   }"

definition write_meta :: "RequestMetadata \<Rightarrow> u8 list" where
  "write_meta m =
     wr_id (m_tenant m) @ wr_id (m_session m) @ wr_id (m_sequence m) @ write_desc (m_descriptor m) @
     wr_u64 (tok_input (m_tokens m)) @ wr_u64 (tok_output (m_tokens m)) @
     wr_u64 (work_value (m_work m)) @ wr_u64 (m_memory_bytes m) @
     wr_i64 (absolute_ns (m_deadline m)) @ wr_u8 (LatencyClass_value (m_latency m)) @
     wr_u8 (PriorityClass_value (m_priority m)) @ wr_string (m_payload m)"

definition read_meta :: "RequestMetadata reader" where
  "read_meta r = do {
     (tenant, r) \<leftarrow> rd_u64 r;
     (session, r) \<leftarrow> rd_u64 r;
     (seq, r) \<leftarrow> rd_u64 r;
     (desc, r) \<leftarrow> read_desc r;
     (tin, r) \<leftarrow> rd_u64 r;
     (tout, r) \<leftarrow> rd_u64 r;
     (tw, r) \<leftarrow> rd_u64 r;
     (mem, r) \<leftarrow> rd_u64 r;
     (dl, r) \<leftarrow> rd_i64 r;
     (lat, r) \<leftarrow> rd_u8 r;
     (pri, r) \<leftarrow> rd_u8 r;
     (payload, r) \<leftarrow> rd_string r;
     Some (\<lparr>m_tenant = Id tenant, m_session = Id session, m_sequence = Id seq, m_descriptor = desc,
       m_tokens = \<lparr>tok_input = tin, tok_output = tout\<rparr>, m_work = \<lparr>work_value = tw\<rparr>,
       m_memory_bytes = mem, m_deadline = \<lparr>absolute_ns = dl\<rparr>, m_latency = LatencyClass_cast lat,
       m_priority = PriorityClass_cast pri, m_payload = payload\<rparr>, r)
   }"

definition write_member_work :: "MemberWork \<Rightarrow> u8 list" where
  "write_member_work m =
     wr_id (mw_request m) @ wr_id (mw_attempt m) @ wr_u64 (mw_work m) @ wr_u64 (mw_input_tokens m) @
     wr_u64 (mw_output_tokens m) @ wr_string (mw_payload m)"

definition read_member_work :: "MemberWork reader" where
  "read_member_work r = do {
     (request, r) \<leftarrow> rd_id r;
     (attempt, r) \<leftarrow> rd_id r;
     (work, r) \<leftarrow> rd_u64 r;
     (tin, r) \<leftarrow> rd_u64 r;
     (tout, r) \<leftarrow> rd_u64 r;
     (payload, r) \<leftarrow> rd_string r;
     Some (\<lparr>mw_request = request, mw_attempt = attempt, mw_work = work, mw_input_tokens = tin,
       mw_output_tokens = tout, mw_payload = payload\<rparr>, r)
   }"

definition write_exec :: "BatchExecution \<Rightarrow> u8 list" where
  "write_exec e =
     wr_id (ex_batch e) @ wr_id (ex_generation e) @ wr_id (ex_epoch e) @ wr_id (ex_worker e) @
     write_desc (ex_descriptor e) @ wr_u32 (of_nat (length (ex_members e))) @
     concat (map write_member_work (ex_members e))"

definition read_exec :: "BatchExecution reader" where
  "read_exec r = do {
     (batch, r) \<leftarrow> rd_id r;
     (generation, r) \<leftarrow> rd_id r;
     (epoch, r) \<leftarrow> rd_id r;
     (worker, r) \<leftarrow> rd_id r;
     (desc, r) \<leftarrow> read_desc r;
     (n, r) \<leftarrow> rd_u32 r;
     guard (\<not> n > push_bit 20 1);
     (members, r) \<leftarrow> rd_times read_member_work (unat n) r;
     Some (\<lparr>ex_batch = batch, ex_generation = generation, ex_epoch = epoch, ex_worker = worker,
       ex_descriptor = desc, ex_members = members\<rparr>, r)
   }"

definition write_member_compl :: "MemberCompletion \<Rightarrow> u8 list" where
  "write_member_compl m =
     wr_id (mc_request m) @ wr_id (mc_attempt m) @ wr_u8 (CompletionStatus_value (mc_status m)) @
     wr_string (mc_result m) @ wr_u32 (ErrorCode_value (mc_error_code m)) @
     wr_string (mc_error_message m)"

definition read_member_compl :: "MemberCompletion reader" where
  "read_member_compl r = do {
     (request, r) \<leftarrow> rd_id r;
     (attempt, r) \<leftarrow> rd_id r;
     (status, r) \<leftarrow> rd_u8 r;
     (result, r) \<leftarrow> rd_string r;
     (ec, r) \<leftarrow> rd_u32 r;
     (message, r) \<leftarrow> rd_string r;
     Some (\<lparr>mc_request = request, mc_attempt = attempt, mc_status = CompletionStatus_cast status,
       mc_result = result, mc_error_code = ErrorCode_cast ec, mc_error_message = message\<rparr>, r)
   }"

definition write_compl :: "BatchCompletion \<Rightarrow> u8 list" where
  "write_compl c =
     wr_id (comp_worker c) @ wr_id (comp_boot c) @ wr_id (comp_epoch c) @
     wr_id (comp_generation c) @ wr_id (comp_batch c) @ wr_u32 (of_nat (length (comp_members c))) @
     concat (map write_member_compl (comp_members c))"

definition read_compl :: "BatchCompletion reader" where
  "read_compl r = do {
     (worker, r) \<leftarrow> rd_id r;
     (boot, r) \<leftarrow> rd_id r;
     (epoch, r) \<leftarrow> rd_id r;
     (generation, r) \<leftarrow> rd_id r;
     (batch, r) \<leftarrow> rd_id r;
     (n, r) \<leftarrow> rd_u32 r;
     guard (\<not> n > push_bit 20 1);
     (members, r) \<leftarrow> rd_times read_member_compl (unat n) r;
     Some (\<lparr>comp_worker = worker, comp_boot = boot, comp_epoch = epoch,
       comp_generation = generation, comp_batch = batch, comp_members = members\<rparr>, r)
   }"

section \<open>What fits a message\<close>

definition desc_ok :: "ModelDescriptor \<Rightarrow> bool" where
  "desc_ok d \<longleftrightarrow>
     string_ok (name_str (d_model d)) \<and> string_ok (name_str (d_revision d)) \<and>
     string_ok (name_str (d_adapter d)) \<and> string_ok (name_str (d_tokenizer d)) \<and>
     string_ok (name_str (d_shape d)) \<and> string_ok (d_sampling_semantics d) \<and>
     length (d_extensions d) \<le> 1024 \<and> (\<forall>e \<in> set (d_extensions d). string_ok e) \<and>
     Phase_ok (d_phase d) \<and> Dtype_ok (d_dtype d) \<and> Backend_ok (d_backend d) \<and>
     ExecutionMode_ok (d_execution_mode d) \<and> Backend_ok (dev_backend (d_device d))"

definition cap_ok :: "ExecutorCapability \<Rightarrow> bool" where
  "cap_ok c \<longleftrightarrow> Backend_ok (cap_backend c) \<and> Backend_ok (dev_backend (cap_device c))"

definition meta_ok :: "RequestMetadata \<Rightarrow> bool" where
  "meta_ok m \<longleftrightarrow> desc_ok (m_descriptor m) \<and> time_ok (absolute_ns (m_deadline m)) \<and>
     LatencyClass_ok (m_latency m) \<and> PriorityClass_ok (m_priority m) \<and> string_ok (m_payload m)"

definition member_work_ok :: "MemberWork \<Rightarrow> bool" where
  "member_work_ok m \<longleftrightarrow> string_ok (mw_payload m)"

definition exec_ok :: "BatchExecution \<Rightarrow> bool" where
  "exec_ok e \<longleftrightarrow> desc_ok (ex_descriptor e) \<and> length (ex_members e) \<le> 2 ^ 20 \<and>
     (\<forall>m \<in> set (ex_members e). member_work_ok m)"

definition member_compl_ok :: "MemberCompletion \<Rightarrow> bool" where
  "member_compl_ok m \<longleftrightarrow> CompletionStatus_ok (mc_status m) \<and> string_ok (mc_result m) \<and>
     ErrorCode_ok (mc_error_code m) \<and> string_ok (mc_error_message m)"

definition compl_ok :: "BatchCompletion \<Rightarrow> bool" where
  "compl_ok c \<longleftrightarrow> length (comp_members c) \<le> 2 ^ 20 \<and> (\<forall>m \<in> set (comp_members c). member_compl_ok m)"

section \<open>The parts are codecs\<close>

lemma count_ok:
  "n \<le> 1024 \<Longrightarrow> unat (of_nat n :: u32) = n" "n \<le> 2 ^ 20 \<Longrightarrow> unat (of_nat n :: u32) = n"
  by (simp_all add: unat_of_nat)

lemma count_guard:
  "\<not> v > (1024 :: u32) \<longleftrightarrow> unat v \<le> 1024" "\<not> v > (1048576 :: u32) \<longleftrightarrow> unat v \<le> 2 ^ 20"
  by (simp_all add: word_less_nat_alt not_less)

lemma name_eq [simp]: "Name (name_str n) = n"
  by (cases n) simp

lemma desc_rd_wr: "desc_ok d \<Longrightarrow> read_desc (write_desc d @ r) = Some (d, r)"
  by (simp add: read_desc_def write_desc_def codec count_guard count_ok desc_ok_def enum_ok_defs
      strc.rd_times_wr)

interpretation descc: exact_codec write_desc read_desc desc_ok
proof
  show "read_desc (write_desc x @ r) = Some (x, r)" if "desc_ok x" for x r
    using that by (rule desc_rd_wr)
  show "desc_ok x \<and> r = write_desc x @ r'" if "read_desc r = Some (x, r')" for r x r'
    using that
    by (auto simp: read_desc_def write_desc_def desc_ok_def bind_eq_Some_conv prim_rd_iff count_guard
        strc.rd_times_iff)
qed

interpretation capc: codec write_cap read_cap cap_ok
  by unfold_locales
    (simp add: read_cap_def write_cap_def codec cap_ok_def enum_ok_defs wr_id_def)

interpretation metac: exact_codec write_meta read_meta meta_ok
proof
  show "read_meta (write_meta x @ r) = Some (x, r)" if "meta_ok x" for x r
    using that
    by (simp add: read_meta_def write_meta_def codec descc.rd_wr meta_ok_def enum_ok_defs wr_id_def)
  show "meta_ok x \<and> r = write_meta x @ r'" if "read_meta r = Some (x, r')" for r x r'
    using that
    by (auto simp: read_meta_def write_meta_def meta_ok_def bind_eq_Some_conv prim_rd_iff descc.rd_iff
        wr_id_def)
qed

interpretation mworkc: exact_codec write_member_work read_member_work member_work_ok
  by unfold_locales
    (auto simp: read_member_work_def write_member_work_def member_work_ok_def codec bind_eq_Some_conv
      prim_rd_iff)

interpretation execc: exact_codec write_exec read_exec exec_ok
proof
  show "read_exec (write_exec x @ r) = Some (x, r)" if "exec_ok x" for x r
    using that
    by (simp add: read_exec_def write_exec_def exec_ok_def codec descc.rd_wr count_guard count_ok
        mworkc.rd_times_wr)
  show "exec_ok x \<and> r = write_exec x @ r'" if "read_exec r = Some (x, r')" for r x r'
    using that
    by (auto simp: read_exec_def write_exec_def exec_ok_def bind_eq_Some_conv prim_rd_iff descc.rd_iff
        count_guard mworkc.rd_times_iff)
qed

interpretation mcomplc: exact_codec write_member_compl read_member_compl member_compl_ok
  by unfold_locales
    (auto simp: read_member_compl_def write_member_compl_def member_compl_ok_def enum_ok_defs codec
      bind_eq_Some_conv prim_rd_iff)

interpretation complc: exact_codec write_compl read_compl compl_ok
proof
  show "read_compl (write_compl x @ r) = Some (x, r)" if "compl_ok x" for x r
    using that
    by (simp add: read_compl_def write_compl_def compl_ok_def codec count_guard count_ok
        mcomplc.rd_times_wr)
  show "compl_ok x \<and> r = write_compl x @ r'" if "read_compl r = Some (x, r')" for r x r'
    using that
    by (auto simp: read_compl_def write_compl_def compl_ok_def bind_eq_Some_conv prim_rd_iff count_guard
        mcomplc.rd_times_iff)
qed

section \<open>Messages\<close>

record WireRegister =
  reg_worker :: WorkerId
  reg_boot :: WorkerBootId
  reg_cap :: ExecutorCapability

record WireSubmit =
  sub_meta :: RequestMetadata

record WireSubmitResp =
  resp_request :: RequestId
  resp_attempt :: AttemptId
  resp_admission :: AdmissionDecision
  resp_reason :: string
  resp_batch :: BatchId

record WireDispatch =
  disp_exec :: BatchExecution

record WireComplete =
  wc_completion :: BatchCompletion

record WireAck =
  ack_ok :: bool
  ack_code :: ErrorCode
  ack_message :: string

record WireRollEpoch =
  roll_epoch_epoch :: BatchEpoch

record WireStatusResp =
  sr_stats :: BatchStats

record WireCancel =
  can_request :: RequestId
  can_reason :: CancellationReason

text \<open>A decoder runs its reader and then asks for the end of the input.\<close>

definition ok_reader :: "u8 list \<Rightarrow> bool" where
  "ok_reader r \<longleftrightarrow> length r = 0"

definition whole :: "'a reader \<Rightarrow> u8 list \<Rightarrow> 'a option" where
  "whole rd b = do { (x, r) \<leftarrow> rd b; guard (ok_reader r); Some x }"

definition encode_register :: "WireRegister \<Rightarrow> u8 list" where
  "encode_register m = wr_id (reg_worker m) @ wr_id (reg_boot m) @ write_cap (reg_cap m)"

definition decode_register :: "u8 list \<Rightarrow> WireRegister option" where
  "decode_register = whole (\<lambda>r. do {
     (worker, r) \<leftarrow> rd_id r;
     (boot, r) \<leftarrow> rd_id r;
     (cap, r) \<leftarrow> read_cap r;
     Some (\<lparr>reg_worker = worker, reg_boot = boot, reg_cap = cap\<rparr>, r)
   })"

definition encode_submit :: "WireSubmit \<Rightarrow> u8 list" where
  "encode_submit m = write_meta (sub_meta m)"

definition decode_submit :: "u8 list \<Rightarrow> WireSubmit option" where
  "decode_submit = whole (\<lambda>r. do { (meta, r) \<leftarrow> read_meta r; Some (\<lparr>sub_meta = meta\<rparr>, r) })"

definition encode_submit_resp :: "WireSubmitResp \<Rightarrow> u8 list" where
  "encode_submit_resp m =
     wr_id (resp_request m) @ wr_id (resp_attempt m) @
     wr_u8 (AdmissionDecision_value (resp_admission m)) @ wr_string (resp_reason m) @
     wr_id (resp_batch m)"

definition decode_submit_resp :: "u8 list \<Rightarrow> WireSubmitResp option" where
  "decode_submit_resp = whole (\<lambda>r. do {
     (request, r) \<leftarrow> rd_id r;
     (attempt, r) \<leftarrow> rd_id r;
     (adm, r) \<leftarrow> rd_u8 r;
     (reason, r) \<leftarrow> rd_string r;
     (batch, r) \<leftarrow> rd_id r;
     Some (\<lparr>resp_request = request, resp_attempt = attempt,
       resp_admission = AdmissionDecision_cast adm, resp_reason = reason, resp_batch = batch\<rparr>, r)
   })"

definition encode_dispatch :: "WireDispatch \<Rightarrow> u8 list" where
  "encode_dispatch m = write_exec (disp_exec m)"

definition decode_dispatch :: "u8 list \<Rightarrow> WireDispatch option" where
  "decode_dispatch = whole (\<lambda>r. do { (e, r) \<leftarrow> read_exec r; Some (\<lparr>disp_exec = e\<rparr>, r) })"

definition encode_complete :: "WireComplete \<Rightarrow> u8 list" where
  "encode_complete m = write_compl (wc_completion m)"

definition decode_complete :: "u8 list \<Rightarrow> WireComplete option" where
  "decode_complete = whole (\<lambda>r. do { (c, r) \<leftarrow> read_compl r; Some (\<lparr>wc_completion = c\<rparr>, r) })"

definition encode_ack :: "WireAck \<Rightarrow> u8 list" where
  "encode_ack m =
     wr_u8 (if ack_ok m then 1 else 0) @ wr_u32 (ErrorCode_value (ack_code m)) @
     wr_string (ack_message m)"

definition decode_ack :: "u8 list \<Rightarrow> WireAck option" where
  "decode_ack = whole (\<lambda>r. do {
     (ok, r) \<leftarrow> rd_u8 r;
     (code, r) \<leftarrow> rd_u32 r;
     (message, r) \<leftarrow> rd_string r;
     Some (\<lparr>ack_ok = (ok \<noteq> 0), ack_code = ErrorCode_cast code, ack_message = message\<rparr>, r)
   })"

definition encode_roll_epoch :: "WireRollEpoch \<Rightarrow> u8 list" where
  "encode_roll_epoch m = wr_id (roll_epoch_epoch m)"

definition decode_roll_epoch :: "u8 list \<Rightarrow> WireRollEpoch option" where
  "decode_roll_epoch = whole (\<lambda>r. do { (e, r) \<leftarrow> rd_id r; Some (\<lparr>roll_epoch_epoch = e\<rparr>, r) })"

definition encode_status :: "unit \<Rightarrow> u8 list" where
  "encode_status _ = []"

definition decode_status :: "u8 list \<Rightarrow> unit option" where
  "decode_status b = guard (b = [])"

definition stats_values :: "BatchStats \<Rightarrow> u64 list" where
  "stats_values s = [st_submitted s, st_admitted s, st_deferred s, st_rejected s, st_expired s,
     st_cancelled s, st_batches_formed s, st_batches_sealed s, st_batches_dispatched s,
     st_batches_completed s, st_batches_split s, st_batches_merged s, st_requests_completed s,
     st_requests_retried s, st_retryable_failures s, st_stale_rejections s, st_waiting_now s,
     st_forming_now s, st_running_now s, st_reserved_now s, st_total_work_completed s]"

definition encode_status_resp :: "WireStatusResp \<Rightarrow> u8 list" where
  "encode_status_resp m = concat (map wr_u64 (stats_values (sr_stats m)))"

definition decode_status_resp :: "u8 list \<Rightarrow> WireStatusResp option" where
  "decode_status_resp = whole (\<lambda>r. do {
     (vals, r) \<leftarrow> rd_times rd_u64 21 r;
     Some (\<lparr>sr_stats = \<lparr>st_submitted = vals ! 0, st_admitted = vals ! 1, st_deferred = vals ! 2,
       st_rejected = vals ! 3, st_expired = vals ! 4, st_cancelled = vals ! 5,
       st_batches_formed = vals ! 6, st_batches_sealed = vals ! 7, st_batches_dispatched = vals ! 8,
       st_batches_completed = vals ! 9, st_batches_split = vals ! 10, st_batches_merged = vals ! 11,
       st_requests_completed = vals ! 12, st_requests_retried = vals ! 13,
       st_retryable_failures = vals ! 14, st_stale_rejections = vals ! 15,
       st_waiting_now = vals ! 16, st_forming_now = vals ! 17, st_running_now = vals ! 18,
       st_reserved_now = vals ! 19, st_total_work_completed = vals ! 20\<rparr>\<rparr>, r)
   })"

definition encode_cancel :: "WireCancel \<Rightarrow> u8 list" where
  "encode_cancel m = wr_id (can_request m) @ wr_u8 (CancellationReason_value (can_reason m))"

definition decode_cancel :: "u8 list \<Rightarrow> WireCancel option" where
  "decode_cancel = whole (\<lambda>r. do {
     (request, r) \<leftarrow> rd_id r;
     (reason, r) \<leftarrow> rd_u8 r;
     Some (\<lparr>can_request = request, can_reason = CancellationReason_cast reason\<rparr>, r)
   })"

section \<open>Message round trips\<close>

text \<open>The contract of an encoder and a decoder of whole messages.\<close>

locale message =
  fixes encode :: "'m \<Rightarrow> u8 list" and decode :: "u8 list \<Rightarrow> 'm option" and fits :: "'m \<Rightarrow> bool"
  assumes decode_encode: "fits m \<Longrightarrow> decode (encode m) = Some m"
begin

lemma encode_inj: "fits m \<Longrightarrow> fits n \<Longrightarrow> encode m = encode n \<Longrightarrow> m = n"
  by (metis decode_encode option.inject)

end

locale exact_message = message +
  assumes decode_only: "decode b = Some m \<Longrightarrow> fits m \<and> b = encode m"
begin

lemma decode_iff: "decode b = Some m \<longleftrightarrow> fits m \<and> b = encode m"
  using decode_only decode_encode by blast

end

definition register_ok :: "WireRegister \<Rightarrow> bool" where
  "register_ok m \<longleftrightarrow> cap_ok (reg_cap m)"

definition submit_resp_ok :: "WireSubmitResp \<Rightarrow> bool" where
  "submit_resp_ok m \<longleftrightarrow> AdmissionDecision_ok (resp_admission m) \<and> string_ok (resp_reason m)"

definition ack_fits :: "WireAck \<Rightarrow> bool" where
  "ack_fits m \<longleftrightarrow> ErrorCode_ok (ack_code m) \<and> string_ok (ack_message m)"

lemmas whole_simps = whole_def ok_reader_def bind_eq_Some_conv prim_rd_iff

text \<open>The last read of a message leaves nothing.\<close>

lemmas rd_ends = u8c.rd_wr [of _ "[]", simplified] idc.rd_wr [of _ "[]", simplified]
  strc.rd_wr [of _ "[]", simplified] capc.rd_wr [of _ "[]", simplified] metac.rd_wr [of _ "[]", simplified]
  execc.rd_wr [of _ "[]", simplified] complc.rd_wr [of _ "[]", simplified]

lemmas whole_rd = whole_def ok_reader_def codec rd_ends

interpretation register_msg: message encode_register decode_register register_ok
  by unfold_locales (simp add: decode_register_def encode_register_def register_ok_def whole_rd)

interpretation submit_msg: exact_message encode_submit decode_submit "\<lambda>m. meta_ok (sub_meta m)"
proof
  show "decode_submit (encode_submit m) = Some m" if "meta_ok (sub_meta m)" for m
    using that by (simp add: decode_submit_def encode_submit_def whole_rd)
  show "meta_ok (sub_meta m) \<and> b = encode_submit m" if "decode_submit b = Some m" for b m
    using that by (auto simp: decode_submit_def encode_submit_def whole_simps metac.rd_iff)
qed

interpretation submit_resp_msg: exact_message encode_submit_resp decode_submit_resp submit_resp_ok
proof
  show "decode_submit_resp (encode_submit_resp m) = Some m" if "submit_resp_ok m" for m
    using that
    by (simp add: decode_submit_resp_def encode_submit_resp_def submit_resp_ok_def enum_ok_defs whole_rd)
  show "submit_resp_ok m \<and> b = encode_submit_resp m" if "decode_submit_resp b = Some m" for b m
    using that
    by (auto simp: decode_submit_resp_def encode_submit_resp_def submit_resp_ok_def whole_simps)
qed

interpretation dispatch_msg: exact_message encode_dispatch decode_dispatch "\<lambda>m. exec_ok (disp_exec m)"
proof
  show "decode_dispatch (encode_dispatch m) = Some m" if "exec_ok (disp_exec m)" for m
    using that by (simp add: decode_dispatch_def encode_dispatch_def whole_rd)
  show "exec_ok (disp_exec m) \<and> b = encode_dispatch m" if "decode_dispatch b = Some m" for b m
    using that by (auto simp: decode_dispatch_def encode_dispatch_def whole_simps execc.rd_iff)
qed

interpretation complete_msg: exact_message encode_complete decode_complete "\<lambda>m. compl_ok (wc_completion m)"
proof
  show "decode_complete (encode_complete m) = Some m" if "compl_ok (wc_completion m)" for m
    using that by (simp add: decode_complete_def encode_complete_def whole_rd)
  show "compl_ok (wc_completion m) \<and> b = encode_complete m" if "decode_complete b = Some m" for b m
    using that by (auto simp: decode_complete_def encode_complete_def whole_simps complc.rd_iff)
qed

interpretation ack_msg: message encode_ack decode_ack ack_fits
  by unfold_locales (simp add: decode_ack_def encode_ack_def ack_fits_def enum_ok_defs whole_rd)

interpretation roll_epoch_msg: exact_message encode_roll_epoch decode_roll_epoch "\<lambda>_. True"
proof
  show "decode_roll_epoch (encode_roll_epoch m) = Some m" for m
    by (simp add: decode_roll_epoch_def encode_roll_epoch_def whole_rd)
  show "True \<and> b = encode_roll_epoch m" if "decode_roll_epoch b = Some m" for b m
    using that by (auto simp: decode_roll_epoch_def encode_roll_epoch_def whole_simps)
qed

interpretation cancel_msg: exact_message encode_cancel decode_cancel "\<lambda>m. CancellationReason_ok (can_reason m)"
proof
  show "decode_cancel (encode_cancel m) = Some m" if "CancellationReason_ok (can_reason m)" for m
    using that by (simp add: decode_cancel_def encode_cancel_def enum_ok_defs whole_rd)
  show "CancellationReason_ok (can_reason m) \<and> b = encode_cancel m" if "decode_cancel b = Some m" for b m
    using that by (auto simp: decode_cancel_def encode_cancel_def whole_simps)
qed

interpretation status_msg: exact_message encode_status decode_status "\<lambda>_. True"
  by unfold_locales (auto simp: decode_status_def encode_status_def)

lemma stats_of_values:
  assumes "length vals = 21"
  shows "stats_values \<lparr>st_submitted = vals ! 0, st_admitted = vals ! 1, st_deferred = vals ! 2,
       st_rejected = vals ! 3, st_expired = vals ! 4, st_cancelled = vals ! 5,
       st_batches_formed = vals ! 6, st_batches_sealed = vals ! 7, st_batches_dispatched = vals ! 8,
       st_batches_completed = vals ! 9, st_batches_split = vals ! 10, st_batches_merged = vals ! 11,
       st_requests_completed = vals ! 12, st_requests_retried = vals ! 13,
       st_retryable_failures = vals ! 14, st_stale_rejections = vals ! 15,
       st_waiting_now = vals ! 16, st_forming_now = vals ! 17, st_running_now = vals ! 18,
       st_reserved_now = vals ! 19, st_total_work_completed = vals ! 20\<rparr> = vals"
proof -
  have "vals = map ((!) vals) [0..<21]" using assms by (metis map_nth)
  also have "[0..<21::nat] = [0, 1, 2, 3, 4, 5, 6, 7, 8, 9, 10, 11, 12, 13, 14, 15, 16, 17, 18, 19, 20]"
    by (simp add: upt_rec)
  finally show ?thesis by (simp add: stats_values_def)
qed

interpretation status_resp_msg: exact_message encode_status_resp decode_status_resp "\<lambda>_. True"
proof
  show "decode_status_resp (encode_status_resp m) = Some m" for m
  proof -
    have "length (stats_values (sr_stats m)) = 21" by (simp add: stats_values_def)
    then have "rd_times rd_u64 21 (concat (map wr_u64 (stats_values (sr_stats m))))
        = Some (stats_values (sr_stats m), [])"
      using u64c.rd_times_wr [of "stats_values (sr_stats m)" "[]"] by simp
    then show ?thesis
      by (simp add: decode_status_resp_def encode_status_resp_def whole_def ok_reader_def)
        (simp add: stats_values_def)
  qed
  show "True \<and> b = encode_status_resp m" if "decode_status_resp b = Some m" for b m
    using that
    by (auto simp: decode_status_resp_def encode_status_resp_def whole_simps u64c.rd_times_iff
        stats_of_values [simplified])
qed

section \<open>Properties\<close>

text \<open>
  C29: every message survives the wire: decoding the encoding of a message whose strings are at most
  a mebibyte and whose lists stay within the limits gives the message back, for all ten kinds.
\<close>

theorem messages_round_trip:
  shows "(register_ok a \<longrightarrow> decode_register (encode_register a) = Some a) \<and>
    (meta_ok (sub_meta b) \<longrightarrow> decode_submit (encode_submit b) = Some b) \<and>
    (submit_resp_ok c \<longrightarrow> decode_submit_resp (encode_submit_resp c) = Some c) \<and>
    (exec_ok (disp_exec d) \<longrightarrow> decode_dispatch (encode_dispatch d) = Some d) \<and>
    (compl_ok (wc_completion e) \<longrightarrow> decode_complete (encode_complete e) = Some e) \<and>
    (ack_fits f \<longrightarrow> decode_ack (encode_ack f) = Some f) \<and>
    decode_roll_epoch (encode_roll_epoch g) = Some g \<and>
    (CancellationReason_ok (can_reason h) \<longrightarrow> decode_cancel (encode_cancel h) = Some h) \<and>
    decode_status (encode_status i) = Some i \<and>
    decode_status_resp (encode_status_resp j) = Some j"
  by (simp add: register_msg.decode_encode submit_msg.decode_encode submit_resp_msg.decode_encode
      dispatch_msg.decode_encode complete_msg.decode_encode ack_msg.decode_encode
      roll_epoch_msg.decode_encode cancel_msg.decode_encode status_msg.decode_encode
      status_resp_msg.decode_encode)

text \<open>
  C30: a submission, a dispatch or a completion has one encoding: a body is accepted only if it is
  the encoding of the message it decodes to, so truncated, padded and otherwise different bodies
  are refused.
\<close>

theorem work_messages_are_canonical:
  "(decode_submit b = Some m \<longrightarrow> meta_ok (sub_meta m) \<and> b = encode_submit m) \<and>
   (decode_dispatch b = Some d \<longrightarrow> exec_ok (disp_exec d) \<and> b = encode_dispatch d) \<and>
   (decode_complete b = Some c \<longrightarrow> compl_ok (wc_completion c) \<and> b = encode_complete c)"
  using submit_msg.decode_only dispatch_msg.decode_only complete_msg.decode_only by blast

text \<open>A small batch execution and its completion.\<close>

definition sample_exec :: BatchExecution where
  "sample_exec = \<lparr>ex_batch = Id 1, ex_generation = Id 1, ex_epoch = Id 1, ex_worker = Id 3,
     ex_descriptor = default_descriptor, ex_members = [\<lparr>mw_request = Id 1, mw_attempt = Id 1,
       mw_work = 3, mw_input_tokens = 4, mw_output_tokens = 5, mw_payload = ''p''\<rparr>]\<rparr>"

definition sample_ack :: WireAck where
  "sample_ack = \<lparr>ack_ok = False, ack_code = EC_not_found, ack_message = ''no''\<rparr>"

lemma string_ok_short: "length s \<le> 100 \<Longrightarrow> string_ok s"
  by (simp add: string_ok_def kDefaultMaxStringLen_def)

lemma default_desc_ok: "desc_ok default_descriptor"
  by (simp add: desc_ok_def default_descriptor_def default_device_def string_ok_short enum_ok_defs
      Phase_cast_def Dtype_cast_def Backend_cast_def ExecutionMode_cast_def)

lemma sample_exec_ok: "exec_ok sample_exec"
  by (simp add: exec_ok_def sample_exec_def default_desc_ok member_work_ok_def string_ok_short)

theorem messages_round_trip_witness:
  "decode_dispatch (encode_dispatch \<lparr>disp_exec = sample_exec\<rparr>) = Some \<lparr>disp_exec = sample_exec\<rparr> \<and>
     decode_ack (encode_ack sample_ack) = Some sample_ack \<and>
     decode_submit (encode_submit \<lparr>sub_meta = default_metadata\<rparr>) = Some \<lparr>sub_meta = default_metadata\<rparr>"
proof -
  have "ack_fits sample_ack"
    by (simp add: ack_fits_def sample_ack_def string_ok_short enum_ok_defs ErrorCode_cast_def)
  moreover have "meta_ok default_metadata"
    by (simp add: meta_ok_def default_metadata_def default_desc_ok time_ok_def string_ok_short
        enum_ok_defs LatencyClass_cast_def PriorityClass_cast_def)
  ultimately show ?thesis
    using messages_round_trip [where d = "\<lparr>disp_exec = sample_exec\<rparr>" and f = sample_ack
        and b = "\<lparr>sub_meta = default_metadata\<rparr>"] sample_exec_ok
    by simp
qed

theorem work_messages_are_canonical_witness:
  "\<exists>b. decode_dispatch b = Some \<lparr>disp_exec = sample_exec\<rparr> \<and> b = encode_dispatch \<lparr>disp_exec = sample_exec\<rparr>"
proof -
  let ?d = "\<lparr>disp_exec = sample_exec\<rparr>"
  have "decode_dispatch (encode_dispatch ?d) = Some ?d"
    using dispatch_msg.decode_encode [of ?d] sample_exec_ok by simp
  then show ?thesis
    using work_messages_are_canonical [of "encode_dispatch ?d" _ ?d] by blast
qed

end
