(* ===== verification/Persistence.thy ===== *)
theory Persistence
  imports Protocol Std_Map
begin

text \<open>
  \<open>persistence.hpp\<close> and \<open>persistence.cpp\<close>: the saved image of the runtime, its checksum, the
  parser with every corruption it reports, and the replacement of the state file. A reader that
  fails and a check that fails are errors with the message of the source.
\<close>

section \<open>The saved image\<close>

record PersistedRequest =
  pr_id :: RequestId
  pr_tenant :: TenantId
  pr_session :: SessionId
  pr_sequence :: SequenceId
  pr_descriptor :: ModelDescriptor
  pr_tokens :: TokenEstimate
  pr_work :: WorkEstimate
  pr_memory_bytes :: u64
  pr_deadline :: Deadline
  pr_latency :: LatencyClass
  pr_priority :: PriorityClass
  pr_payload :: string
  pr_state :: RequestState
  pr_submitted_ns :: TimePoint
  pr_batch :: BatchId
  pr_current_attempt :: AttemptId
  pr_attempt_ids :: "AttemptId list"

record PersistedAttempt =
  pa_id :: AttemptId
  pa_number :: u32
  pa_state :: RequestState
  pa_batch :: BatchId
  pa_outcome :: CompletionStatus
  pa_result :: string
  pa_started :: TimePoint
  pa_completed :: TimePoint

record PersistedBatch =
  pb_id :: BatchId
  pb_generation :: Generation
  pb_epoch :: BatchEpoch
  pb_state :: BatchState
  pb_key :: CompatibilityKey
  pb_members :: "RequestId list"
  pb_used :: BatchAccum
  pb_formed_ns :: TimePoint
  pb_sealed_ns :: TimePoint
  pb_dispatched_ns :: TimePoint
  pb_completed_ns :: TimePoint
  pb_seal_reason :: SealReason
  pb_worker :: WorkerId
  pb_boot :: WorkerBootId
  pb_parents :: "BatchId list"
  pb_children :: "BatchId list"

record PersistedRuntime =
  rt_epoch :: BatchEpoch
  rt_next_request :: u64
  rt_next_batch :: u64
  rt_next_attempt :: u64
  rt_next_generation :: u64
  rt_requests :: "PersistedRequest list"
  rt_attempts :: "PersistedAttempt list"
  rt_batches :: "PersistedBatch list"
  rt_fairness_served :: "(string, u64) std_map"

definition kMagic :: u32 where
  "kMagic = 0x46435254"

definition kFormatVersion :: u32 where
  "kFormatVersion = 1"

definition kMaxRecords :: nat where
  "kMaxRecords = 10 * 1024 * 1024"

section \<open>Writing\<close>

definition write_descriptor :: "ModelDescriptor \<Rightarrow> u8 list" where
  "write_descriptor d =
     wr_u8 1 @ wr_string (name_str (d_model d)) @ wr_string (name_str (d_revision d)) @
     wr_string (name_str (d_adapter d)) @ wr_string (name_str (d_tokenizer d)) @
     wr_u8 (Phase_value (d_phase d)) @ wr_u8 (Dtype_value (d_dtype d)) @
     wr_u8 (Backend_value (d_backend d)) @ wr_u8 (ExecutionMode_value (d_execution_mode d)) @
     wr_u8 (Backend_value (dev_backend (d_device d))) @ wr_u32 (compute_major (d_device d)) @
     wr_u32 (compute_minor (d_device d)) @ wr_u64 (min_memory_bytes (d_device d)) @
     wr_string (name_str (d_shape d)) @ wr_string (d_sampling_semantics d) @
     wr_u32 (of_nat (length (d_extensions d))) @ concat (map wr_string (d_extensions d))"

definition write_ids :: "'k Id list \<Rightarrow> u8 list" where
  "write_ids is = wr_u64 (of_nat (length is)) @ concat (map wr_id is)"

definition write_request :: "PersistedRequest \<Rightarrow> u8 list" where
  "write_request r =
     wr_id (pr_id r) @ wr_id (pr_tenant r) @ wr_id (pr_session r) @ wr_id (pr_sequence r) @
     write_descriptor (pr_descriptor r) @ wr_u64 (tok_input (pr_tokens r)) @
     wr_u64 (tok_output (pr_tokens r)) @ wr_u64 (work_value (pr_work r)) @ wr_u64 (pr_memory_bytes r) @
     wr_i64 (absolute_ns (pr_deadline r)) @ wr_u8 (LatencyClass_value (pr_latency r)) @
     wr_u8 (PriorityClass_value (pr_priority r)) @ wr_string (pr_payload r) @
     wr_u8 (RequestState_value (pr_state r)) @ wr_i64 (pr_submitted_ns r) @ wr_id (pr_batch r) @
     wr_id (pr_current_attempt r) @ write_ids (pr_attempt_ids r)"

definition write_attempt :: "PersistedAttempt \<Rightarrow> u8 list" where
  "write_attempt a =
     wr_id (pa_id a) @ wr_u32 (pa_number a) @ wr_u8 (RequestState_value (pa_state a)) @
     wr_id (pa_batch a) @ wr_u8 (CompletionStatus_value (pa_outcome a)) @ wr_string (pa_result a) @
     wr_i64 (pa_started a) @ wr_i64 (pa_completed a)"

definition write_batch :: "PersistedBatch \<Rightarrow> u8 list" where
  "write_batch b =
     wr_id (pb_id b) @ wr_id (pb_generation b) @ wr_id (pb_epoch b) @
     wr_u8 (BatchState_value (pb_state b)) @ key_digest (pb_key b) @ write_ids (pb_members b) @
     wr_u32 (acc_count (pb_used b)) @ wr_u64 (acc_input_tokens (pb_used b)) @
     wr_u64 (acc_output_tokens (pb_used b)) @ wr_u64 (acc_work (pb_used b)) @
     wr_u64 (acc_memory (pb_used b)) @ wr_i64 (pb_formed_ns b) @ wr_i64 (pb_sealed_ns b) @
     wr_i64 (pb_dispatched_ns b) @ wr_i64 (pb_completed_ns b) @
     wr_u8 (SealReason_value (pb_seal_reason b)) @ wr_id (pb_worker b) @ wr_id (pb_boot b) @
     write_ids (pb_parents b) @ write_ids (pb_children b)"

definition write_served :: "string \<times> u64 \<Rightarrow> u8 list" where
  "write_served e = wr_string (fst e) @ wr_u64 (snd e)"

definition save_body :: "PersistedRuntime \<Rightarrow> u8 list" where
  "save_body rt =
     wr_u32 kMagic @ wr_u32 kFormatVersion @ wr_u64 (id_value (rt_epoch rt)) @
     wr_u64 (rt_next_request rt) @ wr_u64 (rt_next_batch rt) @ wr_u64 (rt_next_attempt rt) @
     wr_u64 (rt_next_generation rt) @ wr_u64 (of_nat (length (rt_requests rt))) @
     wr_u64 (of_nat (length (rt_attempts rt))) @ wr_u64 (of_nat (length (rt_batches rt))) @
     concat (map write_request (rt_requests rt)) @ concat (map write_attempt (rt_attempts rt)) @
     concat (map write_batch (rt_batches rt)) @
     wr_u64 (of_nat (length (rt_fairness_served rt))) @
     concat (map write_served (rt_fairness_served rt))"

definition save_bytes :: "PersistedRuntime \<Rightarrow> u8 list" where
  "save_bytes rt = (let body = save_body rt in body @ Sha256_digest body)"

section \<open>Parsing\<close>

definition corrupt :: "string \<Rightarrow> 'a Result" where
  "corrupt why = Result_err EC_corruption why"

definition expect :: "'a reader \<Rightarrow> string \<Rightarrow> u8 list \<Rightarrow> ('a \<times> u8 list) Result" where
  "expect rd why r = (case rd r of None \<Rightarrow> corrupt why | Some x \<Rightarrow> Inr x)"

definition require :: "bool \<Rightarrow> string \<Rightarrow> unit Result" where
  "require c why = (if c then Inr () else corrupt why)"

definition enum_ok :: "u8 \<Rightarrow> u8 \<Rightarrow> bool" where
  "enum_ok v mx \<longleftrightarrow> v \<le> mx"

definition enum_ok_unknown :: "u8 \<Rightarrow> u8 \<Rightarrow> bool" where
  "enum_ok_unknown v mx \<longleftrightarrow> v \<le> mx \<or> v = 255"

definition read_descriptor :: "ModelDescriptor reader" where
  "read_descriptor r = do {
     (ver, r) \<leftarrow> rd_u8 r;
     guard (ver = 1);
     (model, r) \<leftarrow> rd_string r;
     (revision, r) \<leftarrow> rd_string r;
     (adapter, r) \<leftarrow> rd_string r;
     (tokenizer, r) \<leftarrow> rd_string r;
     (phase, r) \<leftarrow> rd_u8 r;
     (dtype, r) \<leftarrow> rd_u8 r;
     (backend, r) \<leftarrow> rd_u8 r;
     (mode, r) \<leftarrow> rd_u8 r;
     (dbackend, r) \<leftarrow> rd_u8 r;
     guard (enum_ok phase 1 \<and> enum_ok_unknown dtype 4 \<and> enum_ok_unknown backend 4 \<and>
       enum_ok_unknown mode 3 \<and> enum_ok_unknown dbackend 4);
     (cmaj, r) \<leftarrow> rd_u32 r;
     (cmin, r) \<leftarrow> rd_u32 r;
     (mem, r) \<leftarrow> rd_u64 r;
     (shape, r) \<leftarrow> rd_string r;
     (sampling, r) \<leftarrow> rd_string r;
     (n_ext, r) \<leftarrow> rd_u32 r;
     guard (\<not> n_ext > 1024);
     (exts, r) \<leftarrow> rd_times rd_string (unat n_ext) r;
     Some (\<lparr>d_model = Name model, d_revision = Name revision, d_adapter = Name adapter,
       d_tokenizer = Name tokenizer, d_phase = Phase_cast phase, d_dtype = Dtype_cast dtype,
       d_backend = Backend_cast backend, d_execution_mode = ExecutionMode_cast mode,
       d_device = \<lparr>dev_backend = Backend_cast dbackend, compute_major = cmaj, compute_minor = cmin,
         min_memory_bytes = mem\<rparr>,
       d_shape = Name shape, d_sampling_semantics = sampling, d_extensions = exts\<rparr>, r)
   }"

text \<open>Reads joined by \<open>||\<close> under one error message.\<close>

definition rd_pair :: "'a reader \<Rightarrow> 'b reader \<Rightarrow> ('a \<times> 'b) reader" where
  "rd_pair f g r = do { (x, r) \<leftarrow> f r; (y, r) \<leftarrow> g r; Some ((x, y), r) }"

text \<open>A counted loop; each round sees what the earlier ones produced.\<close>

fun parse_loop :: "('a list \<Rightarrow> u8 list \<Rightarrow> ('a \<times> u8 list) Result) \<Rightarrow> nat \<Rightarrow> 'a list \<Rightarrow> u8 list \<Rightarrow>
    ('a list \<times> u8 list) Result" where
  "parse_loop f 0 xs r = Inr (xs, r)"
| "parse_loop f (Suc n) xs r = rbind (f xs r) (\<lambda>(x, r). parse_loop f n (xs @ [x]) r)"

definition parse_ids :: "string \<Rightarrow> nat \<Rightarrow> u8 list \<Rightarrow> ('k Id list \<times> u8 list) Result" where
  "parse_ids why n r = parse_loop (\<lambda>_. expect rd_id why) n [] r"

definition parse_request :: "PersistedRequest list \<Rightarrow> u8 list \<Rightarrow> (PersistedRequest \<times> u8 list) Result" where
  "parse_request prev r =
     rbind (expect (rd_pair rd_id (rd_pair rd_id (rd_pair rd_id rd_id))) ''truncated request ids'' r)
       (\<lambda>((i, tenant, session, sequence), r).
     rbind (expect read_descriptor ''bad descriptor'' r) (\<lambda>(desc, r).
     rbind (expect (rd_pair rd_u64 (rd_pair rd_u64 (rd_pair rd_u64 rd_u64))) ''truncated request estimates'' r)
       (\<lambda>((in_t, out_t, work, mem), r).
     rbind (expect rd_i64 ''truncated deadline'' r) (\<lambda>(dl, r).
     rbind (expect (rd_pair rd_u8 rd_u8) ''truncated request enums'' r) (\<lambda>((lat, pri), r).
     rbind (require (enum_ok lat 4 \<and> enum_ok pri 3) ''invalid request enum'') (\<lambda>_.
     rbind (expect rd_string ''bad payload'' r) (\<lambda>(payload, r).
     rbind (expect rd_u8 ''truncated request state'' r) (\<lambda>(state, r).
     rbind (require (enum_ok state 12) ''invalid request state'') (\<lambda>_.
     rbind (expect rd_i64 ''truncated submit time'' r) (\<lambda>(sub, r).
     rbind (expect (rd_pair rd_id rd_id) ''truncated request batch'' r) (\<lambda>((batch, cur), r).
     rbind (expect rd_u64 ''truncated attempt count'' r) (\<lambda>(n_att, r).
     rbind (require (\<not> n_att > 1024) ''impossible attempt count'') (\<lambda>_.
     rbind (parse_ids ''truncated attempt id'' (unat n_att) r) (\<lambda>(atts, r).
     rbind (require (\<not> (is_null i \<or> i \<in> set (map pr_id prev))) ''duplicate request id'') (\<lambda>_.
       Inr (\<lparr>pr_id = i, pr_tenant = tenant, pr_session = session, pr_sequence = sequence,
         pr_descriptor = desc, pr_tokens = \<lparr>tok_input = in_t, tok_output = out_t\<rparr>,
         pr_work = \<lparr>work_value = work\<rparr>, pr_memory_bytes = mem, pr_deadline = \<lparr>absolute_ns = dl\<rparr>,
         pr_latency = LatencyClass_cast lat, pr_priority = PriorityClass_cast pri,
         pr_payload = payload, pr_state = the (RequestState_cast state), pr_submitted_ns = sub,
         pr_batch = batch, pr_current_attempt = cur, pr_attempt_ids = atts\<rparr>, r))))))))))))))))"

definition parse_attempt :: "PersistedAttempt list \<Rightarrow> u8 list \<Rightarrow> (PersistedAttempt \<times> u8 list) Result" where
  "parse_attempt prev r =
     rbind (expect (rd_pair rd_id (rd_pair rd_u32 rd_u8)) ''truncated attempt'' r)
       (\<lambda>((i, number, state), r).
     rbind (expect (rd_pair rd_id rd_u8) ''truncated attempt out'' r) (\<lambda>((batch, outcome), r).
     rbind (expect rd_string ''bad attempt result'' r) (\<lambda>(result, r).
     rbind (expect (rd_pair rd_i64 rd_i64) ''truncated attempt times'' r) (\<lambda>((started, completed), r).
     rbind (require (enum_ok state 12 \<and> enum_ok outcome 6) ''invalid attempt enum'') (\<lambda>_.
     rbind (require (\<not> (is_null i \<or> i \<in> set (map pa_id prev))) ''duplicate attempt id'') (\<lambda>_.
       Inr (\<lparr>pa_id = i, pa_number = number, pa_state = the (RequestState_cast state), pa_batch = batch,
         pa_outcome = CompletionStatus_cast outcome, pa_result = result, pa_started = started,
         pa_completed = completed\<rparr>, r)))))))"

definition parse_member :: "RequestId list \<Rightarrow> u8 list \<Rightarrow> (RequestId \<times> u8 list) Result" where
  "parse_member req_ids r =
     rbind (expect rd_id ''truncated member id'' r) (\<lambda>(m, r).
     rbind (require (m \<in> set req_ids) ''member references unknown request'') (\<lambda>_. Inr (m, r)))"

definition parse_batch :: "RequestId list \<Rightarrow> PersistedBatch list \<Rightarrow> u8 list \<Rightarrow>
    (PersistedBatch \<times> u8 list) Result" where
  "parse_batch req_ids prev r =
     rbind (expect (rd_pair rd_id (rd_pair rd_id (rd_pair rd_id (rd_pair rd_u8 (rd_bytes 32)))))
       ''truncated batch'' r) (\<lambda>((i, generation, epoch, state, keyd), r).
     rbind (require (enum_ok state 8) ''invalid batch enum'') (\<lambda>_.
     rbind (expect rd_u64 ''truncated batch members'' r) (\<lambda>(nmembers, r).
     rbind (require (\<not> unat nmembers > kMaxRecords) ''impossible batch members'') (\<lambda>_.
     rbind (parse_loop (\<lambda>_. parse_member req_ids) (unat nmembers) [] r) (\<lambda>(members, r).
     rbind (expect (rd_pair rd_u32 (rd_pair rd_u64 (rd_pair rd_u64 (rd_pair rd_u64 rd_u64))))
       ''truncated batch budget'' r) (\<lambda>((mr, mi, mo, mw, mm), r).
     rbind (expect (rd_pair rd_i64 (rd_pair rd_i64 (rd_pair rd_i64 rd_i64))) ''truncated batch times'' r)
       (\<lambda>((fn, sn, dn, cn), r).
     rbind (expect rd_u8 ''truncated seal reason'' r) (\<lambda>(s2, r).
     rbind (require (enum_ok s2 10) ''invalid seal reason'') (\<lambda>_.
     rbind (expect (rd_pair rd_id rd_id) ''truncated worker'' r) (\<lambda>((worker, boot), r).
     rbind (expect (rd_pair rd_u64 rd_u64) ''truncated lineage'' r) (\<lambda>((np, nc), r).
     rbind (require (\<not> (unat np > kMaxRecords \<or> unat nc > kMaxRecords)) ''impossible lineage'') (\<lambda>_.
     rbind (parse_ids ''truncated parent'' (unat np) r) (\<lambda>(parents, r).
     rbind (parse_ids ''truncated child'' (unat nc) r) (\<lambda>(children, r).
     rbind (require (\<not> (is_null i \<or> i \<in> set (map pb_id prev))) ''duplicate batch id'') (\<lambda>_.
       Inr (\<lparr>pb_id = i, pb_generation = generation, pb_epoch = epoch,
         pb_state = the (BatchState_cast state), pb_key = CompatibilityKey keyd, pb_members = members,
         pb_used = \<lparr>acc_count = mr, acc_input_tokens = mi, acc_output_tokens = mo, acc_work = mw,
           acc_memory = mm\<rparr>,
         pb_formed_ns = fn, pb_sealed_ns = sn, pb_dispatched_ns = dn, pb_completed_ns = cn,
         pb_seal_reason = the (SealReason_cast s2), pb_worker = worker, pb_boot = boot,
         pb_parents = parents, pb_children = children\<rparr>, r))))))))))))))))"

definition parse_served :: "(string \<times> u64) list \<Rightarrow> u8 list \<Rightarrow> ((string \<times> u64) \<times> u8 list) Result" where
  "parse_served _ r = expect (rd_pair rd_string rd_u64) ''truncated fairness record'' r"

text \<open>The last check: no request is a member of two different batches that are not finished.\<close>

fun claim_members :: "BatchId \<Rightarrow> RequestId list \<Rightarrow> (RequestId, BatchId) std_map \<Rightarrow>
    (RequestId, BatchId) std_map option" where
  "claim_members b [] active = Some active"
| "claim_members b (m # ms) active =
     (case map_of active m of
        Some b' \<Rightarrow> if b' \<noteq> b then None else claim_members b ms (std_insert m b active)
      | None \<Rightarrow> claim_members b ms (std_insert m b active))"

fun claim_batches :: "PersistedBatch list \<Rightarrow> (RequestId, BatchId) std_map \<Rightarrow>
    (RequestId, BatchId) std_map option" where
  "claim_batches [] active = Some active"
| "claim_batches (b # bs) active =
     (if is_batch_terminal (pb_state b) then claim_batches bs active
      else (case claim_members (pb_id b) (pb_members b) active of
          None \<Rightarrow> None
        | Some active \<Rightarrow> claim_batches bs active))"

text \<open>The part of the parser after the counters \<open>c\<close>: epoch, next ids, and the numbers of records.\<close>

definition parse_records :: "u64 list \<Rightarrow> u8 list \<Rightarrow> PersistedRuntime Result" where
  "parse_records c r =
     rbind (parse_loop parse_request (unat (c ! 5)) [] r) (\<lambda>(requests, r).
     rbind (parse_loop parse_attempt (unat (c ! 6)) [] r) (\<lambda>(attempts, r).
     rbind (parse_loop (parse_batch (map pr_id requests)) (unat (c ! 7)) [] r) (\<lambda>(batches, r).
     rbind (expect rd_u64 ''truncated fairness'' r) (\<lambda>(nfair, r).
     rbind (require (\<not> unat nfair > kMaxRecords) ''impossible fairness count'') (\<lambda>_.
     rbind (parse_loop parse_served (unat nfair) [] r) (\<lambda>(served, r).
     rbind (require (claim_batches batches [] \<noteq> None) ''request in two active batches'') (\<lambda>_.
     rbind (require (length r = 32) ''trailing garbage'') (\<lambda>_.
       Inr \<lparr>rt_epoch = Id (c ! 0), rt_next_request = c ! 1, rt_next_batch = c ! 2,
         rt_next_attempt = c ! 3, rt_next_generation = c ! 4, rt_requests = requests,
         rt_attempts = attempts, rt_batches = batches,
         rt_fairness_served = fold (\<lambda>(k, v). std_insert k v) served []\<rparr>))))))))"

definition parse :: "u8 list \<Rightarrow> PersistedRuntime Result" where
  "parse bytes =
     (if length bytes < 44 then corrupt ''truncated header''
      else if Sha256_digest (take (length bytes - 32) bytes) \<noteq> drop (length bytes - 32) bytes
      then corrupt ''checksum mismatch''
      else
        rbind (expect (rd_pair rd_u32 rd_u32) ''truncated header'' bytes) (\<lambda>((magic, ver), r).
        rbind (require (magic = kMagic) ''bad magic'') (\<lambda>_.
        rbind (require (ver = kFormatVersion) ''bad version'') (\<lambda>_.
        rbind (expect (rd_times rd_u64 8) ''truncated counters'' r) (\<lambda>(c, r).
        rbind (require (\<not> (unat (c ! 5) > kMaxRecords \<or> unat (c ! 7) > kMaxRecords \<or>
            unat (c ! 6) > kMaxRecords)) ''impossible counts'') (\<lambda>_. parse_records c r))))))"

section \<open>The state file\<close>

text \<open>
  What the file system answers to one \<open>save\<close> (the branch for POSIX systems): whether the temporary
  file opens, whether the stream is good after \<open>write\<close>, how many bytes have reached the file when
  it is closed, and whether the rename succeeds. The outcome of the flush is not looked at.
\<close>

record SaveAnswers =
  sv_open :: bool
  sv_write :: bool
  sv_reached :: nat
  sv_rename :: bool

type_synonym files = "string \<Rightarrow> u8 list option"

definition tmp_name :: "string \<Rightarrow> string" where
  "tmp_name path = path @ ''.tmp''"

definition save :: "SaveAnswers \<Rightarrow> PersistedRuntime \<Rightarrow> string \<Rightarrow> files \<Rightarrow> unit Result \<times> files" where
  "save os rt path fs =
     (let tmp = tmp_name path in
      if \<not> sv_open os then (Result_err EC_persistence_failure ''cannot open temp state file'', fs)
      else
        (let fs = fs(tmp \<mapsto> take (sv_reached os) (save_bytes rt))
         in if \<not> sv_write os then (Result_err EC_persistence_failure ''write failed during save'', fs)
            else if \<not> sv_rename os then (Result_err EC_persistence_failure ''rename failed during save'', fs)
            else (Inr (), fs(path := fs tmp, tmp := None))))"

text \<open>\<open>told\<close> and \<open>readable\<close>: whether the size is known and whether the read succeeds.\<close>

definition load :: "bool \<Rightarrow> bool \<Rightarrow> string \<Rightarrow> files \<Rightarrow> PersistedRuntime Result" where
  "load told readable path fs =
     (case fs path of
        None \<Rightarrow> Result_err EC_persistence_failure ''cannot open state file''
      | Some bytes \<Rightarrow>
          if \<not> told then corrupt ''cannot determine file size''
          else if length bytes > kMaxRecords * 8 + 4096 then corrupt ''state file impossibly large''
          else if \<not> readable then corrupt ''read failed''
          else parse bytes)"

section \<open>What can be saved\<close>

definition descriptor_ok :: "ModelDescriptor \<Rightarrow> bool" where
  "descriptor_ok d \<longleftrightarrow> desc_ok d \<and> enum_ok (Phase_value (d_phase d)) 1 \<and>
     enum_ok_unknown (Dtype_value (d_dtype d)) 4 \<and> enum_ok_unknown (Backend_value (d_backend d)) 4 \<and>
     enum_ok_unknown (ExecutionMode_value (d_execution_mode d)) 3 \<and>
     enum_ok_unknown (Backend_value (dev_backend (d_device d))) 4"

definition request_ok :: "PersistedRequest \<Rightarrow> bool" where
  "request_ok r \<longleftrightarrow> \<not> is_null (pr_id r) \<and> descriptor_ok (pr_descriptor r) \<and>
     time_ok (absolute_ns (pr_deadline r)) \<and> LatencyClass_ok (pr_latency r) \<and>
     enum_ok (LatencyClass_value (pr_latency r)) 4 \<and> PriorityClass_ok (pr_priority r) \<and>
     enum_ok (PriorityClass_value (pr_priority r)) 3 \<and> string_ok (pr_payload r) \<and>
     time_ok (pr_submitted_ns r) \<and> length (pr_attempt_ids r) \<le> 1024"

definition attempt_ok :: "PersistedAttempt \<Rightarrow> bool" where
  "attempt_ok a \<longleftrightarrow> \<not> is_null (pa_id a) \<and> CompletionStatus_ok (pa_outcome a) \<and>
     enum_ok (CompletionStatus_value (pa_outcome a)) 6 \<and> string_ok (pa_result a) \<and>
     time_ok (pa_started a) \<and> time_ok (pa_completed a)"

text \<open>All of a batch but its parents; see \<open>lineage_is_lost\<close> below for those.\<close>

definition batch_ok :: "RequestId list \<Rightarrow> PersistedBatch \<Rightarrow> bool" where
  "batch_ok req_ids b \<longleftrightarrow> \<not> is_null (pb_id b) \<and> length (key_digest (pb_key b)) = 32 \<and>
     length (pb_members b) \<le> kMaxRecords \<and> set (pb_members b) \<subseteq> set req_ids \<and>
     time_ok (pb_formed_ns b) \<and> time_ok (pb_sealed_ns b) \<and> time_ok (pb_dispatched_ns b) \<and>
     time_ok (pb_completed_ns b) \<and> length (pb_children b) \<le> kMaxRecords"

definition members_disjoint :: "PersistedBatch list \<Rightarrow> bool" where
  "members_disjoint bs \<longleftrightarrow> (\<forall>b \<in> set bs. \<forall>c \<in> set bs. pb_id b \<noteq> pb_id c \<longrightarrow>
     \<not> is_batch_terminal (pb_state b) \<longrightarrow> \<not> is_batch_terminal (pb_state c) \<longrightarrow>
     set (pb_members b) \<inter> set (pb_members c) = {})"

definition runtime_ok :: "PersistedRuntime \<Rightarrow> bool" where
  "runtime_ok rt \<longleftrightarrow>
     length (rt_requests rt) \<le> kMaxRecords \<and> length (rt_attempts rt) \<le> kMaxRecords \<and>
     length (rt_batches rt) \<le> kMaxRecords \<and> length (rt_fairness_served rt) \<le> kMaxRecords \<and>
     (\<forall>r \<in> set (rt_requests rt). request_ok r) \<and> distinct (map pr_id (rt_requests rt)) \<and>
     (\<forall>a \<in> set (rt_attempts rt). attempt_ok a) \<and> distinct (map pa_id (rt_attempts rt)) \<and>
     (\<forall>b \<in> set (rt_batches rt). batch_ok (map pr_id (rt_requests rt)) b) \<and>
     distinct (map pb_id (rt_batches rt)) \<and> members_disjoint (rt_batches rt) \<and>
     std_ok (rt_fairness_served rt) \<and> (\<forall>e \<in> set (rt_fairness_served rt). string_ok (fst e))"

section \<open>Reading back\<close>

text \<open>The contract of a record parser that is run in a counted loop.\<close>

locale record_codec =
  fixes wr :: "'a \<Rightarrow> u8 list" and parse1 :: "'a list \<Rightarrow> u8 list \<Rightarrow> ('a \<times> u8 list) Result"
    and ok :: "'a \<Rightarrow> bool" and key :: "'a \<Rightarrow> 'k"
  assumes parse_wr: "ok x \<Longrightarrow> key x \<notin> key ` set prev \<Longrightarrow> parse1 prev (wr x @ r) = Inr (x, r)"
begin

lemma loop_wr:
  "\<forall>x \<in> set xs. ok x \<Longrightarrow> distinct (map key xs) \<Longrightarrow> key ` set prev \<inter> key ` set xs = {} \<Longrightarrow>
     parse_loop parse1 (length xs) prev (concat (map wr xs) @ r) = Inr (prev @ xs, r)"
proof (induction xs arbitrary: prev)
  case (Cons x xs)
  then show ?case by (auto simp: parse_wr)
qed simp

end

lemma expect_codec:
  "rd r = Some x \<Longrightarrow> expect rd why r = Inr x"
  by (simp add: expect_def)

lemma rd_pair_wr: "f r = Some (x, r') \<Longrightarrow> g r' = Some (y, r'') \<Longrightarrow> rd_pair f g r = Some ((x, y), r'')"
  by (simp add: rd_pair_def)

lemma parse_ids_wr: "parse_ids why (length is) (concat (map wr_id is) @ r) = Inr (is, r)"
proof -
  have "parse_loop (\<lambda>_. expect rd_id why) (length is) prev (concat (map wr_id is) @ r) = Inr (prev @ is, r)"
    for prev
    by (induction "is" arbitrary: prev) (simp_all add: expect_def idc.rd_wr)
  then show ?thesis by (simp add: parse_ids_def)
qed

lemma enum_casts:
  "the (RequestState_cast (RequestState_value a)) = a" "the (BatchState_cast (BatchState_value b)) = b"
  "the (SealReason_cast (SealReason_value c)) = c"
  by simp_all

lemma state_enum_ok:
  "enum_ok (RequestState_value a) 12" "enum_ok (BatchState_value b) 8" "enum_ok (SealReason_value c) 10"
proof -
  show "enum_ok (RequestState_value a) 12" by (cases a) (simp_all add: enum_ok_def word_le_nat_alt)
  show "enum_ok (BatchState_value b) 8" by (cases b) (simp_all add: enum_ok_def word_le_nat_alt)
  show "enum_ok (SealReason_value c) 10" by (cases c) (simp_all add: enum_ok_def word_le_nat_alt)
qed

lemma count64: "n \<le> 1024 \<Longrightarrow> unat (of_nat n :: u64) = n" "n \<le> kMaxRecords \<Longrightarrow> unat (of_nat n :: u64) = n"
  by (simp_all add: unat_of_nat kMaxRecords_def)

lemma descriptor_rd_wr: "descriptor_ok d \<Longrightarrow> read_descriptor (write_descriptor d @ r) = Some (d, r)"
  by (simp add: read_descriptor_def write_descriptor_def codec count_guard count_ok descriptor_ok_def
      desc_ok_def enum_ok_defs strc.rd_times_wr)

lemma rd_times_8:
  "rd_times rd_u64 8 (wr_u64 a @ wr_u64 b @ wr_u64 c @ wr_u64 d @ wr_u64 e @ wr_u64 f @ wr_u64 g @ wr_u64 h @ r)
     = Some ([a, b, c, d, e, f, g, h], r)"
  by (simp add: numeral_eq_Suc u64c.rd_wr)

lemmas parse_simps = expect_def rd_pair_def require_def codec enum_casts state_enum_ok

interpretation reqc: record_codec write_request parse_request request_ok pr_id
proof
  show "parse_request prev (write_request x @ r) = Inr (x, r)"
    if "request_ok x" "pr_id x \<notin> pr_id ` set prev" for x prev r
  proof -
    have "\<not> (of_nat (length (pr_attempt_ids x)) :: u64) > 1024"
      using that by (simp add: word_less_nat_alt not_less count64 request_ok_def)
    then show ?thesis
      using that
      by (simp add: parse_request_def write_request_def write_ids_def request_ok_def parse_simps
          descriptor_rd_wr count64 parse_ids_wr enum_ok_defs)
  qed
qed

interpretation attc: record_codec write_attempt parse_attempt attempt_ok pa_id
  by unfold_locales
    (simp add: parse_attempt_def write_attempt_def attempt_ok_def parse_simps enum_ok_defs)

lemma parse_members_wr:
  "set ms \<subseteq> set req_ids \<Longrightarrow> parse_loop (\<lambda>_. parse_member req_ids) (length ms) prev (concat (map wr_id ms) @ r)
     = Inr (prev @ ms, r)"
  by (induction ms arbitrary: prev) (simp_all add: parse_member_def parse_simps)

text \<open>What the parser makes of a batch up to its lineage.\<close>

definition parse_lineage :: "PersistedBatch list \<Rightarrow> PersistedBatch \<Rightarrow> u8 list \<Rightarrow>
    (PersistedBatch \<times> u8 list) Result" where
  "parse_lineage prev b r =
     rbind (expect (rd_pair rd_u64 rd_u64) ''truncated lineage'' r) (\<lambda>((np, nc), r).
     rbind (require (\<not> (unat np > kMaxRecords \<or> unat nc > kMaxRecords)) ''impossible lineage'') (\<lambda>_.
     rbind (parse_ids ''truncated parent'' (unat np) r) (\<lambda>(parents, r).
     rbind (parse_ids ''truncated child'' (unat nc) r) (\<lambda>(children, r).
     rbind (require (\<not> (is_null (pb_id b) \<or> pb_id b \<in> set (map pb_id prev))) ''duplicate batch id'') (\<lambda>_.
       Inr (b\<lparr>pb_parents := parents, pb_children := children\<rparr>, r))))))"

lemma batch_record:
  "\<lparr>pb_id = pb_id b, pb_generation = pb_generation b, pb_epoch = pb_epoch b, pb_state = pb_state b,
     pb_key = pb_key b, pb_members = pb_members b,
     pb_used = \<lparr>acc_count = acc_count (pb_used b), acc_input_tokens = acc_input_tokens (pb_used b),
       acc_output_tokens = acc_output_tokens (pb_used b), acc_work = acc_work (pb_used b),
       acc_memory = acc_memory (pb_used b)\<rparr>,
     pb_formed_ns = pb_formed_ns b, pb_sealed_ns = pb_sealed_ns b, pb_dispatched_ns = pb_dispatched_ns b,
     pb_completed_ns = pb_completed_ns b, pb_seal_reason = pb_seal_reason b, pb_worker = pb_worker b,
     pb_boot = pb_boot b, pb_parents = ps, pb_children = cs\<rparr> = b\<lparr>pb_parents := ps, pb_children := cs\<rparr>"
  by (cases b) simp

lemma parse_batch_wr:
  assumes "batch_ok req_ids b"
  shows "parse_batch req_ids prev (write_batch b @ r)
    = parse_lineage prev b (write_ids (pb_parents b) @ write_ids (pb_children b) @ r)"
proof -
  have "CompatibilityKey (key_digest (pb_key b)) = pb_key b" by simp
  then show ?thesis
    using assms
    by (simp add: parse_batch_def write_batch_def write_ids_def [of "pb_members b"] batch_ok_def
        parse_simps count64 parse_members_wr bytes32_ok_def parse_lineage_def batch_record)
qed

interpretation batc: record_codec write_batch "parse_batch req_ids"
    "\<lambda>b. batch_ok req_ids b \<and> pb_parents b = []" pb_id
proof
  show "parse_batch req_ids prev (write_batch x @ r) = Inr (x, r)"
    if "batch_ok req_ids x \<and> pb_parents x = []" "pb_id x \<notin> pb_id ` set prev" for x prev r
    using that
    by (simp add: parse_batch_wr parse_lineage_def write_ids_def parse_simps count64 batch_ok_def
        parse_ids_wr parse_ids_wr [of _ "[]", simplified])
qed

interpretation servec: record_codec write_served parse_served "\<lambda>e. string_ok (fst e)" fst
  by unfold_locales (simp add: parse_served_def write_served_def parse_simps)

text \<open>Entries that arrive in ascending order are appended.\<close>

lemma std_insert_last: "\<forall>k' \<in> set (std_keys m). k' < k \<Longrightarrow> std_insert k v m = m @ [(k, v)]"
  by (induction m) (auto simp: std_keys_def)

lemma fold_insert_sorted: "std_ok (m @ m') \<Longrightarrow> fold (\<lambda>(k, v). std_insert k v) m' m = m @ m'"
proof (induction m' arbitrary: m)
  case (Cons e m')
  obtain k v where e: "e = (k, v)" by force
  have "\<forall>k' \<in> set (std_keys m). k' < k"
    using Cons.prems by (force simp: std_ok_def std_keys_def e sorted_append)
  then show ?case using Cons by (simp add: e std_insert_last)
qed simp

lemma claim_members_ok:
  assumes "\<And>m c. m \<in> set ms \<Longrightarrow> map_of act m = Some c \<Longrightarrow> c = b"
  shows "\<exists>act'. claim_members b ms act = Some act' \<and>
    (\<forall>m c. map_of act' m = Some c \<longrightarrow> map_of act m = Some c \<or> (m \<in> set ms \<and> c = b))"
  using assms
proof (induction ms arbitrary: act)
  case (Cons m ms)
  let ?act = "std_insert m b act"
  have step: "claim_members b (m # ms) act = claim_members b ms ?act"
    using Cons.prems [of m] by (auto split: option.split)
  have "c = b" if "m' \<in> set ms" "map_of ?act m' = Some c" for m' c
    using that Cons.prems [of m' c] by (auto simp: map_of_std_insert split: if_splits)
  then obtain act' where "claim_members b ms ?act = Some act'"
    "\<forall>m' c. map_of act' m' = Some c \<longrightarrow> map_of ?act m' = Some c \<or> (m' \<in> set ms \<and> c = b)"
    using Cons.IH [of ?act] by blast
  then show ?case unfolding step by (auto simp: map_of_std_insert split: if_splits)
qed simp

lemma claim_batches_ok:
  assumes "\<And>b m c. b \<in> set bs \<Longrightarrow> \<not> is_batch_terminal (pb_state b) \<Longrightarrow> m \<in> set (pb_members b) \<Longrightarrow>
      map_of act m = Some c \<Longrightarrow> c = pb_id b" and "members_disjoint bs"
  shows "claim_batches bs act \<noteq> None"
  using assms
proof (induction bs arbitrary: act)
  case (Cons b bs)
  have dis: "members_disjoint bs" using Cons.prems(2) by (auto simp: members_disjoint_def)
  show ?case
  proof (cases "is_batch_terminal (pb_state b)")
    case True
    have "claim_batches bs act \<noteq> None"
      by (rule Cons.IH [OF _ dis]) (rule Cons.prems(1) [OF list.set_intros(2)])
    then show ?thesis using True by simp
  next
    case False
    obtain act' where act': "claim_members (pb_id b) (pb_members b) act = Some act'"
      "\<forall>m c. map_of act' m = Some c \<longrightarrow> map_of act m = Some c \<or> (m \<in> set (pb_members b) \<and> c = pb_id b)"
      using claim_members_ok [of "pb_members b" act "pb_id b"] Cons.prems(1) [OF list.set_intros(1) False]
      by blast
    have "claim_batches bs act' \<noteq> None"
    proof (rule Cons.IH [OF _ dis])
      fix b' m c
      assume b': "b' \<in> set bs" "\<not> is_batch_terminal (pb_state b')" "m \<in> set (pb_members b')" "map_of act' m = Some c"
      then consider "map_of act m = Some c" | "m \<in> set (pb_members b)" "c = pb_id b" using act'(2) by blast
      then show "c = pb_id b'"
      proof cases
        case 1
        then show ?thesis using Cons.prems(1) b'(1-3) by simp
      next
        case 2
        then have "pb_id b = pb_id b'"
          using Cons.prems(2) b'(1-3) False unfolding members_disjoint_def by fastforce
        with 2 show ?thesis by simp
      qed
    qed
    then show ?thesis using False act'(1) by simp
  qed
qed simp

section \<open>The whole image\<close>

definition save_counters :: "PersistedRuntime \<Rightarrow> u64 list" where
  "save_counters rt = [id_value (rt_epoch rt), rt_next_request rt, rt_next_batch rt, rt_next_attempt rt,
     rt_next_generation rt, of_nat (length (rt_requests rt)), of_nat (length (rt_attempts rt)),
     of_nat (length (rt_batches rt))]"

definition save_records :: "PersistedRuntime \<Rightarrow> u8 list" where
  "save_records rt = concat (map write_request (rt_requests rt)) @
     concat (map write_attempt (rt_attempts rt)) @ concat (map write_batch (rt_batches rt)) @
     wr_u64 (of_nat (length (rt_fairness_served rt))) @ concat (map write_served (rt_fairness_served rt))"

lemma save_body_parts:
  "save_body rt = wr_u32 kMagic @ wr_u32 kFormatVersion @ concat (map wr_u64 (save_counters rt)) @ save_records rt"
  by (simp add: save_body_def save_counters_def save_records_def)

lemma save_counters_nth:
  "save_counters rt ! 0 = id_value (rt_epoch rt)" "save_counters rt ! Suc 0 = rt_next_request rt"
  "save_counters rt ! 2 = rt_next_batch rt" "save_counters rt ! 3 = rt_next_attempt rt"
  "save_counters rt ! 4 = rt_next_generation rt" "save_counters rt ! 5 = of_nat (length (rt_requests rt))"
  "save_counters rt ! 6 = of_nat (length (rt_attempts rt))"
  "save_counters rt ! 7 = of_nat (length (rt_batches rt))"
  by (simp_all add: save_counters_def)

lemma parse_header:
  assumes "length (rt_requests rt) \<le> kMaxRecords" and "length (rt_attempts rt) \<le> kMaxRecords"
    and "length (rt_batches rt) \<le> kMaxRecords"
  shows "parse (save_bytes rt) = parse_records (save_counters rt) (save_records rt @ Sha256_digest (save_body rt))"
proof -
  let ?b = "save_body rt"
  have len: "length (save_bytes rt) = length ?b + 32"
    by (simp add: save_bytes_def Let_def length_Sha256_digest)
  have "length ?b \<ge> 72"
    by (simp add: save_body_parts save_counters_def wr_lengths)
  then have 1: "\<not> length (save_bytes rt) < 44" using len by simp
  have 2: "take (length ?b) (save_bytes rt) = ?b" "drop (length ?b) (save_bytes rt) = Sha256_digest ?b"
    by (simp_all add: save_bytes_def Let_def)
  have 3: "rd_times rd_u64 8 (concat (map wr_u64 (save_counters rt)) @ r) = Some (save_counters rt, r)" for r
    by (simp add: save_counters_def rd_times_8)
  have "save_bytes rt = wr_u32 kMagic @ wr_u32 kFormatVersion @ concat (map wr_u64 (save_counters rt)) @
      save_records rt @ Sha256_digest ?b"
    by (simp add: save_bytes_def Let_def) (simp add: save_body_parts)
  then have 4: "expect (rd_pair rd_u32 rd_u32) why (save_bytes rt) = Inr ((kMagic, kFormatVersion),
      concat (map wr_u64 (save_counters rt)) @ save_records rt @ Sha256_digest ?b)" for why
    by (simp add: parse_simps)
  show ?thesis
    using assms 1 2 len by (simp add: parse_def 4) (simp add: require_def expect_def 3 save_counters_nth count64)
qed

lemma parse_records_upto_batches:
  assumes "runtime_ok rt"
  shows "parse_records (save_counters rt) (save_records rt @ d) =
     rbind (parse_loop (parse_batch (map pr_id (rt_requests rt))) (length (rt_batches rt)) []
       (concat (map write_batch (rt_batches rt)) @ wr_u64 (of_nat (length (rt_fairness_served rt))) @
        concat (map write_served (rt_fairness_served rt)) @ d)) (\<lambda>(batches, r).
     rbind (expect rd_u64 ''truncated fairness'' r) (\<lambda>(nfair, r).
     rbind (require (\<not> unat nfair > kMaxRecords) ''impossible fairness count'') (\<lambda>_.
     rbind (parse_loop parse_served (unat nfair) [] r) (\<lambda>(served, r).
     rbind (require (claim_batches batches [] \<noteq> None) ''request in two active batches'') (\<lambda>_.
     rbind (require (length r = 32) ''trailing garbage'') (\<lambda>_.
       Inr (rt\<lparr>rt_batches := batches,
         rt_fairness_served := fold (\<lambda>(k, v). std_insert k v) served []\<rparr>)))))))"
proof -
  have r: "\<lparr>rt_epoch = rt_epoch rt, rt_next_request = rt_next_request rt,
      rt_next_batch = rt_next_batch rt, rt_next_attempt = rt_next_attempt rt,
      rt_next_generation = rt_next_generation rt, rt_requests = rt_requests rt,
      rt_attempts = rt_attempts rt, rt_batches = bs, rt_fairness_served = f\<rparr>
    = rt\<lparr>rt_batches := bs, rt_fairness_served := f\<rparr>" for bs f
    by (cases rt) simp
  show ?thesis
    using assms
    by (simp add: parse_records_def save_records_def save_counters_nth count64 runtime_ok_def
        reqc.loop_wr attc.loop_wr r)
qed

text \<open>What becomes of a lineage: the two counts are read before the ids, but written in front of each list.\<close>

lemma parse_loop_prefix: "parse_loop f n xs r = Inr (ys, r') \<Longrightarrow> \<exists>zs. ys = xs @ zs"
  by (induction n arbitrary: xs r) (fastforce simp: rbind_eq_Inr)+

lemma parse_loop_split: "parse_loop f (m + n) xs r = rbind (parse_loop f m xs r) (\<lambda>(ys, r). parse_loop f n ys r)"
proof (induction m arbitrary: xs r)
  case (Suc m)
  then show ?case by (cases "f xs r") (auto split: prod.split)
qed simp

lemma lineage_shift:
  assumes "pb_parents b \<noteq> []" and "length (pb_parents b) \<le> kMaxRecords"
    and "parse_lineage prev b (write_ids (pb_parents b) @ write_ids (pb_children b) @ r) = Inr (b', r')"
  shows "pb_parents b' = tl (pb_parents b) @ [Id (of_nat (length (pb_children b)))]"
proof -
  let ?n = "of_nat (length (pb_children b)) :: u64"
  let ?rest = "concat (map wr_id (pb_children b)) @ r"
  obtain p ps where ps: "pb_parents b = p # ps" using assms(1) by (cases "pb_parents b") auto
  have bytes: "write_ids (pb_parents b) @ write_ids (pb_children b) @ r
      = wr_u64 (of_nat (length (pb_parents b))) @ wr_u64 (id_value p) @ concat (map wr_id (ps @ [Id ?n])) @ ?rest"
    by (simp add: write_ids_def ps wr_id_def)
  have "parse_ids why (unat (of_nat (length (pb_parents b)) :: u64)) (concat (map wr_id (ps @ [Id ?n])) @ ?rest)
      = Inr (ps @ [Id ?n], ?rest)" for why
    using parse_ids_wr [of why "ps @ [Id ?n]" ?rest] count64(2) [OF assms(2)] by (simp add: ps)
  then show ?thesis
    using assms(3) unfolding bytes parse_lineage_def
    by (auto simp: rbind_eq_Inr require_def expect_def rd_pair_def codec ps split: if_splits)
qed

lemma saved_image_parsed:
  assumes "runtime_ok rt" and "\<forall>b \<in> set (rt_batches rt). pb_parents b = []"
  shows "parse (save_bytes rt) = Inr rt"
proof -
  have "claim_batches (rt_batches rt) [] \<noteq> None"
    using assms(1) by (intro claim_batches_ok) (simp_all add: runtime_ok_def)
  moreover have "fold (\<lambda>(k, v). std_insert k v) (rt_fairness_served rt) [] = rt_fairness_served rt"
    using fold_insert_sorted [of "[]" "rt_fairness_served rt"] assms(1) by (simp add: runtime_ok_def)
  moreover have "distinct (map fst (rt_fairness_served rt))"
    using assms(1) by (simp add: runtime_ok_def std_ok_def std_keys_def)
  ultimately show ?thesis
    using assms parse_header [of rt] parse_records_upto_batches [OF assms(1)]
    by (simp add: runtime_ok_def batc.loop_wr expect_def codec require_def count64 servec.loop_wr
        length_Sha256_digest)
qed

text \<open>What acceptance implies.\<close>

lemma parse_loop_all:
  assumes "parse_loop f n xs r = Inr (ys, r')" and "\<And>xs r x r'. f xs r = Inr (x, r') \<Longrightarrow> Q x"
    and "\<forall>x \<in> set xs. Q x"
  shows "\<forall>x \<in> set ys. Q x"
  using assms(1,3)
proof (induction n arbitrary: xs r)
  case (Suc n)
  then obtain x r1 where "f xs r = Inr (x, r1)" "parse_loop f n (xs @ [x]) r1 = Inr (ys, r')"
    by (auto simp: rbind_eq_Inr)
  then show ?case using Suc.IH [of "xs @ [x]" r1] Suc.prems(2) assms(2) by auto
qed simp

lemma parse_loop_keys:
  assumes "parse_loop f n [] r = Inr (ys, r')"
    and "\<And>xs r x r'. f xs r = Inr (x, r') \<Longrightarrow> \<not> is_null (key x) \<and> key x \<notin> key ` set xs"
  shows "distinct (map key ys) \<and> (\<forall>y \<in> set ys. \<not> is_null (key y))"
proof -
  have "distinct (map key ys)" if "parse_loop f n xs r = Inr (ys, r')" "distinct (map key xs)" for xs r n
    using that
  proof (induction n arbitrary: xs r)
    case (Suc n)
    then obtain x r1 where "f xs r = Inr (x, r1)" "parse_loop f n (xs @ [x]) r1 = Inr (ys, r')"
      by (auto simp: rbind_eq_Inr)
    then show ?case using Suc.IH [of "xs @ [x]" r1] Suc.prems(2) assms(2) by auto
  qed simp
  then show ?thesis
    using assms parse_loop_all [OF assms(1), of "\<lambda>y. \<not> is_null (key y)"] by auto
qed

lemma parse_request_key:
  "parse_request prev r = Inr (x, r') \<Longrightarrow> \<not> is_null (pr_id x) \<and> pr_id x \<notin> pr_id ` set prev"
  by (auto simp: parse_request_def rbind_eq_Inr require_def corrupt_def split: if_splits)

lemma parse_attempt_key:
  "parse_attempt prev r = Inr (x, r') \<Longrightarrow> \<not> is_null (pa_id x) \<and> pa_id x \<notin> pa_id ` set prev"
  by (auto simp: parse_attempt_def rbind_eq_Inr require_def corrupt_def split: if_splits)

lemma parse_batch_key:
  "parse_batch ids prev r = Inr (x, r') \<Longrightarrow> \<not> is_null (pb_id x) \<and> pb_id x \<notin> pb_id ` set prev"
  by (auto simp: parse_batch_def rbind_eq_Inr require_def corrupt_def split: if_splits)

lemma parse_batch_members:
  assumes "parse_batch ids prev r = Inr (x, r')"
  shows "set (pb_members x) \<subseteq> set ids"
proof -
  obtain n r1 r2 where "parse_loop (\<lambda>_. parse_member ids) n [] r1 = Inr (pb_members x, r2)"
    using assms by (auto simp: parse_batch_def rbind_eq_Inr)
  then have "\<forall>m \<in> set (pb_members x). m \<in> set ids"
    by (rule parse_loop_all) (auto simp: parse_member_def rbind_eq_Inr require_def corrupt_def split: if_splits)
  then show ?thesis by blast
qed

lemma claim_members_sound:
  "claim_members b ms act = Some act' \<Longrightarrow> map_of act \<subseteq>\<^sub>m map_of act' \<and> (\<forall>m \<in> set ms. map_of act' m = Some b)"
proof (induction ms arbitrary: act)
  case (Cons m ms)
  then have step: "claim_members b ms (std_insert m b act) = Some act'"
    and m: "map_of act m = None \<or> map_of act m = Some b"
    by (auto split: option.splits if_splits)
  have "map_of act \<subseteq>\<^sub>m map_of (std_insert m b act)" "map_of (std_insert m b act) m = Some b"
    using m by (auto simp: map_le_def map_of_std_insert)
  then show ?case using Cons.IH [OF step] by (auto intro: map_le_trans simp: map_le_def dom_def)
qed simp

lemma claim_batches_sound:
  "claim_batches bs act = Some act' \<Longrightarrow> map_of act \<subseteq>\<^sub>m map_of act' \<and>
     (\<forall>b \<in> set bs. \<not> is_batch_terminal (pb_state b) \<longrightarrow> (\<forall>m \<in> set (pb_members b). map_of act' m = Some (pb_id b)))"
proof (induction bs arbitrary: act)
  case (Cons b bs)
  show ?case
  proof (cases "is_batch_terminal (pb_state b)")
    case True
    then show ?thesis using Cons by simp
  next
    case False
    then obtain a where a: "claim_members (pb_id b) (pb_members b) act = Some a" "claim_batches bs a = Some act'"
      using Cons.prems by (auto split: option.splits)
    have "map_of act' m = Some (pb_id b)" if "m \<in> set (pb_members b)" for m
      using claim_members_sound [OF a(1)] Cons.IH [OF a(2)] that by (auto simp: map_le_def dom_def)
    then show ?thesis
      using claim_members_sound [OF a(1)] Cons.IH [OF a(2)] map_le_trans by auto
  qed
qed simp

lemma claims_disjoint:
  assumes "claim_batches bs [] \<noteq> None"
  shows "members_disjoint bs"
proof -
  obtain act where act: "\<forall>b \<in> set bs. \<not> is_batch_terminal (pb_state b) \<longrightarrow>
      (\<forall>m \<in> set (pb_members b). map_of act m = Some (pb_id b))"
    using assms claim_batches_sound by blast
  show ?thesis unfolding members_disjoint_def
  proof (intro ballI impI)
    fix b c
    assume "b \<in> set bs" "c \<in> set bs" "pb_id b \<noteq> pb_id c" "\<not> is_batch_terminal (pb_state b)"
      "\<not> is_batch_terminal (pb_state c)"
    then show "set (pb_members b) \<inter> set (pb_members c) = {}"
      using act by (metis disjoint_iff option.inject)
  qed
qed

lemma saved_state:
  assumes "save os rt path fs = (res, fs')"
  shows "(res \<noteq> Inr () \<longrightarrow> fs' path = fs path) \<and>
    (res = Inr () \<longrightarrow> fs' path = Some (take (sv_reached os) (save_bytes rt)))"
proof -
  have "tmp_name path \<noteq> path" by (simp add: tmp_name_def)
  then show ?thesis using assms by (auto simp: save_def Let_def split: if_splits)
qed

lemma save_load_image:
  assumes "save os rt path fs = (Inr (), fs')" and "length (save_bytes rt) \<le> sv_reached os"
    and "length (save_bytes rt) \<le> kMaxRecords * 8 + 4096" and "runtime_ok rt"
    and "\<forall>b \<in> set (rt_batches rt). pb_parents b = []"
  shows "load True True path fs' = Inr rt"
  using saved_state [OF assms(1)] saved_image_parsed [OF assms(4,5)] assms(2,3) by (simp add: load_def)

section \<open>Properties\<close>



text \<open>
  C28: a save that reports an error leaves the state file as it was, whatever the file system did;
  one that reports success has replaced it by the bytes that reached the temporary file, and those
  are the whole image if the data was flushed. An image that was saved whole, is not larger than
  the limit of the loader and can be read is loaded again as it was saved.
\<close>

theorem save_replaces_the_file_or_keeps_it:
  assumes "save os rt path fs = (res, fs')"
  shows "(res \<noteq> Inr () \<longrightarrow> fs' path = fs path) \<and>
    (res = Inr () \<longrightarrow> fs' path = Some (take (sv_reached os) (save_bytes rt))) \<and>
    (res = Inr () \<and> sv_reached os \<ge> length (save_bytes rt) \<and>
       length (save_bytes rt) \<le> kMaxRecords * 8 + 4096 \<and> runtime_ok rt \<and>
       (\<forall>b \<in> set (rt_batches rt). pb_parents b = []) \<longrightarrow> load True True path fs' = Inr rt)"
  using saved_state save_load_image [of os rt path fs fs'] assms by blast

text \<open>
  C25: the parser accepts only consistent images, from any bytes: the digest of the body is right,
  request, attempt and batch ids are not null and not repeated, every member of a batch is a saved
  request, and no request is in two different unfinished batches.
\<close>

theorem accepted_image_consistent:
  assumes "parse bytes = Inr rt"
  shows "drop (length bytes - 32) bytes = Sha256_digest (take (length bytes - 32) bytes) \<and>
    distinct (map pr_id (rt_requests rt)) \<and> (\<forall>r \<in> set (rt_requests rt). \<not> is_null (pr_id r)) \<and>
    distinct (map pa_id (rt_attempts rt)) \<and> (\<forall>a \<in> set (rt_attempts rt). \<not> is_null (pa_id a)) \<and>
    distinct (map pb_id (rt_batches rt)) \<and> (\<forall>b \<in> set (rt_batches rt). \<not> is_null (pb_id b)) \<and>
    (\<forall>b \<in> set (rt_batches rt). set (pb_members b) \<subseteq> pr_id ` set (rt_requests rt)) \<and>
    members_disjoint (rt_batches rt)"
proof -
  obtain n1 n2 n3 r r1 r2 r3 where
    req: "parse_loop parse_request n1 [] r = Inr (rt_requests rt, r1)" and
    att: "parse_loop parse_attempt n2 [] r1 = Inr (rt_attempts rt, r2)" and
    bat: "parse_loop (parse_batch (map pr_id (rt_requests rt))) n3 [] r2 = Inr (rt_batches rt, r3)" and
    claim: "claim_batches (rt_batches rt) [] \<noteq> None" and
    sum: "drop (length bytes - 32) bytes = Sha256_digest (take (length bytes - 32) bytes)"
    using assms
    by (auto simp: parse_def parse_records_def rbind_eq_Inr require_def corrupt_def split: if_splits)
  have "\<forall>b \<in> set (rt_batches rt). set (pb_members b) \<subseteq> pr_id ` set (rt_requests rt)"
    using parse_loop_all [OF bat, of "\<lambda>b. set (pb_members b) \<subseteq> pr_id ` set (rt_requests rt)"]
      parse_batch_members by fastforce
  then show ?thesis
    using sum parse_loop_keys [OF req parse_request_key] parse_loop_keys [OF att parse_attempt_key]
      parse_loop_keys [OF bat parse_batch_key] claims_disjoint [OF claim] by simp
qed

section \<open>Witnesses\<close>

text \<open>A saved runtime with one request, its attempt and its sealed batch.\<close>

definition saved_request :: PersistedRequest where
  "saved_request = \<lparr>pr_id = Id 1, pr_tenant = Id 7, pr_session = null_id, pr_sequence = null_id,
     pr_descriptor = default_descriptor, pr_tokens = \<lparr>tok_input = 1, tok_output = 2\<rparr>,
     pr_work = \<lparr>work_value = 3\<rparr>, pr_memory_bytes = 0, pr_deadline = \<lparr>absolute_ns = 0\<rparr>,
     pr_latency = LC_batch, pr_priority = PC_normal, pr_payload = ''p'', pr_state = RS_batched,
     pr_submitted_ns = 5, pr_batch = Id 1, pr_current_attempt = Id 1, pr_attempt_ids = [Id 1]\<rparr>"

definition saved_attempt :: PersistedAttempt where
  "saved_attempt = \<lparr>pa_id = Id 1, pa_number = 1, pa_state = RS_eligible, pa_batch = null_id,
     pa_outcome = CS_success, pa_result = [], pa_started = 0, pa_completed = 0\<rparr>"

definition saved_batch :: PersistedBatch where
  "saved_batch = \<lparr>pb_id = Id 1, pb_generation = Id 1, pb_epoch = Id 1, pb_state = BS_sealed,
     pb_key = null_key, pb_members = [Id 1], pb_used = empty_accum, pb_formed_ns = 5, pb_sealed_ns = 6,
     pb_dispatched_ns = 0, pb_completed_ns = 0, pb_seal_reason = SR_max_wait_elapsed,
     pb_worker = null_id, pb_boot = null_id, pb_parents = [], pb_children = []\<rparr>"

definition saved_runtime :: PersistedRuntime where
  "saved_runtime = \<lparr>rt_epoch = Id 1, rt_next_request = 2, rt_next_batch = 2, rt_next_attempt = 2,
     rt_next_generation = 2, rt_requests = [saved_request], rt_attempts = [saved_attempt],
     rt_batches = [saved_batch], rt_fairness_served = [(''7'', 3)]\<rparr>"

lemma default_descriptor_ok: "descriptor_ok default_descriptor"
  using default_desc_ok
  by (simp add: descriptor_ok_def)
    (simp add: default_descriptor_def default_device_def enum_ok_def enum_ok_unknown_def word_le_nat_alt)

lemma saved_runtime_ok:
  "runtime_ok saved_runtime" "runtime_ok (saved_runtime\<lparr>rt_batches := [saved_batch\<lparr>pb_parents := [Id 9]\<rparr>]\<rparr>)"
  by (simp_all add: runtime_ok_def saved_runtime_def kMaxRecords_def request_ok_def saved_request_def
      attempt_ok_def saved_attempt_def batch_ok_def saved_batch_def default_descriptor_ok
      members_disjoint_def std_ok_def std_keys_def string_ok_short time_ok_def enum_ok_def enum_ok_unknown_def
      enum_ok_defs LatencyClass_cast_def PriorityClass_cast_def CompletionStatus_cast_def null_key_def
      zero_digest_def is_null_def null_id_def word_le_nat_alt)



theorem save_replaces_the_file_or_keeps_it_witness:
  "\<exists>fs. save \<lparr>sv_open = True, sv_write = False, sv_reached = 9, sv_rename = True\<rparr> saved_runtime ''s''
       [''s'' \<mapsto> [1, 2]] = (Result_err EC_persistence_failure ''write failed during save'', fs) \<and>
     fs ''s'' = Some [1, 2]"
proof -
  let ?os = "\<lparr>sv_open = True, sv_write = False, sv_reached = 9, sv_rename = True\<rparr>"
  obtain fs where fs: "save ?os saved_runtime ''s'' [''s'' \<mapsto> [1, 2]]
      = (Result_err EC_persistence_failure ''write failed during save'', fs)"
    by (simp add: save_def Let_def)
  then show ?thesis
    using save_replaces_the_file_or_keeps_it [OF fs] by simp
qed

theorem accepted_image_consistent_witness:
  "distinct (map pr_id (rt_requests saved_runtime)) \<and> members_disjoint (rt_batches saved_runtime) \<and>
     set (pb_members saved_batch) \<subseteq> pr_id ` set (rt_requests saved_runtime)"
proof -
  have "parse (save_bytes saved_runtime) = Inr saved_runtime"
    by (rule saved_image_parsed [OF saved_runtime_ok(1)]) (simp add: saved_runtime_def saved_batch_def)
  from accepted_image_consistent [OF this] show ?thesis
    by (simp add: saved_runtime_def)
qed

end
