(* ===== verification/Recovery.thy ===== *)
theory Recovery
  imports Sched_Store Persistence
begin

text \<open>
  The bridge between the scheduler and the state file: \<open>build_persisted\<close>, \<open>load_persisted\<close> and the
  public \<open>persist_to\<close> and \<open>recover_from\<close> of \<open>scheduler.cpp\<close>. What a recovery restores is a function
  of the records saved, and the structural invariant of the scheduler survives it.
\<close>

section \<open>Saving\<close>

definition persist_request :: "RequestRec \<Rightarrow> PersistedRequest" where
  "persist_request r = \<lparr>pr_id = req_id r, pr_tenant = m_tenant (req_meta r),
     pr_session = m_session (req_meta r), pr_sequence = m_sequence (req_meta r),
     pr_descriptor = m_descriptor (req_meta r), pr_tokens = m_tokens (req_meta r),
     pr_work = m_work (req_meta r), pr_memory_bytes = m_memory_bytes (req_meta r),
     pr_deadline = m_deadline (req_meta r), pr_latency = m_latency (req_meta r),
     pr_priority = m_priority (req_meta r), pr_payload = m_payload (req_meta r),
     pr_state = req_state r, pr_submitted_ns = req_submitted r, pr_batch = req_batch r,
     pr_current_attempt = req_current_attempt r, pr_attempt_ids = req_attempts r\<rparr>"

definition persist_attempt :: "AttemptRec \<Rightarrow> PersistedAttempt" where
  "persist_attempt a = \<lparr>pa_id = att_id a, pa_number = att_number a, pa_state = att_state a,
     pa_batch = att_batch a, pa_outcome = att_outcome a, pa_result = att_result a,
     pa_started = att_started a, pa_completed = att_completed a\<rparr>"

definition persist_batch :: "BatchRec \<Rightarrow> PersistedBatch" where
  "persist_batch b = \<lparr>pb_id = bat_id b, pb_generation = bat_generation b, pb_epoch = bat_epoch b,
     pb_state = bat_state b, pb_key = bat_key b, pb_members = bat_members b, pb_used = bat_accum b,
     pb_formed_ns = bat_formed_ns b, pb_sealed_ns = bat_sealed_ns b,
     pb_dispatched_ns = bat_dispatched_ns b, pb_completed_ns = bat_completed_ns b,
     pb_seal_reason = bat_seal_reason b, pb_worker = bat_worker b, pb_boot = bat_boot b,
     pb_parents = bat_parents b, pb_children = bat_children b\<rparr>"

definition build_persisted :: "Impl \<Rightarrow> PersistedRuntime" where
  "build_persisted s = \<lparr>rt_epoch = im_epoch s, rt_next_request = im_next_request s,
     rt_next_batch = im_next_batch s, rt_next_attempt = im_next_attempt s,
     rt_next_generation = im_next_generation s,
     rt_requests = map (persist_request \<circ> snd) (im_requests s),
     rt_attempts = map (persist_attempt \<circ> snd) (im_attempts s),
     rt_batches = map (persist_batch \<circ> snd) (im_batches s),
     rt_fairness_served = fold (\<lambda>(t, v). std_insert (to_string_u64 (id_value t)) v)
       (served_all (im_fairness s)) []\<rparr>"

section \<open>Loading\<close>

definition restore_request :: "PersistedRequest \<Rightarrow> RequestRec" where
  "restore_request p = default_request\<lparr>req_id := pr_id p,
     req_meta := \<lparr>m_tenant = pr_tenant p, m_session = pr_session p, m_sequence = pr_sequence p,
       m_descriptor = pr_descriptor p, m_tokens = pr_tokens p, m_work = pr_work p,
       m_memory_bytes = pr_memory_bytes p, m_deadline = pr_deadline p, m_latency = pr_latency p,
       m_priority = pr_priority p, m_payload = pr_payload p\<rparr>,
     req_state := pr_state p, req_submitted := pr_submitted_ns p, req_batch := pr_batch p,
     req_current_attempt := pr_current_attempt p, req_attempts := pr_attempt_ids p,
     req_key := CompatibilityKey_build (pr_descriptor p),
     req_in_waiting := is_waiting_state (pr_state p)\<rparr>"

definition load_request :: "PersistedRequest \<Rightarrow> Impl \<Rightarrow> Impl" where
  "load_request p s =
     (let rec = restore_request p;
          s = (if req_in_waiting rec then set_waiting (index_add (req_key rec) (pr_id p)) s else s)
      in put_request (pr_id p) rec s)"

definition restore_attempt :: "PersistedAttempt \<Rightarrow> AttemptRec" where
  "restore_attempt p = default_attempt\<lparr>att_id := pa_id p, att_number := pa_number p,
     att_state := pa_state p, att_batch := pa_batch p, att_outcome := pa_outcome p,
     att_result := pa_result p, att_started := pa_started p, att_completed := pa_completed p\<rparr>"

definition load_attempt :: "PersistedAttempt \<Rightarrow> Impl \<Rightarrow> Impl" where
  "load_attempt p s = put_attempt (pa_id p) (restore_attempt p) s"

definition restore_batch :: "Impl \<Rightarrow> PersistedBatch \<Rightarrow> BatchRec" where
  "restore_batch s p =
     (let b = default_batch\<lparr>bat_id := pb_id p, bat_generation := pb_generation p,
            bat_epoch := pb_epoch p, bat_state := pb_state p, bat_key := pb_key p,
            bat_members := pb_members p, bat_accum := pb_used p, bat_formed_ns := pb_formed_ns p,
            bat_sealed_ns := pb_sealed_ns p, bat_dispatched_ns := pb_dispatched_ns p,
            bat_completed_ns := pb_completed_ns p, bat_seal_reason := pb_seal_reason p,
            bat_worker := pb_worker p, bat_boot := pb_boot p, bat_parents := pb_parents p,
            bat_children := pb_children p\<rparr>
      in case bat_members b of
           [] \<Rightarrow> b
         | m # _ \<Rightarrow> (case find_request s m of
             None \<Rightarrow> b
           | Some r \<Rightarrow> b\<lparr>bat_descriptor := m_descriptor (req_meta r),
               bat_phase := d_phase (m_descriptor (req_meta r))\<rparr>))"

definition load_batch :: "PersistedBatch \<Rightarrow> Impl \<Rightarrow> Impl" where
  "load_batch p s =
     (let b = restore_batch s p;
          s = (if bat_state b = BS_forming
               then inc st_forming_now_update (set_forming (bat_key b) (bat_id b) s) else s);
          s = (if bat_state b = BS_sealed
               then s\<lparr>im_sealed_order := im_sealed_order s @ [bat_id b]\<rparr> else s)
      in put_batch (pb_id p) b s)"

definition load_served :: "string \<times> u64 \<Rightarrow> FairnessController \<Rightarrow> FairnessController" where
  "load_served e f = (case stoull (fst e) of None \<Rightarrow> f | Some v \<Rightarrow> restore_served (Id v) (snd e) f)"

definition clear_runtime :: "PersistedRuntime \<Rightarrow> Impl \<Rightarrow> Impl" where
  "clear_runtime rt s = s\<lparr>im_epoch := rt_epoch rt, im_next_request := rt_next_request rt,
     im_next_batch := rt_next_batch rt, im_next_attempt := rt_next_attempt rt,
     im_next_generation := rt_next_generation rt, im_requests := [], im_attempts := [],
     im_batches := [], im_forming := [], im_sealed_order := [], im_waiting := index_clear\<rparr>"

definition load_persisted :: "PersistedRuntime \<Rightarrow> Impl \<Rightarrow> Impl" where
  "load_persisted rt s =
     (let s = clear_runtime rt s;
          s = fold load_request (rt_requests rt) s;
          s = fold load_attempt (rt_attempts rt) s;
          s = fold load_batch (rt_batches rt) s;
          s = set_fairness fairness_reset s;
          s = set_fairness (fold load_served (rt_fairness_served rt)) s
      in s\<lparr>im_recovered := True\<rparr>)"

section \<open>The public methods\<close>

definition persist_to :: "SaveAnswers \<Rightarrow> string \<Rightarrow> Impl \<Rightarrow> files \<Rightarrow> unit Result \<times> files" where
  "persist_to os path s fs = save os (build_persisted s) path fs"

definition recover_from :: "bool \<Rightarrow> bool \<Rightarrow> string \<Rightarrow> files \<Rightarrow> Impl \<Rightarrow> unit Result \<times> Impl" where
  "recover_from told readable path fs s =
     (case load told readable path fs of
        Inl e \<Rightarrow> (Result_err (err_code e) (err_message e), s)
      | Inr rt \<Rightarrow> (Inr (), load_persisted rt s))"

section \<open>Tables rebuilt from records\<close>

text \<open>
  The three loading loops have the same shape: each record goes under its own key, and what is stored
  does not depend on the records loaded before. Loading the saved entries of a map then rebuilds
  the map, with every value sent through what is saved and restored of it.
\<close>

locale table_loader =
  fixes find :: "'s \<Rightarrow> 'k \<Rightarrow> 'r option"
    and load :: "'p \<Rightarrow> 's \<Rightarrow> 's"
    and key :: "'p \<Rightarrow> 'k"
    and val :: "'s \<Rightarrow> 'p \<Rightarrow> 'r"
  assumes find_load: "find (load p s) = (find s)(key p \<mapsto> val s p)"
    and val_load: "val (load p s) = val s"
begin

lemma val_loads: "val (fold load ps s) = val s"
  by (induction ps arbitrary: s) (simp_all add: val_load)

lemma find_loads:
  assumes "distinct (map fst m)" and "\<forall>(k, v) \<in> set m. key (conv (k, v)) = k"
  shows "find (fold load (map conv m) s) i
    = (case map_of m i of None \<Rightarrow> find s i | Some v \<Rightarrow> Some (val s (conv (i, v))))"
  using assms by (induction m arbitrary: s) (force simp: find_load val_load split: option.split)+

end

lemma find_loaders:
  "find_request (load_request p s) = (find_request s)(pr_id p \<mapsto> restore_request p)"
  "find_attempt (load_request p s) = find_attempt s"
  "find_batch (load_request p s) = find_batch s"
  "find_request (load_attempt q s) = find_request s"
  "find_attempt (load_attempt q s) = (find_attempt s)(pa_id q \<mapsto> restore_attempt q)"
  "find_batch (load_attempt q s) = find_batch s"
  "find_request (load_batch b s) = find_request s"
  "find_attempt (load_batch b s) = find_attempt s"
  "find_batch (load_batch b s) = (find_batch s)(pb_id b \<mapsto> restore_batch s b)"
  by (auto simp: load_request_def load_attempt_def load_batch_def Let_def fun_eq_iff)

interpretation reql: table_loader find_request load_request pr_id "\<lambda>_. restore_request"
  by unfold_locales (simp_all add: find_loaders)

interpretation attl: table_loader find_attempt load_attempt pa_id "\<lambda>_. restore_attempt"
  by unfold_locales (simp_all add: find_loaders)

lemma restore_batch_cong:
  assumes same: "find_request s = find_request t"
  shows "restore_batch s = restore_batch t"
  unfolding restore_batch_def same by (rule refl)

interpretation batl: table_loader find_batch load_batch pb_id restore_batch
  by unfold_locales (simp_all add: find_loaders restore_batch_cong [of "load_batch p s" s for p s])

section \<open>What survives a recovery\<close>

definition restored_request :: "RequestRec \<Rightarrow> RequestRec" where
  "restored_request r = r\<lparr>req_in_waiting := is_waiting_state (req_state r), req_sealed_ns := 0,
     req_authoritative_complete := False\<rparr>"

definition restored_attempt :: "AttemptRec \<Rightarrow> AttemptRec" where
  "restored_attempt a = a\<lparr>att_error := EC_ok\<rparr>"

definition first_descriptor :: "Impl \<Rightarrow> BatchRec \<Rightarrow> ModelDescriptor" where
  "first_descriptor s b = (case bat_members b of [] \<Rightarrow> default_descriptor
     | m # _ \<Rightarrow> (case find_request s m of None \<Rightarrow> default_descriptor
         | Some r \<Rightarrow> m_descriptor (req_meta r)))"

definition restored_batch :: "Impl \<Rightarrow> BatchRec \<Rightarrow> BatchRec" where
  "restored_batch s b = b\<lparr>bat_descriptor := first_descriptor s b,
     bat_phase := d_phase (first_descriptor s b), bat_local := True,
     bat_allowed_wait_ns := kNoDeadline, bat_outcomes := [], bat_member_results := [],
     bat_cancelled_before_seal := []\<rparr>"

lemma restore_persist_request:
  "req_key r = CompatibilityKey_build (m_descriptor (req_meta r)) \<Longrightarrow>
   restore_request (persist_request r) = restored_request r"
  by (simp add: restore_request_def persist_request_def restored_request_def default_request_def)

lemma restore_persist_attempt: "restore_attempt (persist_attempt a) = restored_attempt a"
  by (simp add: restore_attempt_def persist_attempt_def restored_attempt_def default_attempt_def)

lemma restore_persist_batch: "restore_batch s (persist_batch b) = restored_batch s b"
  by (cases "bat_members b") (auto simp: restore_batch_def persist_batch_def restored_batch_def default_batch_def
      default_descriptor_def first_descriptor_def split: option.split)

lemma loader_fields [simp]:
  "im_next_request (load_request p s) = im_next_request s"
  "im_next_batch (load_request p s) = im_next_batch s"
  "im_next_attempt (load_request p s) = im_next_attempt s"
  "im_forming (load_request p s) = im_forming s"
  "im_sealed_order (load_request p s) = im_sealed_order s"
  "im_next_request (load_attempt q s) = im_next_request s"
  "im_next_batch (load_attempt q s) = im_next_batch s"
  "im_next_attempt (load_attempt q s) = im_next_attempt s"
  "im_forming (load_attempt q s) = im_forming s"
  "im_sealed_order (load_attempt q s) = im_sealed_order s"
  "im_waiting (load_attempt q s) = im_waiting s"
  "im_next_request (load_batch b s) = im_next_request s"
  "im_next_batch (load_batch b s) = im_next_batch s"
  "im_next_attempt (load_batch b s) = im_next_attempt s"
  "im_waiting (load_batch b s) = im_waiting s"
  by (simp_all add: load_request_def load_attempt_def load_batch_def Let_def)

lemma fold_keeps: "(\<And>x s. f (g x s) = f s) \<Longrightarrow> f (fold g xs s) = f s"
  by (induction xs arbitrary: s) simp_all

lemmas loads_fields [simp] = fold_keeps [where f = im_next_request, OF loader_fields(1)]
  fold_keeps [where f = im_next_batch, OF loader_fields(2)]
  fold_keeps [where f = im_next_attempt, OF loader_fields(3)]
  fold_keeps [where f = im_forming, OF loader_fields(4)]
  fold_keeps [where f = im_sealed_order, OF loader_fields(5)]
  fold_keeps [where f = im_next_request, OF loader_fields(6)]
  fold_keeps [where f = im_next_batch, OF loader_fields(7)]
  fold_keeps [where f = im_next_attempt, OF loader_fields(8)]
  fold_keeps [where f = im_forming, OF loader_fields(9)]
  fold_keeps [where f = im_sealed_order, OF loader_fields(10)]
  fold_keeps [where f = im_waiting, OF loader_fields(11)]
  fold_keeps [where f = im_next_request, OF loader_fields(12)]
  fold_keeps [where f = im_next_batch, OF loader_fields(13)]
  fold_keeps [where f = im_next_attempt, OF loader_fields(14)]
  fold_keeps [where f = im_waiting, OF loader_fields(15)]
  fold_keeps [where f = find_attempt, OF find_loaders(2)]
  fold_keeps [where f = find_batch, OF find_loaders(3)]
  fold_keeps [where f = find_request, OF find_loaders(4)]
  fold_keeps [where f = find_batch, OF find_loaders(6)]
  fold_keeps [where f = find_request, OF find_loaders(7)]
  fold_keeps [where f = find_attempt, OF find_loaders(8)]

text \<open>The waiting index after the requests are loaded: every waiting request, in the order of the ids.\<close>

lemma loads_waiting:
  "index_ids (im_waiting (fold load_request ps s)) k = index_ids (im_waiting s) k @
     map pr_id (filter (\<lambda>p. is_waiting_state (pr_state p) \<and> CompatibilityKey_build (pr_descriptor p) = k) ps)"
proof (induction ps arbitrary: s)
  case (Cons p ps)
  have "index_ids (im_waiting (load_request p s)) k = index_ids (im_waiting s) k @
    (if is_waiting_state (pr_state p) \<and> CompatibilityKey_build (pr_descriptor p) = k then [pr_id p] else [])"
    by (auto simp: load_request_def restore_request_def Let_def index_ids_def bucket_add)
  then show ?case by (simp add: Cons.IH)
qed simp

lemma loads_index_ok: "index_ok (im_waiting s) \<Longrightarrow> index_ok (im_waiting (fold load_request ps s))"
  by (intro fold_invariant_on [where P = "\<lambda>s. index_ok (im_waiting s)"])
    (simp_all add: load_request_def Let_def index_ok_add)

text \<open>The sealed batches, in the order of their ids.\<close>

lemma loads_order:
  "im_sealed_order (fold load_batch ps s)
     = im_sealed_order s @ map pb_id (filter (\<lambda>p. pb_state p = BS_sealed) ps)"
proof (induction ps arbitrary: s)
  case (Cons p ps)
  have "im_sealed_order (load_batch p s) = im_sealed_order s @ (if pb_state p = BS_sealed then [pb_id p] else [])"
    by (simp add: load_batch_def restore_batch_def default_batch_def Let_def split: list.split option.split)
  then show ?case by (simp add: Cons.IH)
qed simp

lemma restore_batch_fields [simp]:
  "bat_id (restore_batch s p) = pb_id p"
  "bat_key (restore_batch s p) = pb_key p"
  "bat_state (restore_batch s p) = pb_state p"
  "bat_members (restore_batch s p) = pb_members p"
  by (simp_all add: restore_batch_def Let_def split: list.split option.split)

text \<open>For each key the forming batch with the largest id; earlier ones are forgotten.\<close>

lemma loads_forming:
  "map_of (im_forming (fold load_batch ps s)) k
     = (case rev (filter (\<lambda>p. pb_state p = BS_forming \<and> pb_key p = k) ps) of
          [] \<Rightarrow> map_of (im_forming s) k | p # _ \<Rightarrow> Some (pb_id p))"
proof (induction ps rule: rev_induct)
  case (snoc p ps)
  have "map_of (im_forming (load_batch p t)) k
    = (if pb_state p = BS_forming \<and> pb_key p = k then Some (pb_id p) else map_of (im_forming t) k)" for t
    by (auto simp: load_batch_def Let_def std_lookup)
  then show ?case by (simp add: snoc.IH)
qed simp

lemma find_recovered [simp]:
  "find_request (s\<lparr>im_recovered := x\<rparr>) = find_request s"
  "find_attempt (s\<lparr>im_recovered := x\<rparr>) = find_attempt s"
  "find_batch (s\<lparr>im_recovered := x\<rparr>) = find_batch s"
  by (simp_all add: find_request_def find_batch_def find_attempt_def fun_eq_iff)

text \<open>The saved tables of a runtime, read as maps.\<close>

definition good_tables :: "Impl \<Rightarrow> bool" where
  "good_tables s \<longleftrightarrow> store_inv s \<and> struct_inv s"

lemma own_keys:
  assumes "std_ok m" and "\<And>k v. map_of m k = Some v \<Longrightarrow> key v = k"
  shows "(\<forall>(k, v) \<in> set m. key v = k) \<and> distinct (map fst m)"
proof -
  have "key v = k" if "(k, v) \<in> set m" for k v
    using that in_set_map_of [OF assms(1)] by (intro assms(2)) simp
  then show ?thesis using assms(1) by (auto simp: std_ok_def std_keys_def)
qed

lemma good_entries:
  assumes "good_tables s"
  shows "(\<forall>(k, r) \<in> set (im_requests s). req_id r = k) \<and> distinct (map fst (im_requests s))"
    and "(\<forall>(k, a) \<in> set (im_attempts s). att_id a = k) \<and> distinct (map fst (im_attempts s))"
    and "(\<forall>(k, b) \<in> set (im_batches s). bat_id b = k) \<and> distinct (map fst (im_batches s))"
proof -
  have "store_inv s" "struct_inv s" using assms by (simp_all add: good_tables_def)
  then have "find_request s i = Some r \<Longrightarrow> req_id r = i" "find_batch s b = Some x \<Longrightarrow> bat_id x = b"
    "find_attempt s a = Some y \<Longrightarrow> att_id y = a" "std_ok (im_requests s)" "std_ok (im_attempts s)"
    "std_ok (im_batches s)" for i r b x a y
    by (simp_all add: struct_req_id struct_bat_id store_inv_def)
  then show "(\<forall>(k, r) \<in> set (im_requests s). req_id r = k) \<and> distinct (map fst (im_requests s))"
    "(\<forall>(k, a) \<in> set (im_attempts s). att_id a = k) \<and> distinct (map fst (im_attempts s))"
    "(\<forall>(k, b) \<in> set (im_batches s). bat_id b = k) \<and> distinct (map fst (im_batches s))"
    unfolding find_request_def find_batch_def find_attempt_def by - (rule own_keys; blast)+
qed

lemma clear_runtime_fields [simp]:
  "find_request (clear_runtime rt s) = Map.empty"
  "find_attempt (clear_runtime rt s) = Map.empty"
  "find_batch (clear_runtime rt s) = Map.empty"
  "im_next_request (clear_runtime rt s) = rt_next_request rt"
  "im_next_batch (clear_runtime rt s) = rt_next_batch rt"
  "im_next_attempt (clear_runtime rt s) = rt_next_attempt rt"
  "im_forming (clear_runtime rt s) = []"
  "im_sealed_order (clear_runtime rt s) = []"
  "im_waiting (clear_runtime rt s) = []"
  by (simp_all add: clear_runtime_def find_request_def find_batch_def find_attempt_def fun_eq_iff index_clear_def)

lemma load_persisted_fields:
  "find_request (load_persisted rt s) = find_request (fold load_request (rt_requests rt) (clear_runtime rt s))"
  "find_attempt (load_persisted rt s) = find_attempt (fold load_attempt (rt_attempts rt)
     (fold load_request (rt_requests rt) (clear_runtime rt s)))"
  "im_next_request (load_persisted rt s) = rt_next_request rt"
  "im_next_batch (load_persisted rt s) = rt_next_batch rt"
  "im_next_attempt (load_persisted rt s) = rt_next_attempt rt"
  "im_waiting (load_persisted rt s) = im_waiting (fold load_request (rt_requests rt) (clear_runtime rt s))"
  "im_sealed_order (load_persisted rt s) = map pb_id (filter (\<lambda>p. pb_state p = BS_sealed) (rt_batches rt))"
  by (simp_all add: load_persisted_def Let_def loads_order)

lemma recovered_requests:
  assumes "good_tables s"
  shows "find_request (load_persisted (build_persisted s) s0) = map_option restored_request \<circ> find_request s"
proof
  fix i
  have "find_request (fold load_request (map (\<lambda>(_, r). persist_request r) (im_requests s)) c) i
    = (case map_of (im_requests s) i of None \<Rightarrow> find_request c i | Some r \<Rightarrow> Some (restore_request (persist_request r)))" for c
    using good_entries [OF assms] by (subst reql.find_loads) (auto simp: persist_request_def)
  moreover have "restore_request (persist_request r) = restored_request r" if "map_of (im_requests s) i = Some r" for r
    using assms that by (intro restore_persist_request) (auto simp: good_tables_def inv_defs find_request_def)
  ultimately show "find_request (load_persisted (build_persisted s) s0) i
      = (map_option restored_request \<circ> find_request s) i"
    by (simp add: load_persisted_fields build_persisted_def comp_def split_beta' find_request_def
        split: option.split)
qed

lemma recovered_attempts:
  assumes "good_tables s"
  shows "find_attempt (load_persisted (build_persisted s) s0) = map_option restored_attempt \<circ> find_attempt s"
proof
  fix i
  have "find_attempt (fold load_attempt (map (\<lambda>(_, a). persist_attempt a) (im_attempts s)) c) i
    = (case map_of (im_attempts s) i of None \<Rightarrow> find_attempt c i | Some a \<Rightarrow> Some (restored_attempt a))" for c
    using good_entries [OF assms] by (subst attl.find_loads) (auto simp: persist_attempt_def [THEN arg_cong [of _ _ pa_id]]
      restore_persist_attempt split: option.split)
  then show "find_attempt (load_persisted (build_persisted s) s0) i
      = (map_option restored_attempt \<circ> find_attempt s) i"
    by (simp add: load_persisted_fields build_persisted_def comp_def split_beta' find_attempt_def [of s]
        split: option.split)
qed

lemma find_batch_load:
  "find_batch (load_persisted rt s0) = find_batch (fold load_batch (rt_batches rt)
     (fold load_attempt (rt_attempts rt) (fold load_request (rt_requests rt) (clear_runtime rt s0))))"
  by (simp add: load_persisted_def Let_def)

lemma first_descriptor_restored:
  assumes "find_request c = map_option restored_request \<circ> find_request s"
  shows "restored_batch c = restored_batch s"
  using assms
  by (auto simp: restored_batch_def first_descriptor_def restored_request_def fun_eq_iff split: list.split option.split)

lemma recovered_batches:
  assumes "good_tables s"
  shows "find_batch (load_persisted (build_persisted s) s0) = map_option (restored_batch s) \<circ> find_batch s"
proof
  fix i
  define c where "c = fold load_attempt (rt_attempts (build_persisted s))
    (fold load_request (rt_requests (build_persisted s)) (clear_runtime (build_persisted s) s0))"
  have c: "find_batch c = Map.empty" "find_request c = map_option restored_request \<circ> find_request s"
    using recovered_requests [OF assms, of s0] by (simp_all add: c_def load_persisted_fields)
  have "find_batch (fold load_batch (map (\<lambda>(_, b). persist_batch b) (im_batches s)) c) i
    = (case map_of (im_batches s) i of None \<Rightarrow> find_batch c i | Some b \<Rightarrow> Some (restored_batch s b))"
    using good_entries [OF assms]
    by (subst batl.find_loads) (auto simp: persist_batch_def [THEN arg_cong [of _ _ pb_id]]
      restore_persist_batch first_descriptor_restored [OF c(2)] split: option.split)
  then show "find_batch (load_persisted (build_persisted s) s0) i
      = (map_option (restored_batch s) \<circ> find_batch s) i"
    by (simp add: find_batch_load c_def [symmetric] c(1))
      (simp add: build_persisted_def comp_def split_beta' find_batch_def [of s] c(1) split: option.split)
qed

text \<open>The rebuilt tables, in terms of the records of the saved runtime.\<close>

lemma recovered_waiting:
  "index_ids (im_waiting (load_persisted (build_persisted s) s0)) k
     = [req_id r. (_, r) \<leftarrow> im_requests s, is_waiting_state (req_state r) \<and>
          CompatibilityKey_build (m_descriptor (req_meta r)) = k]"
proof -
  have "map pr_id (filter (\<lambda>p. is_waiting_state (pr_state p) \<and> CompatibilityKey_build (pr_descriptor p) = k)
      (map (\<lambda>x. persist_request (snd x)) m))
    = [req_id r. (_, r) \<leftarrow> m, is_waiting_state (req_state r) \<and>
          CompatibilityKey_build (m_descriptor (req_meta r)) = k]" for m :: "(RequestId \<times> RequestRec) list"
    by (induction m) (auto simp: persist_request_def)
  then show ?thesis
    by (simp add: load_persisted_fields loads_waiting)
      (simp add: build_persisted_def comp_def index_ids_def index_bucket_def)
qed

lemma recovered_order:
  "im_sealed_order (load_persisted (build_persisted s) s0)
     = [bat_id b. (_, b) \<leftarrow> im_batches s, bat_state b = BS_sealed]"
proof -
  have "map pb_id (filter (\<lambda>p. pb_state p = BS_sealed) (map (\<lambda>x. persist_batch (snd x)) m))
    = [bat_id b. (_, b) \<leftarrow> m, bat_state b = BS_sealed]" for m :: "(BatchId \<times> BatchRec) list"
    by (induction m) (auto simp: persist_batch_def)
  then show ?thesis by (simp add: load_persisted_fields build_persisted_def comp_def)
qed

lemma recovered_forming_exact:
  "map_of (im_forming (load_persisted (build_persisted s) s0)) k
     = (case rev [b. (_, b) \<leftarrow> im_batches s, bat_state b = BS_forming \<and> bat_key b = k] of
          [] \<Rightarrow> None | b # _ \<Rightarrow> Some (bat_id b))"
proof -
  define bs where "bs = [b. (_, b) \<leftarrow> im_batches s, bat_state b = BS_forming \<and> bat_key b = k]"
  have "filter (\<lambda>p. pb_state p = BS_forming \<and> pb_key p = k) (map (\<lambda>x. persist_batch (snd x)) m)
    = map persist_batch [b. (_, b) \<leftarrow> m, bat_state b = BS_forming \<and> bat_key b = k]"
    for m :: "(BatchId \<times> BatchRec) list"
    by (induction m) (auto simp: persist_batch_def)
  then have saved: "filter (\<lambda>p. pb_state p = BS_forming \<and> pb_key p = k) (rt_batches (build_persisted s))
    = map persist_batch bs"
    by (simp add: build_persisted_def comp_def bs_def)
  have "map_of (im_forming (load_persisted (build_persisted s) s0)) k
    = (case rev (map persist_batch bs) of [] \<Rightarrow> None | p # _ \<Rightarrow> Some (pb_id p))"
    by (simp add: load_persisted_def Let_def loads_forming saved split: list.split)
  moreover have "(case rev (map persist_batch bs) of [] \<Rightarrow> None | p # _ \<Rightarrow> Some (pb_id p))
    = (case rev bs of [] \<Rightarrow> None | b # _ \<Rightarrow> Some (bat_id b))"
    by (cases "rev bs") (simp_all add: rev_map [symmetric] persist_batch_def)
  ultimately show ?thesis by (simp add: bs_def)
qed

lemma recovered_forming:
  assumes "map_of (im_forming (load_persisted (build_persisted s) s0)) k = Some b"
  shows "\<exists>i x. (i, x) \<in> set (im_batches s) \<and> bat_id x = b \<and> bat_state x = BS_forming \<and> bat_key x = k"
proof -
  define bs where "bs = [b. (_, b) \<leftarrow> im_batches s, bat_state b = BS_forming \<and> bat_key b = k]"
  obtain x xs where x: "rev bs = x # xs" "b = bat_id x"
    using assms unfolding recovered_forming_exact bs_def [symmetric] by (cases "rev bs") simp_all
  then have "x \<in> set bs" by (metis list.set_intros(1) set_rev)
  then show ?thesis by (auto simp: x(2) bs_def split: if_splits)
qed

lemma recovered_struct:
  assumes "good_tables s"
  shows "struct_inv (load_persisted (build_persisted s) s0)"
proof -
  let ?t = "load_persisted (build_persisted s) s0"
  have st: "struct_inv s" and ok: "std_ok (im_batches s)"
    using assms by (simp_all add: good_tables_def store_inv_def)
  note fr = recovered_requests [OF assms, of s0] and fa = recovered_attempts [OF assms, of s0]
    and fb = recovered_batches [OF assms, of s0]
  have key: "has_key ?t = has_key s"
    by (force simp: fun_eq_iff has_key_def fr restored_request_def)
  have entry: "find_batch s b = Some x \<longleftrightarrow> (b, x) \<in> set (im_batches s)" for b x
    by (simp add: find_batch_def in_set_map_of [OF ok])
  have "ids_inv ?t"
    using st by (simp add: struct_inv_def ids_inv_def fr fa fb load_persisted_fields(3-5))
      (simp add: build_persisted_def)
  moreover have "req_inv ?t"
    using st by (fastforce simp: struct_inv_def req_inv_def fr fa restored_request_def dom_def)
  moreover have "bat_inv ?t"
    using st by (auto simp: struct_inv_def bat_inv_def fb key restored_batch_def)
  moreover have "idx_inv ?t"
  proof -
    have "has_key s k i" if i: "i \<in> set (index_ids (im_waiting ?t) k)" for k i
    proof -
      obtain r where r: "(i, r) \<in> set (im_requests s)" "CompatibilityKey_build (m_descriptor (req_meta r)) = k"
        using i good_entries(1) [OF assms] by (fastforce simp: recovered_waiting split: if_splits)
      then have "find_request s i = Some r"
        using assms by (simp add: good_tables_def store_inv_def find_request_def in_set_map_of)
      then show ?thesis using st r(2) by (auto simp: has_key_def struct_inv_def req_inv_def)
    qed
    moreover have "index_ok (im_waiting ?t)"
      unfolding load_persisted_fields by (rule loads_index_ok) (simp add: index_ok_def std_keys_def)
    ultimately show ?thesis by (simp add: idx_inv_def key)
  qed
  moreover have "form_inv ?t"
    using recovered_forming [of s s0] good_entries(3) [OF assms]
    by (fastforce simp: form_inv_def fb entry restored_batch_def fillable_def)
  moreover have "ord_inv ?t"
  proof -
    have d: "distinct [bat_id b. (_, b) \<leftarrow> m, bat_state b = BS_sealed]"
      if "\<forall>(k, b) \<in> set m. bat_id b = k" "distinct (map fst m)" for m
      using that by (induction m) (force split: if_splits)+
    have "\<exists>x. find_batch ?t b = Some x \<and> bat_state x \<noteq> BS_forming" if "b \<in> set (im_sealed_order ?t)" for b
      using that good_entries(3) [OF assms] by (fastforce simp: recovered_order fb entry restored_batch_def split: if_splits)
    moreover have "distinct (im_sealed_order ?t)"
      unfolding recovered_order using d [of "im_batches s"] good_entries(3) [OF assms] by blast
    ultimately show ?thesis by (simp add: ord_inv_def)
  qed
  ultimately show ?thesis by (simp add: struct_inv_def)
qed

lemma build_persisted_counters:
  "rt_epoch (build_persisted s) = im_epoch s"
  "rt_next_request (build_persisted s) = im_next_request s"
  "rt_next_batch (build_persisted s) = im_next_batch s"
  "rt_next_attempt (build_persisted s) = im_next_attempt s"
  "rt_next_generation (build_persisted s) = im_next_generation s"
  by (simp_all add: build_persisted_def)

lemma recovered_epoch:
  "im_epoch (load_persisted rt s) = rt_epoch rt"
  "im_next_generation (load_persisted rt s) = rt_next_generation rt"
  "im_policy (load_persisted rt s) = im_policy s"
proof -
  have "im_epoch (load_request p s) = im_epoch s" "im_epoch (load_attempt q s) = im_epoch s"
    "im_epoch (load_batch b s) = im_epoch s" "im_policy (load_request p s) = im_policy s"
    "im_policy (load_attempt q s) = im_policy s" "im_policy (load_batch b s) = im_policy s"
    "im_next_generation (load_request p s) = im_next_generation s"
    "im_next_generation (load_attempt q s) = im_next_generation s"
    "im_next_generation (load_batch b s) = im_next_generation s" for p q b s
    by (simp_all add: load_request_def load_attempt_def load_batch_def Let_def)
  then show "im_epoch (load_persisted rt s) = rt_epoch rt"
    "im_next_generation (load_persisted rt s) = rt_next_generation rt"
    "im_policy (load_persisted rt s) = im_policy s"
    by (simp_all add: load_persisted_def Let_def fold_keeps [where f = im_epoch]
        fold_keeps [where f = im_next_generation] fold_keeps [where f = im_policy] clear_runtime_def)
qed

section \<open>The served work\<close>

lemma served_strings:
  "distinct (map fst m) \<Longrightarrow>
   map_of (fold (\<lambda>(t, v). std_insert (to_string_u64 (id_value t)) v) m acc) (to_string_u64 w)
     = (case map_of m (Id w) of None \<Rightarrow> map_of acc (to_string_u64 w) | Some v \<Rightarrow> Some v)"
  by (induction m arbitrary: acc) (force simp: std_lookup split: option.split)+

lemma load_served_strings:
  "distinct (map fst m) \<Longrightarrow> fst ` set m \<subseteq> range to_string_u64 \<Longrightarrow>
   map_of (fc_served (fold load_served m f)) t
     = (case map_of m (to_string_u64 (id_value t)) of None \<Rightarrow> map_of (fc_served f) t | Some v \<Rightarrow> Some v)"
proof (induction m arbitrary: f)
  case (Cons e m)
  obtain w v where e: "e = (to_string_u64 w, v)" using Cons.prems(2) by (cases e) auto
  have "to_string_u64 (id_value t) = to_string_u64 w \<longleftrightarrow> t = Id w" by (cases t) simp
  moreover have "map_of m (to_string_u64 w) = None"
    using Cons.prems(1) by (simp add: e map_of_eq_None_iff)
  moreover have "fc_served (load_served (to_string_u64 w, v) f) = std_insert (Id w) v (fc_served f)"
    by (simp add: load_served_def restore_served_def stoull_to_string)
  ultimately show ?case
    using Cons by (simp add: e std_lookup split: option.split)
qed simp

lemma served_strings_keys:
  assumes "std_ok acc" and "set (std_keys acc) \<subseteq> range to_string_u64"
  shows "std_ok (fold (\<lambda>(t, v). std_insert (to_string_u64 (id_value t)) v) m acc) \<and>
    set (std_keys (fold (\<lambda>(t, v). std_insert (to_string_u64 (id_value t)) v) m acc)) \<subseteq> range to_string_u64"
  using assms by (intro fold_invariant_on [where P = "\<lambda>acc. std_ok acc \<and> set (std_keys acc) \<subseteq> range to_string_u64"])
    (auto simp: std_ok_insert set_keys_std_insert split: prod.splits)

lemma recovered_served:
  assumes "good_tables s"
  shows "map_of (fc_served (im_fairness (load_persisted (build_persisted s) s0)))
    = map_of (fc_served (im_fairness s))"
proof
  fix t :: TenantId
  let ?m = "fold (\<lambda>(t, v). std_insert (to_string_u64 (id_value t)) v) (fc_served (im_fairness s)) []"
  have m: "std_ok ?m" "set (std_keys ?m) \<subseteq> range to_string_u64"
    using served_strings_keys [of "[]" "fc_served (im_fairness s)"] by (simp_all add: std_keys_def)
  have "distinct (map fst (fc_served (im_fairness s)))"
    using assms by (simp add: good_tables_def store_inv_def std_ok_def std_keys_def)
  then have "map_of ?m (to_string_u64 (id_value t)) = map_of (fc_served (im_fairness s)) t"
    by (simp add: served_strings split: option.split)
  then have "map_of (fc_served (fold load_served ?m (fairness_reset f))) t = map_of (fc_served (im_fairness s)) t" for f
    using m by (simp add: load_served_strings std_ok_def std_keys_def fairness_reset_def split: option.split)
  then show "map_of (fc_served (im_fairness (load_persisted (build_persisted s) s0))) t
      = map_of (fc_served (im_fairness s)) t"
    by (simp add: load_persisted_def build_persisted_def Let_def served_all_def set_fairness_def)
qed

section \<open>Lifetimes\<close>

definition sorted_tables :: "Impl \<Rightarrow> bool" where
  "sorted_tables s \<longleftrightarrow> std_ok (im_requests s) \<and> std_ok (im_attempts s) \<and> std_ok (im_batches s)"

lemma sorted_load:
  "sorted_tables s \<Longrightarrow> sorted_tables (load_request p s)"
  "sorted_tables s \<Longrightarrow> sorted_tables (load_attempt q s)"
  "sorted_tables s \<Longrightarrow> sorted_tables (load_batch b s)"
  by (simp_all add: sorted_tables_def load_request_def load_attempt_def load_batch_def Let_def
      put_request_def put_attempt_def put_batch_def std_ok_insert)

lemma sorted_loads:
  "sorted_tables (fold load_batch bs (fold load_attempt as (fold load_request rs (clear_runtime rt s))))"
  by (intro fold_invariant_on [where P = sorted_tables] sorted_load)
    (simp_all add: clear_runtime_def sorted_tables_def)

lemma served_loads_ok: "std_ok (fc_served f) \<Longrightarrow> std_ok (fc_served (fold load_served es f))"
  by (intro fold_invariant_on [where P = "\<lambda>f. std_ok (fc_served f)"])
    (simp_all add: load_served_def restore_served_def std_ok_insert split: option.split)

lemma recovered_good:
  assumes "good_tables s"
  shows "good_tables (load_persisted (build_persisted s) s0)"
proof -
  let ?t = "load_persisted (build_persisted s) s0"
  have "sorted_tables ?t"
    using sorted_loads by (simp add: load_persisted_def Let_def sorted_tables_def)
  moreover have "std_ok (fc_served (im_fairness ?t))"
    by (simp add: load_persisted_def Let_def set_fairness_def served_loads_ok fairness_reset_def)
  moreover have "\<forall>a y. find_attempt ?t a = Some y \<longrightarrow> att_id y = a"
    using assms by (auto simp: recovered_attempts [OF assms] restored_attempt_def good_tables_def store_inv_def)
  ultimately show ?thesis
    using recovered_struct [OF assms] by (simp add: good_tables_def store_inv_def sorted_tables_def)
qed

text \<open>
  The states a runtime can be in when processes die and others, perhaps with another policy, go on
  from the saved state.
\<close>

inductive lifetime :: "Platform \<Rightarrow> Impl \<Rightarrow> bool" for P where
  life_start: "lifetime P (Impl_init p clk sink)"
| life_call: "lifetime P s \<Longrightarrow> run_call P c s = Some s' \<Longrightarrow> spare s' \<Longrightarrow> lifetime P s'"
| life_recover: "lifetime P s \<Longrightarrow> lifetime P s0 \<Longrightarrow> lifetime P (load_persisted (build_persisted s) s0)"

lemma lifetime_good: "lifetime P s \<Longrightarrow> good_tables s"
proof (induction rule: lifetime.induct)
  case (life_call s c s')
  then show ?case by (auto simp: good_tables_def intro: keep_call store.i_call)
qed (simp_all add: good_tables_def store_inv_init struct_init recovered_good [unfolded good_tables_def])

lemma reachable_lifetime: "reachable P ok p s \<Longrightarrow> lifetime P s"
  by (induction rule: reachable.induct) (auto intro: lifetime.intros)

end
