(* ===== verification/Introspection.thy ===== *)
theory Introspection
  imports Sched_Inv
begin

text \<open>
  The read-only methods of \<open>BatchFabric\<close>: counters, snapshots and explanations
  (\<open>snapshot.hpp\<close>, \<open>explain.hpp\<close> and the introspection part of \<open>scheduler.cpp\<close>). They take the
  lock and change nothing, so each is a function of the state.
\<close>

section \<open>Counters\<close>

definition bump :: "bool \<Rightarrow> u64 \<Rightarrow> u64" where
  "bump c n = (if c then n + 1 else n)"

definition do_stats :: "Impl \<Rightarrow> BatchStats" where
  "do_stats s =
     (let (waiting, reserved, running) = fold (\<lambda>(_, r) (w, re, ru).
            (bump (req_state r = RS_eligible \<or> req_state r = RS_waiting) w,
             bump (req_state r = RS_reserved) re,
             bump (req_state r = RS_dispatched \<or> req_state r = RS_running) ru)) (im_requests s) (0, 0, 0)
      in (im_stats s)\<lparr>st_waiting_now := waiting, st_reserved_now := reserved, st_running_now := running,
           st_forming_now := st_forming_now (im_stats s)\<rparr>)"

definition stats :: "Impl \<Rightarrow> BatchStats" where
  "stats s = do_stats s"

definition count_in_state :: "RequestState \<Rightarrow> Impl \<Rightarrow> nat" where
  "count_in_state st s = fold (\<lambda>(_, r) n. if req_state r = st then n + 1 else n) (im_requests s) 0"

definition waiting :: "Impl \<Rightarrow> RequestId list" where
  "waiting s = map fst (filter (\<lambda>(_, r). req_state r = RS_eligible \<or> req_state r = RS_waiting \<or>
     req_state r = RS_reserved) (im_requests s))"

definition batches :: "Impl \<Rightarrow> BatchId list" where
  "batches s = map fst (im_batches s)"

definition epoch :: "Impl \<Rightarrow> BatchEpoch" where
  "epoch s = im_epoch s"

section \<open>Snapshots\<close>

record BatchSnapshotEntry =
  bse_batch :: BatchId
  bse_generation :: Generation
  bse_epoch :: BatchEpoch
  bse_state :: BatchState
  bse_key :: CompatibilityKey
  bse_member_count :: nat
  bse_worker :: WorkerId
  bse_boot :: WorkerBootId
  bse_seal_reason :: SealReason

record RequestSnapshotEntry =
  rse_request :: RequestId
  rse_tenant :: TenantId
  rse_state :: RequestState
  rse_batch :: BatchId
  rse_attempt :: AttemptId
  rse_attempt_number :: u32
  rse_expired :: bool

record WorkerSnapshotEntry =
  wse_worker :: WorkerId
  wse_boot :: WorkerBootId
  wse_live :: bool
  wse_active_batch_count :: u32
  wse_completed_batches :: u64

record BatchSnapshot =
  snap_batches :: "BatchSnapshotEntry list"
  snap_requests :: "RequestSnapshotEntry list"
  snap_workers :: "WorkerSnapshotEntry list"
  snap_epoch :: BatchEpoch
  snap_now :: TimePoint

definition batch_entry :: "BatchRec \<Rightarrow> BatchSnapshotEntry" where
  "batch_entry b = \<lparr>bse_batch = bat_id b, bse_generation = bat_generation b, bse_epoch = bat_epoch b,
     bse_state = bat_state b, bse_key = bat_key b, bse_member_count = length (bat_members b),
     bse_worker = bat_worker b, bse_boot = bat_boot b, bse_seal_reason = bat_seal_reason b\<rparr>"

definition request_entry :: "Impl \<Rightarrow> RequestRec \<Rightarrow> RequestSnapshotEntry" where
  "request_entry s r = \<lparr>rse_request = req_id r, rse_tenant = m_tenant (req_meta r),
     rse_state = req_state r, rse_batch = req_batch r, rse_attempt = req_current_attempt r,
     rse_attempt_number = (case find_attempt s (req_current_attempt r) of None \<Rightarrow> 0 | Some a \<Rightarrow> att_number a),
     rse_expired = (has_deadline (m_deadline (req_meta r)) \<and>
       expired (m_deadline (req_meta r)) (im_clock_now s))\<rparr>"

definition worker_entry :: "WorkerId \<times> WorkerRec \<Rightarrow> WorkerSnapshotEntry" where
  "worker_entry e = \<lparr>wse_worker = fst e, wse_boot = wk_boot (snd e), wse_live = wk_live (snd e),
     wse_active_batch_count = of_nat (length (wk_running (snd e))), wse_completed_batches = 0\<rparr>"

definition worker_list :: "Impl \<Rightarrow> WorkerSnapshotEntry list" where
  "worker_list s = map worker_entry (im_workers s)"

definition snapshot :: "Impl \<Rightarrow> BatchSnapshot" where
  "snapshot s = \<lparr>snap_batches = map (batch_entry \<circ> snd) (im_batches s),
     snap_requests = map (request_entry s \<circ> snd) (im_requests s),
     snap_workers = map worker_entry (im_workers s), snap_epoch = im_epoch s, snap_now = im_clock_now s\<rparr>"

section \<open>Explanations\<close>

record ExplainEntry =
  xe_category :: string
  xe_detail :: string

record ExplainResult =
  xr_request :: RequestId
  xr_summary :: string
  xr_entries :: "ExplainEntry list"

definition entry :: "string \<Rightarrow> string \<Rightarrow> ExplainEntry" where
  "entry c d = \<lparr>xe_category = c, xe_detail = d\<rparr>"

definition explain_own :: "Impl \<Rightarrow> RequestRec \<Rightarrow> ExplainEntry list" where
  "explain_own s req =
     (if is_null (req_batch req) then
        (if req_state req = RS_waiting \<or> req_state req = RS_eligible
         then [entry ''formation'' ''waiting for compatible work under current policy'']
         else [entry ''formation'' ''not currently in a batch''])
      else (case find_batch s (req_batch req) of
          None \<Rightarrow> []
        | Some b \<Rightarrow>
            [entry ''formation'' (''joined batch='' @ BatchId_string (req_batch req) @
               '' because CompatibilityKey matches (model/revision/adapter/phase/'' @
               ''shape/executor contract)''),
             entry ''batch'' (''batch state='' @ BatchState_to_string (bat_state b) @
               '' members='' @ nat_to_string (length (bat_members b)))]))"

definition explain_other :: "RequestRec \<Rightarrow> BatchRec \<Rightarrow> ExplainEntry list" where
  "explain_other req b =
     (if bat_id b = req_batch req then []
      else if bat_state b = BS_forming \<or> bat_state b = BS_sealed then
        (if bat_key b \<noteq> req_key req
         then [entry ''formation'' (''did not join batch='' @ BatchId_string (bat_id b) @ '' because '' @
                 CompatibilityDecision_to_string
                   (evaluate_compatibility (m_descriptor (req_meta req)) (bat_descriptor b)))]
         else [])
      else [])"

definition explain :: "RequestId \<Rightarrow> Impl \<Rightarrow> ExplainResult" where
  "explain i s =
     (case find_request s i of
        None \<Rightarrow> \<lparr>xr_request = i, xr_summary = ''unknown request'', xr_entries = []\<rparr>
      | Some req \<Rightarrow>
          \<lparr>xr_request = i,
           xr_summary = ''request='' @ RequestId_string i @ '' state='' @ RequestState_to_string (req_state req) @
             '' phase='' @ Phase_to_string (d_phase (m_descriptor (req_meta req))),
           xr_entries = entry ''compatibility'' (''key='' @ key_hex (req_key req) @ '' canonical='' @
               canonical_string (m_descriptor (req_meta req))) #
             explain_own s req @ concat (map (explain_other req \<circ> snd) (im_batches s))\<rparr>)"

section \<open>Properties\<close>

lemma fold_bump:
  "fold (\<lambda>(_, r) (w, re, ru). (bump (P r) w, bump (Q r) re, bump (R r) ru)) xs (a, b, c)
     = (a + of_nat (length (filter (P \<circ> snd) xs)), b + of_nat (length (filter (Q \<circ> snd) xs)),
        c + of_nat (length (filter (R \<circ> snd) xs)))"
  by (induction xs arbitrary: a b c) (auto simp: bump_def)

lemma fold_count: "fold (\<lambda>(_, r) n. if P r then n + 1 else n) xs k = k + length (filter (P \<circ> snd) xs)"
  for k :: nat
  by (induction xs arbitrary: k) auto

lemma filter_count_disj:
  "(\<And>x. \<not> (P x \<and> Q x)) \<Longrightarrow> length (filter (\<lambda>x. P x \<or> Q x) xs) = length (filter P xs) + length (filter Q xs)"
  by (induction xs) auto

text \<open>
  The live counters of the statistics are the numbers of requests in the matching states: the
  waiting ones are those eligible or waiting, the running ones those dispatched or running.
\<close>

theorem stats_count_requests:
  "st_waiting_now (stats s) = of_nat (count_in_state RS_eligible s + count_in_state RS_waiting s) \<and>
   st_reserved_now (stats s) = of_nat (count_in_state RS_reserved s) \<and>
   st_running_now (stats s) = of_nat (count_in_state RS_dispatched s + count_in_state RS_running s) \<and>
   st_forming_now (stats s) = st_forming_now (im_stats s)"
proof -
  have "length (filter (\<lambda>x. (P \<circ> snd) x \<or> (Q \<circ> snd) x) xs)
      = length (filter (P \<circ> snd) xs) + length (filter (Q \<circ> snd) xs)"
    if "\<And>r. \<not> (P r \<and> Q r)" for P Q :: "RequestRec \<Rightarrow> bool" and xs :: "(RequestId \<times> RequestRec) list"
    using that by (intro filter_count_disj) auto
  from this [of "\<lambda>r. req_state r = RS_eligible" "\<lambda>r. req_state r = RS_waiting" "im_requests s"]
    this [of "\<lambda>r. req_state r = RS_dispatched" "\<lambda>r. req_state r = RS_running" "im_requests s"]
  show ?thesis
    by (simp add: stats_def do_stats_def count_in_state_def fold_bump
        fold_count [where P = "\<lambda>r. req_state r = st" for st] comp_def split_beta)
qed

text \<open>
  When only the tokenizers differ, the keys keep a request out of a batch, but the explanation
  says that it did not join because the two are compatible: the comparison that words the reason
  does not look at the tokenizer.
\<close>

theorem tokenizer_mismatch_explained_as_compatible:
  assumes "bat_id b \<noteq> req_batch r" and "bat_state b = BS_forming \<or> bat_state b = BS_sealed"
    and "bat_key b \<noteq> req_key r"
    and "(m_descriptor (req_meta r))\<lparr>d_tokenizer := d_tokenizer (bat_descriptor b)\<rparr> = bat_descriptor b"
  shows "explain_other r b
    = [entry ''formation'' (''did not join batch='' @ BatchId_string (bat_id b) @ '' because compatible'')]"
  using assms by (simp add: explain_other_def evaluate_compatible_iff [THEN iffD2])

theorem tokenizer_mismatch_explained_as_compatible_witness:
  "explain_other (default_request\<lparr>req_key := CompatibilityKey [1],
       req_meta := default_metadata\<lparr>m_descriptor := default_descriptor\<lparr>d_tokenizer := Name ''t''\<rparr>\<rparr>\<rparr>)
     (default_batch\<lparr>bat_id := Id 1\<rparr>)
   = [entry ''formation'' (''did not join batch='' @ BatchId_string (Id 1) @ '' because compatible'')]"
proof -
  have "bat_key default_batch \<noteq> CompatibilityKey [1]"
    by (simp add: default_batch_def null_key_def zero_digest_def numeral_eq_Suc)
  then show ?thesis
    using tokenizer_mismatch_explained_as_compatible [of "default_batch\<lparr>bat_id := Id 1\<rparr>"
      "default_request\<lparr>req_key := CompatibilityKey [1],
       req_meta := default_metadata\<lparr>m_descriptor := default_descriptor\<lparr>d_tokenizer := Name ''t''\<rparr>\<rparr>\<rparr>"]
    by (simp add: default_batch_def default_request_def default_descriptor_def null_id_def)
qed

end
