(* ===== verification/Clock.thy ===== *)
theory Clock
  imports Sched_Api
begin

text \<open>
  The injected clock (\<open>clock.hpp\<close>). The scheduler takes the reading it would get from \<open>now()\<close> as the
  field \<open>im_clock_now\<close>; \<open>at_clock\<close> sets it to what the clock shows when a method is called. The
  simulated clock is a 64-bit atomic: \<open>fetch_add\<close> wraps, while the product in \<open>advance_ms\<close> is an
  ordinary signed multiplication and must not overflow (\<open>None\<close>).
\<close>

definition at_clock :: "TimePoint \<Rightarrow> Impl \<Rightarrow> Impl" where
  "at_clock t s = s\<lparr>im_clock_now := t\<rparr>"

section \<open>The simulated clock\<close>

record SimulatedClock =
  sim_now :: TimePoint

definition wrap_i64 :: "int \<Rightarrow> int" where
  "wrap_i64 t = (t + 2 ^ 63) mod 2 ^ 64 - 2 ^ 63"

definition sim_create :: "TimePoint \<Rightarrow> SimulatedClock" where
  "sim_create start = \<lparr>sim_now = start\<rparr>"

definition sim_advance :: "TimePoint \<Rightarrow> SimulatedClock \<Rightarrow> SimulatedClock" where
  "sim_advance delta c = c\<lparr>sim_now := wrap_i64 (sim_now c + delta)\<rparr>"

definition sim_advance_ms :: "int \<Rightarrow> SimulatedClock \<Rightarrow> SimulatedClock option" where
  "sim_advance_ms ms c = (if time_ok (ms * 1000000)
     then Some (c\<lparr>sim_now := wrap_i64 (sim_now c + ms * 1000000)\<rparr>) else None)"

definition sim_set :: "TimePoint \<Rightarrow> SimulatedClock \<Rightarrow> SimulatedClock" where
  "sim_set absolute c = c\<lparr>sim_now := absolute\<rparr>"

definition sim_reset :: "TimePoint \<Rightarrow> SimulatedClock \<Rightarrow> SimulatedClock" where
  "sim_reset start c = c\<lparr>sim_now := start\<rparr>"

lemma wrap_in_range: "time_ok (wrap_i64 t)"
proof -
  have "0 \<le> (t + 2 ^ 63) mod (2 ^ 64 :: int)" "(t + 2 ^ 63) mod (2 ^ 64 :: int) < 2 ^ 64"
    by simp_all
  then show ?thesis by (simp add: time_ok_def wrap_i64_def)
qed

lemma wrap_fits: "time_ok t \<Longrightarrow> wrap_i64 t = t"
  by (simp add: time_ok_def wrap_i64_def)

lemma wrap_wrap: "wrap_i64 (wrap_i64 a + b) = wrap_i64 (a + b)"
proof -
  have "(wrap_i64 a + b + 2 ^ 63) = (a + 2 ^ 63) mod 2 ^ 64 + b" by (simp add: wrap_i64_def)
  then show ?thesis by (simp add: wrap_i64_def mod_simps ac_simps)
qed

text \<open>Two steps are one step of their sum, and a step and its inverse cancel, whatever wraps between.\<close>

lemma sim_advance_add: "sim_advance b (sim_advance a c) = sim_advance (a + b) c"
  by (simp add: sim_advance_def wrap_wrap add.assoc)

lemma sim_advance_back: "time_ok (sim_now c) \<Longrightarrow> sim_advance (- a) (sim_advance a c) = c"
  by (simp add: sim_advance_add) (simp add: sim_advance_def wrap_fits)

lemma sim_advance_exact: "time_ok (sim_now c + a) \<Longrightarrow> sim_now (sim_advance a c) = sim_now c + a"
  by (simp add: sim_advance_def wrap_fits)

lemma sim_advance_ms_eq: "sim_advance_ms ms c = Some d \<Longrightarrow> d = sim_advance (ms * 1000000) c"
  by (simp add: sim_advance_ms_def sim_advance_def split: if_splits)

lemma sim_advance_ms_defined: "(\<exists>d. sim_advance_ms ms c = Some d) \<longleftrightarrow> time_ok (ms * 1000000)"
  by (simp add: sim_advance_ms_def)

lemma sim_in_range: "time_ok (sim_now (sim_advance a c))"
  by (simp add: sim_advance_def wrap_in_range)

end
