(* ===== verification/Cli.thy ===== *)
theory Cli
  imports Recovery Introspection Clock
begin

text \<open>
  The command line program (\<open>app/cli.cpp\<close>). Every command is a process of its own: it builds a
  runtime, recovers it from the state file if one is named, does its work, and the commands that
  change something save the runtime again. The result of a command is what it prints and starts and
  the files it leaves; \<open>None\<close> is undefined behaviour. Strings printed through \<open>c_str()\<close> end at their
  first null character, which only names read from a state file can contain. The branches are those
  for POSIX systems.
\<close>

section \<open>Arguments\<close>

fun arg_value :: "string list \<Rightarrow> string \<Rightarrow> string" where
  "arg_value (a # b # args) name = (if a = name then b else arg_value (b # args) name)"
| "arg_value _ name = []"

text \<open>\<open>strtoull(s, nullptr, 10)\<close>: 0 without digits, the largest value on overflow.\<close>

definition strtoull :: "string \<Rightarrow> u64" where
  "strtoull s =
     (let s1 = dropWhile is_space s;
          neg = (s1 \<noteq> [] \<and> hd s1 = CHR ''-'');
          s2 = (if s1 \<noteq> [] \<and> (hd s1 = CHR ''-'' \<or> hd s1 = CHR ''+'') then tl s1 else s1);
          n = digits_val (takeWhile is_digit s2)
      in if n \<ge> 2 ^ 64 then - 1 else if neg then - of_nat n else of_nat n)"

lemma strtoull_stoull: "stoull s = Some v \<Longrightarrow> strtoull s = v"
  by (auto simp: stoull_def strtoull_def Let_def split: if_splits)

lemma strtoull_to_string [simp]: "strtoull (to_string_u64 v) = v"
  by (rule strtoull_stoull [OF stoull_to_string])

lemma strtoull_empty [simp]: "strtoull [] = 0"
  by (simp add: strtoull_def digits_val_def)

text \<open>\<open>atoi\<close>, undefined when the value is no \<open>int\<close>.\<close>

definition atoi :: "string \<Rightarrow> int option" where
  "atoi s =
     (let s1 = dropWhile is_space s;
          s2 = (if s1 \<noteq> [] \<and> (hd s1 = CHR ''-'' \<or> hd s1 = CHR ''+'') then tl s1 else s1);
          n = int (digits_val (takeWhile is_digit s2));
          v = (if s1 \<noteq> [] \<and> hd s1 = CHR ''-'' then - n else n)
      in if - (2 ^ 31) \<le> v \<and> v < 2 ^ 31 then Some v else None)"

section \<open>What a process does\<close>

datatype Effect = Out string | Err string | Run string

record CliOs =
  cli_told :: bool
  cli_readable :: bool
  cli_save :: SaveAnswers
  cli_clock :: "nat \<Rightarrow> TimePoint"

definition cli_policy :: BatchPolicy where
  "cli_policy = (let p = default_policy;
       c = pol_constraints p
     in p\<lparr>pol_constraints := c\<lparr>budget := (budget c)\<lparr>max_requests := 64, max_input_tokens := 100000,
            max_work := 100000\<rparr>, global_max_wait_ns := 1000000, minimum_preferred_batch := 1\<rparr>,
          pol_wait := (pol_wait p)\<lparr>wait_global_max_wait_ns := 1000000\<rparr>,
          pol_retry := (pol_retry p)\<lparr>max_attempts := 3\<rparr>\<rparr>)"

definition cli_fabric :: "CliOs \<Rightarrow> Impl" where
  "cli_fabric os = Impl_init cli_policy (cli_clock os 0) NullEventSink"

definition load_or_init :: "CliOs \<Rightarrow> string \<Rightarrow> files \<Rightarrow> Impl \<Rightarrow> Effect list \<times> Impl" where
  "load_or_init os state fs s =
     (if state = [] then ([], s)
      else case recover_from (cli_told os) (cli_readable os) state fs s of
        (Inr _, s) \<Rightarrow> ([], s)
      | (Inl e, s) \<Rightarrow> ([Err (''note: no prior state at '' @ state @ '' ('' @ err_message e @ '')'')], s))"

definition persist :: "CliOs \<Rightarrow> string \<Rightarrow> Impl \<Rightarrow> files \<Rightarrow> Effect list \<times> files" where
  "persist os state s fs =
     (if state = [] then ([], fs)
      else case persist_to (cli_save os) state s fs of
        (Inr _, fs) \<Rightarrow> ([], fs)
      | (Inl e, fs) \<Rightarrow> ([Err (''persist failed: '' @ Error_to_string e)], fs))"

text \<open>The start and the end that the commands share.\<close>

definition opened :: "CliOs \<Rightarrow> string \<Rightarrow> files \<Rightarrow> Effect list \<times> Impl" where
  "opened os state fs = load_or_init os state fs (cli_fabric os)"

definition closed :: "CliOs \<Rightarrow> string \<Rightarrow> Effect list \<Rightarrow> Impl \<Rightarrow> files \<Rightarrow> Effect list \<times> files" where
  "closed os state effs s fs = (let (more, fs) = persist os state s fs in (effs @ more, fs))"

definition c_str :: "string \<Rightarrow> string" where
  "c_str s = takeWhile (\<lambda>c. c \<noteq> CHR 0x00) s"

definition ok_or :: "('a \<Rightarrow> string) \<Rightarrow> 'a Result \<Rightarrow> string" where
  "ok_or show r = (case r of Inl e \<Rightarrow> Error_to_string e | Inr x \<Rightarrow> show x)"

section \<open>Commands that change the runtime\<close>

definition submit_metadata :: "string list \<Rightarrow> RequestMetadata" where
  "submit_metadata args =
     (let model = arg_value args ''--model''; rev = arg_value args ''--rev'';
          work = strtoull (arg_value args ''--work'')
      in default_metadata\<lparr>m_tenant := Id (strtoull (arg_value args ''--tenant'')),
           m_descriptor := default_descriptor\<lparr>
             d_model := Name (if model = [] then ''m'' else model),
             d_revision := Name (if rev = [] then ''r'' else rev),
             d_adapter := Name ''base'',
             d_phase := (case parse_phase (arg_value args ''--phase'') of None \<Rightarrow> PH_prefill | Some p \<Rightarrow> p),
             d_dtype := DT_float16, d_backend := BK_cpu, d_shape := Name ''s1'',
             d_sampling_semantics := ''default''\<rparr>,
           m_tokens := \<lparr>tok_input = strtoull (arg_value args ''--in''), tok_output = 5\<rparr>,
           m_work := \<lparr>work_value = (if work = 0 then 100 else work)\<rparr>,
           m_payload := arg_value args ''--payload''\<rparr>)"

definition cli_executor :: IExecutor where
  "cli_executor = CpuExecutor (default_capability\<lparr>cap_worker := Id 0, cap_backend := BK_cpu\<rparr>)"

text \<open>\<open>t i\<close> is the reading of the clock at the \<open>i\<close>-th dispatch.\<close>

fun run_sealed :: "(nat \<Rightarrow> TimePoint) \<Rightarrow> BatchId list \<Rightarrow> Impl \<Rightarrow> (Effect list \<times> Impl) option" where
  "run_sealed t [] s = Some ([], s)"
| "run_sealed t (b # bs) s =
     (case dispatch_and_run b cli_executor (-1) (at_clock (t 0) s) of
        None \<Rightarrow> None
      | Some (dr, s) \<Rightarrow>
          (case run_sealed (\<lambda>i. t (Suc i)) bs s of
             None \<Rightarrow> None
           | Some (effs, s) \<Rightarrow>
               Some ((case dr of Inl _ \<Rightarrow> []
                  | Inr x \<Rightarrow> [Out (''dispatched+completed batch='' @ BatchId_string x)]) @ effs, s)))"

definition run_submit :: "Platform \<Rightarrow> CliOs \<Rightarrow> string list \<Rightarrow> string \<Rightarrow> files \<Rightarrow> (Effect list \<times> files) option" where
  "run_submit P os args state fs =
     (let (notes, s) = opened os state fs;
          (r, s) = submit (submit_metadata args) (-1) (at_clock (cli_clock os 1) s)
      in case r of
           Inl e \<Rightarrow> Some (closed os state (notes @ [Out (''submit failed: '' @ Error_to_string e)]) s fs)
         | Inr so \<Rightarrow>
             (case tick P (-1) (at_clock (cli_clock os 2) s) of
                None \<Rightarrow> None
              | Some (rep, s) \<Rightarrow>
                  (case run_sealed (\<lambda>i. cli_clock os (i + 3)) (rep_sealed_batches rep) s of
                     None \<Rightarrow> None
                   | Some (effs, s) \<Rightarrow>
                       Some (closed os state (notes @
                         [Out (''submitted request='' @ RequestId_string (so_request so) @
                            '' admission='' @ AdmissionDecision_to_string (so_admission so)),
                          Out (''sealed batches this tick: '' @ nat_to_string (length (rep_sealed_batches rep)))] @
                         effs) s fs))))"

definition run_cancel :: "CliOs \<Rightarrow> string list \<Rightarrow> string \<Rightarrow> files \<Rightarrow> Effect list \<times> files" where
  "run_cancel os args state fs =
     (let (notes, s) = opened os state fs;
          (r, s) = cancel (Id (strtoull (arg_value args ''--request''))) CR_client_request (-1)
            (at_clock (cli_clock os 1) s)
      in closed os state (notes @ [Out (''cancel: '' @ ok_or (\<lambda>_. ''ok'') r)]) s fs)"

definition run_seal_split_merge :: "CliOs \<Rightarrow> string list \<Rightarrow> string \<Rightarrow> string \<Rightarrow> files \<Rightarrow>
    (Effect list \<times> files) option" where
  "run_seal_split_merge os args state cmd fs =
     (let (notes, s) = opened os state fs;
          s = at_clock (cli_clock os 1) s;
          batch = (\<lambda>name. Id (strtoull (arg_value args name)));
          finish = (\<lambda>line s. closed os state (notes @ [Out line]) s fs)
      in if cmd = ''seal'' then
           (let (r, s) = seal (batch ''--batch'') SR_policy_derived (-1) s
            in Some (finish (''seal: '' @ ok_or (\<lambda>_. ''ok'') r) s))
         else if cmd = ''split'' then
           (let (r, s) = split (batch ''--batch'') SP_policy (-1) s
            in Some (finish (''split: '' @ ok_or (\<lambda>x. ''child '' @ BatchId_string x) r) s))
         else if cmd = ''merge'' then
           map_option (\<lambda>(r, s). finish (''merge: '' @ ok_or (\<lambda>x. ''merged '' @ BatchId_string x) r) s)
             (merge (batch ''--batch-a'') (batch ''--batch-b'') MR_policy (-1) s)
         else Some (closed os state notes s fs))"

section \<open>Commands that only look\<close>

definition run_status :: "CliOs \<Rightarrow> string \<Rightarrow> files \<Rightarrow> Effect list" where
  "run_status os state fs =
     (let (notes, s) = opened os state fs; st = stats s
      in notes @ [Out (''submitted='' @ to_string_u64 (st_submitted st) @
           '' admitted='' @ to_string_u64 (st_admitted st) @
           '' completed='' @ to_string_u64 (st_requests_completed st) @
           '' batches_sealed='' @ to_string_u64 (st_batches_sealed st) @
           '' waiting='' @ to_string_u64 (st_waiting_now st) @
           '' forming='' @ to_string_u64 (st_forming_now st) @
           '' running='' @ to_string_u64 (st_running_now st) @
           '' reserved='' @ to_string_u64 (st_reserved_now st))])"

definition run_waiting :: "CliOs \<Rightarrow> string \<Rightarrow> files \<Rightarrow> Effect list" where
  "run_waiting os state fs =
     (let (notes, s) = opened os state fs; w = waiting s
      in notes @ Out (''waiting_requests='' @ nat_to_string (length w)) #
           map (\<lambda>i. Out (''  '' @ RequestId_string i)) w)"

definition run_batches :: "CliOs \<Rightarrow> string \<Rightarrow> files \<Rightarrow> Effect list" where
  "run_batches os state fs =
     (let (notes, s) = opened os state fs; b = batches s
      in notes @ Out (''batches='' @ nat_to_string (length b)) #
           map (\<lambda>i. Out (''  '' @ BatchId_string i)) b)"

definition worker_line :: "WorkerSnapshotEntry \<Rightarrow> Effect" where
  "worker_line e = Out (''  worker='' @ to_string_u64 (id_value (wse_worker e)) @
     '' boot='' @ to_string_u64 (id_value (wse_boot e)) @
     '' live='' @ (if wse_live e then ''1'' else ''0'') @
     '' active='' @ nat_to_string (unat (wse_active_batch_count e)))"

definition run_workers :: "CliOs \<Rightarrow> string \<Rightarrow> files \<Rightarrow> Effect list" where
  "run_workers os state fs =
     (let (notes, s) = opened os state fs; w = worker_list s
      in notes @ Out (''workers='' @ nat_to_string (length w)) # map worker_line w)"

definition batch_line :: "BatchSnapshotEntry \<Rightarrow> Effect" where
  "batch_line b = Out (''  batch='' @ BatchId_string (bse_batch b) @
     '' state='' @ BatchState_to_string (bse_state b) @
     '' members='' @ nat_to_string (bse_member_count b))"

definition request_line :: "RequestSnapshotEntry \<Rightarrow> Effect" where
  "request_line r = Out (''  req='' @ RequestId_string (rse_request r) @
     '' tenant='' @ to_string_u64 (id_value (rse_tenant r)) @
     '' state='' @ RequestState_to_string (rse_state r) @
     '' batch='' @ BatchId_string (rse_batch r))"

definition run_snapshot :: "CliOs \<Rightarrow> string \<Rightarrow> files \<Rightarrow> Effect list" where
  "run_snapshot os state fs =
     (let (notes, s) = opened os state fs; sn = snapshot (at_clock (cli_clock os 1) s)
      in notes @ Out (''epoch='' @ to_string_u64 (id_value (snap_epoch sn)) @
             '' batches='' @ nat_to_string (length (snap_batches sn)) @
             '' requests='' @ nat_to_string (length (snap_requests sn)) @
             '' workers='' @ nat_to_string (length (snap_workers sn))) #
           map batch_line (snap_batches sn) @ map request_line (snap_requests sn))"

definition run_explain :: "CliOs \<Rightarrow> string list \<Rightarrow> string \<Rightarrow> files \<Rightarrow> Effect list" where
  "run_explain os args state fs =
     (let (notes, s) = opened os state fs;
          ex = explain (Id (strtoull (arg_value args ''--request''))) s
      in notes @ Out (c_str (xr_summary ex)) #
           map (\<lambda>e. Out (''  ['' @ c_str (xe_category e) @ ''] '' @ c_str (xe_detail e))) (xr_entries ex))"

definition run_recover :: "CliOs \<Rightarrow> string list \<Rightarrow> string \<Rightarrow> files \<Rightarrow> Effect list" where
  "run_recover os args state fs =
     (let path = (if state = [] \<and> length args > 1 then args ! 1 else state)
      in case recover_from (cli_told os) (cli_readable os) path fs (cli_fabric os) of
           (Inl e, _) \<Rightarrow> [Out (''recover: '' @ Error_to_string e)]
         | (Inr _, s) \<Rightarrow>
             (let sn = snapshot (at_clock (cli_clock os 1) s)
              in [Out ''recover: ok'',
                  Out (''  recovered requests='' @ nat_to_string (length (snap_requests sn)) @
                    '' batches='' @ nat_to_string (length (snap_batches sn)))]))"

section \<open>Starting other processes\<close>

definition exe_dir :: string where
  "exe_dir = ''.''"

text \<open>
  The command line is built from the tokens of the source as they stand: an empty literal, the
  literal \<open> + exe + \<close>, a literal blank, and the arguments. Adjacent literals are one literal, so
  \<open>exe\<close> is not used.
\<close>

definition spawn :: "string \<Rightarrow> string \<Rightarrow> Effect" where
  "spawn exe args = Run (('''' @ '' + exe + '' @ '' '') @ args)"

definition arg_or :: "string \<Rightarrow> nat \<Rightarrow> string list \<Rightarrow> string" where
  "arg_or d i args = (if length args > i then args ! i else d)"

definition run_serve :: "string list \<Rightarrow> Effect list" where
  "run_serve args =
     (let port = arg_or ''3090'' 1 args
      in [spawn (exe_dir @ [CHR 0x5C] @ ''bf_coordinator.exe'') port,
          Out (''serve: launched coordinator on port '' @ port @ '' (runs in background).'')])"

definition run_worker :: "string list \<Rightarrow> Effect list" where
  "run_worker args =
     (let port = arg_or ''3090'' 1 args; w = arg_or ''1'' 2 args; boot = arg_or ''1'' 3 args
      in [spawn (exe_dir @ [CHR 0x5C] @ ''bf_worker.exe'') (port @ '' '' @ w @ '' '' @ boot),
          Out (''worker '' @ w @ '' boot '' @ boot @ '' launched against '' @ port)])"

section \<open>The benchmark\<close>

definition bench_metadata :: RequestMetadata where
  "bench_metadata = default_metadata\<lparr>m_tenant := Id 1,
     m_descriptor := default_descriptor\<lparr>d_model := Name ''m'', d_revision := Name ''r'',
       d_adapter := Name ''base'', d_phase := PH_prefill, d_shape := Name ''s1''\<rparr>,
     m_tokens := \<lparr>tok_input = 10, tok_output = 5\<rparr>, m_work := \<lparr>work_value = 100\<rparr>\<rparr>"

fun bench_submits :: "nat \<Rightarrow> (nat \<Rightarrow> TimePoint) \<Rightarrow> Impl \<Rightarrow> Impl" where
  "bench_submits 0 t s = s"
| "bench_submits (Suc n) t s =
     (case submit bench_metadata (-1) (at_clock (t 0) s) of
        (Inl _, s) \<Rightarrow> s
      | (Inr _, s) \<Rightarrow> bench_submits n (\<lambda>i. t (Suc i)) s)"

text \<open>\<open>t k\<close> are the readings of the clock in the iteration that leaves \<open>k\<close> further ones.\<close>

fun bench_ticks :: "Platform \<Rightarrow> nat \<Rightarrow> u64 \<Rightarrow> (nat \<Rightarrow> nat \<Rightarrow> TimePoint) \<Rightarrow> Impl \<Rightarrow> Impl option" where
  "bench_ticks P 0 n t s = Some s"
| "bench_ticks P (Suc k) n t s =
     (case tick P (-1) (at_clock (t k 0) s) of
        None \<Rightarrow> None
      | Some (rep, s) \<Rightarrow>
          (case run_sealed (\<lambda>i. t k (Suc i)) (rep_sealed_batches rep) s of
             None \<Rightarrow> None
           | Some (_, s) \<Rightarrow>
               if st_requests_completed (stats s) \<ge> n then Some s else bench_ticks P k n t s))"

text \<open>What it reports apart from the times: requests submitted and completed.\<close>

definition run_bench :: "Platform \<Rightarrow> CliOs \<Rightarrow> (nat \<Rightarrow> nat \<Rightarrow> TimePoint) \<Rightarrow> string list \<Rightarrow> (int \<times> u64) option" where
  "run_bench P os t args =
     (case atoi (arg_value args ''--requests'') of
        None \<Rightarrow> None
      | Some v \<Rightarrow>
          (let n = (if v \<le> 0 then 1000 else v);
               s = bench_submits (nat n) (\<lambda>i. cli_clock os (Suc i)) (cli_fabric os)
           in map_option (\<lambda>s. (n, st_requests_completed (stats s))) (bench_ticks P 100000 (of_int n) t s)))"

section \<open>The program\<close>

definition kHelp :: "string list" where
  "kHelp = [
     ''Batch Fabric CLI'',
     '''',
     ''usage: batchfabric <command> [options]'',
     '''',
     ''serve <port>                        run the distributed coordinator'',
     ''worker <port> <worker_id> <boot>    run a worker against a coordinator'',
     ''submit --state <s> [--tenant T] [--model M] [--rev R] [--phase P] [--in N] [--work W]'',
     ''cancel --state <s> --request <id>'',
     ''seal --state <s> --batch <id>'',
     ''split --state <s> --batch <id>'',
     ''merge --state <s> --batch-a <id> --batch-b <id>'',
     ''status --state <s>'',
     ''waiting --state <s>'',
     ''batches --state <s>'',
     ''workers --state <s>'',
     ''stats --state <s>'',
     ''snapshot --state <s>'',
     ''explain --state <s> --request <id>'',
     ''recover --state <s> <path>'',
     ''bench [--requests N] [--batch M]'',
     ''print --version'']"

definition print_help :: "Effect list" where
  "print_help = map Out kHelp"

definition bench_line :: "int \<times> u64 \<Rightarrow> Effect" where
  "bench_line r = Out (''bench: submitted='' @ to_string_i64 (fst r) @ '' completed='' @ to_string_u64 (snd r))"

text \<open>\<open>args\<close> are the arguments after the program's name. The exit code is always 0.\<close>

definition cli_main :: "Platform \<Rightarrow> CliOs \<Rightarrow> (nat \<Rightarrow> nat \<Rightarrow> TimePoint) \<Rightarrow> string list \<Rightarrow> files \<Rightarrow>
    (Effect list \<times> files) option" where
  "cli_main P os t args fs =
     (case args of
        [] \<Rightarrow> Some (print_help, fs)
      | cmd # _ \<Rightarrow>
          (let state = arg_value args ''--state'';
               look = (\<lambda>effs. Some (effs, fs))
           in if cmd = ''--help'' \<or> cmd = ''help'' \<or> cmd = ''-h'' then look print_help
              else if cmd = ''--version'' then look [Out ''Batch Fabric 1.0.0'']
              else if cmd = ''serve'' then look (run_serve args)
              else if cmd = ''worker'' then look (run_worker args)
              else if cmd = ''submit'' then run_submit P os args state fs
              else if cmd = ''cancel'' then Some (run_cancel os args state fs)
              else if cmd = ''seal'' \<or> cmd = ''split'' \<or> cmd = ''merge''
              then run_seal_split_merge os args state cmd fs
              else if cmd = ''status'' then look (run_status os state fs)
              else if cmd = ''waiting'' then look (run_waiting os state fs)
              else if cmd = ''batches'' then look (run_batches os state fs)
              else if cmd = ''workers'' then look (run_workers os state fs)
              else if cmd = ''stats'' then look (run_status os state fs)
              else if cmd = ''snapshot'' then look (run_snapshot os state fs)
              else if cmd = ''explain'' then look (run_explain os args state fs)
              else if cmd = ''recover'' then look (run_recover os args state fs)
              else if cmd = ''bench'' then map_option (\<lambda>r. ([bench_line r], fs)) (run_bench P os t args)
              else look print_help))"

end
