(* ===== verification/Anomalies.thy ===== *)
theory Anomalies
  imports Sched_Props Cli
begin

text \<open>
  Behaviour of the scheduler and of the command line program that its documentation does not lead one to
  expect, as facts about the model.
\<close>

text \<open>
  When a sealed batch is split, the batch with the second half of the members is sealed as well, but
  it is not entered in the order of sealed batches, from which ticks report batches.
\<close>

lemma split_child_not_listed:
  assumes "find_batch s b = Some x" and "bat_state x = BS_sealed" and "length (bat_members x) \<ge> 2"
    and "b \<noteq> Id (im_next_batch s)"
  shows "fst (do_split b why s) = Id (im_next_batch s) \<and>
    im_sealed_order (snd (do_split b why s)) = remove1 b (im_sealed_order s) @ [Id (im_next_batch s + 1)] \<and>
    map_option bat_state (find_batch (snd (do_split b why s)) (Id (im_next_batch s))) = Some BS_sealed"
proof -
  have "length (bat_members x) div 2 \<noteq> 0" using assms(3) by linarith
  then show ?thesis
    using assms(1,2,4)
    by (simp add: do_split_def split_child_def split_resealed_def nb_def is_batch_terminal_def Let_def at_find)
qed

text \<open>A retry does not look at the state of the request: cancelled work is queued again.\<close>

lemma retry_ignores_the_state:
  assumes "find_request s i = Some r" and "find_attempt s (req_current_attempt r) = Some a"
    and "att_number a < max_attempts (pol_retry (im_policy s))" and "\<not> has_deadline (m_deadline (req_meta r))"
  shows "\<exists>aid t. do_retry P i now s = map_option (Pair (Inr aid)) (do_tick P now t) \<and>
    map_option req_state (find_request t i) = Some RS_eligible"
proof -
  let ?q = "queue_retry i r (att_number a) s"
  have "do_retry P i now s = map_option (Pair (Inr (fst ?q))) (do_tick P now (snd ?q))"
    using assms by (simp add: do_retry_def split_beta Let_def linorder_not_le [symmetric])
  moreover have "map_option req_state (find_request (snd ?q) i) = Some RS_eligible"
    using assms(1) by (simp add: queue_retry_def na_def Let_def)
  ultimately show ?thesis by blast
qed

text \<open>
  A retry of a request that still waits gives it a second entry in its bucket, of which a later
  cancellation or assignment takes away one.
\<close>

lemma retry_queues_twice:
  fixes n :: u32
  assumes "i \<in> set (index_ids (im_waiting s) (req_key r))"
  defines "t \<equiv> snd (queue_retry i r n s)"
  shows "\<not> distinct (index_ids (im_waiting t) (req_key r))"
    and "i \<in> set (index_ids (index_remove (req_key r) i (im_waiting t)) (req_key r))"
proof -
  have t: "index_ids (im_waiting t) (req_key r) = index_ids (im_waiting s) (req_key r) @ [i]"
    by (simp add: t_def queue_retry_def na_def Let_def widx.ids_add)
  then show "\<not> distinct (index_ids (im_waiting t) (req_key r))" using assms(1) by simp
  show "i \<in> set (index_ids (index_remove (req_key r) i (im_waiting t)) (req_key r))"
    using assms(1) t by (simp add: widx.ids_remove remove1_append)
qed

text \<open>On POSIX systems the command line that \<open>serve\<close> and \<open>worker\<close> run does not name the program.\<close>

lemma spawn_ignores_the_program: "spawn exe args = spawn exe' args"
  by (simp add: spawn_def)

end
