(* ===== verification/Transport.thy ===== *)
theory Transport
  imports Protocol
begin

text \<open>
  \<open>transport.hpp\<close> and \<open>transport.cpp\<close>: framed messages over a stream socket. The socket calls of
  the operating system are parameters: the answers that successive \<open>::recv\<close> and \<open>::send\<close> calls
  give are a list, and so are the outcomes of opening, binding and accepting. An input that is
  used up while more is asked for means that the call blocks, which is \<open>None\<close>.
\<close>

section \<open>Receiving and sending bytes\<close>

datatype RecvAnswer = Recv_data "u8 list" | Recv_closed | Recv_intr | Recv_error

datatype RecvAll = Got "u8 list" | Peer_closed | Recv_failed

definition answer_size :: "RecvAnswer \<Rightarrow> nat" where
  "answer_size a = (case a of Recv_data bs \<Rightarrow> Suc (length bs) | _ \<Rightarrow> 1)"

text \<open>
  One \<open>::recv\<close> takes at most the bytes asked for; the rest of a longer chunk stays in the socket.
  A result of zero bytes is the end of the stream.
\<close>

function recv_all :: "nat \<Rightarrow> u8 list \<Rightarrow> RecvAnswer list \<Rightarrow> (RecvAll \<times> RecvAnswer list) option" where
  "recv_all n buf sock =
     (if length buf < n then
        (case sock of
           [] \<Rightarrow> None
         | Recv_closed # sock \<Rightarrow> Some (Peer_closed, sock)
         | Recv_intr # sock \<Rightarrow> recv_all n buf sock
         | Recv_error # sock \<Rightarrow> Some (Recv_failed, sock)
         | Recv_data bs # sock \<Rightarrow>
             if bs = [] then Some (Peer_closed, sock)
             else (let k = n - length buf
                   in recv_all n (buf @ take k bs)
                        (if length bs \<le> k then sock else Recv_data (drop k bs) # sock)))
      else Some (Got buf, sock))"
  by pat_completeness auto
termination
proof (relation "measure (\<lambda>(n, buf, sock). sum_list (map answer_size sock))", goal_cases)
  case 1
  show ?case by simp
qed (simp add: answer_size_def; arith?)+

declare recv_all.simps [simp del]

datatype SendAnswer = Send_some nat | Send_intr | Send_error

text \<open>\<open>send_all\<close>: the bytes that reached the wire, and whether all were taken.\<close>

fun send_all :: "u8 list \<Rightarrow> SendAnswer list \<Rightarrow> (bool \<times> u8 list) option" where
  "send_all [] _ = Some (True, [])"
| "send_all bs [] = None"
| "send_all bs (Send_intr # os) = send_all bs os"
| "send_all bs (Send_error # os) = Some (False, [])"
| "send_all bs (Send_some k # os) =
     map_option (map_prod id ((@) (take k bs))) (send_all (drop k bs) os)"

section \<open>Frames\<close>

record FrameMessage =
  fm_type :: MessageType
  fm_body :: "u8 list"

record Channel =
  ch_handle :: int
  ch_valid :: bool

definition new_channel :: Channel where
  "new_channel = \<lparr>ch_handle = 0, ch_valid = False\<rparr>"

definition kMaxFrameSize :: u32 where
  "kMaxFrameSize = push_bit 20 64"

definition transport_error :: "string \<Rightarrow> 'a Result" where
  "transport_error msg = Result_err EC_transport_failure msg"

definition frame_bytes :: "FrameMessage \<Rightarrow> u8 list" where
  "frame_bytes msg =
     (let len = 1 + (of_nat (length (fm_body msg)) :: u64)
      in [ucast (drop_bit 24 len AND 0xff), ucast (drop_bit 16 len AND 0xff),
          ucast (drop_bit 8 len AND 0xff), ucast (len AND 0xff), MessageType_value (fm_type msg)] @
         fm_body msg)"

definition Channel_send :: "Channel \<Rightarrow> FrameMessage \<Rightarrow> SendAnswer list \<Rightarrow> (unit Result \<times> u8 list) option" where
  "Channel_send ch msg os =
     (if \<not> ch_valid ch then Some (transport_error ''channel not connected'', [])
      else (let len = 1 + (of_nat (length (fm_body msg)) :: u64)
            in if len = 0 \<or> len > ucast kMaxFrameSize
               then Some (transport_error ''frame too large (or zero)'', [])
               else map_option (\<lambda>(all, out). (if all then Inr () else transport_error ''send failed'', out))
                      (send_all (frame_bytes msg) os)))"

definition header_length :: "u8 list \<Rightarrow> u32" where
  "header_length hdr = push_bit 24 (ucast (hdr ! 0)) OR push_bit 16 (ucast (hdr ! 1)) OR
     push_bit 8 (ucast (hdr ! 2)) OR ucast (hdr ! 3)"

definition Channel_recv :: "Channel \<Rightarrow> RecvAnswer list \<Rightarrow> (FrameMessage Result \<times> RecvAnswer list) option" where
  "Channel_recv ch sock =
     (if \<not> ch_valid ch then Some (transport_error ''channel not connected'', sock)
      else (case recv_all 4 [] sock of
          None \<Rightarrow> None
        | Some (Peer_closed, sock) \<Rightarrow> Some (transport_error ''peer closed connection'', sock)
        | Some (Recv_failed, sock) \<Rightarrow> Some (transport_error ''recv failed'', sock)
        | Some (Got hdr, sock) \<Rightarrow>
            (let len = header_length hdr
             in if len = 0 then Some (transport_error ''zero-length frame'', sock)
                else if len > kMaxFrameSize then Some (transport_error ''oversized frame'', sock)
                else (case recv_all (unat len) [] sock of
                    None \<Rightarrow> None
                  | Some (Got payload, sock) \<Rightarrow>
                      Some (Inr \<lparr>fm_type = MessageType_cast (payload ! 0), fm_body = drop 1 payload\<rparr>, sock)
                  | Some (_, sock) \<Rightarrow> Some (transport_error ''truncated frame'', sock)))))"

section \<open>Opening and closing\<close>

text \<open>
  What the operating system answers, and the sockets that are open. A channel keeps its socket in a
  pointer, so that handle 0 is the null pointer.
\<close>

record OsAnswers =
  os_startup :: bool
  os_socket :: "int option"
  os_pton :: "string \<Rightarrow> bool"
  os_connect :: "string \<Rightarrow> u16 \<Rightarrow> bool"
  os_bind :: "u16 \<Rightarrow> bool"
  os_listen :: bool
  os_sockname :: "u16 option"
  os_accept :: "int option"

definition close_socket :: "int \<Rightarrow> int list \<Rightarrow> int list" where
  "close_socket h opened = remove1 h opened"

definition Channel_connect :: "OsAnswers \<Rightarrow> string \<Rightarrow> u16 \<Rightarrow> Channel \<times> int list \<Rightarrow>
    unit Result \<times> Channel \<times> int list" where
  "Channel_connect os host port st =
     (let (ch, opened) = st in
      if \<not> os_startup os then (transport_error ''WSAStartup failed'', ch, opened)
      else (case os_socket os of
          None \<Rightarrow> (transport_error ''socket creation failed'', ch, opened)
        | Some s \<Rightarrow>
            (let opened = s # opened;
                 h = (if host = ''localhost'' then ''127.0.0.1'' else host)
             in if \<not> os_pton os h then (transport_error ''invalid host address'', ch, close_socket s opened)
                else if \<not> os_connect os h port then (transport_error ''connect failed'', ch, close_socket s opened)
                else (Inr (), ch\<lparr>ch_handle := s, ch_valid := True\<rparr>, opened))))"

definition Channel_close :: "Channel \<times> int list \<Rightarrow> Channel \<times> int list" where
  "Channel_close st =
     (let (ch, opened) = st;
          opened = (if ch_valid ch \<and> ch_handle ch \<noteq> 0 then close_socket (ch_handle ch) opened else opened)
      in (ch\<lparr>ch_handle := 0, ch_valid := False\<rparr>, opened))"

definition channel_usable :: "Channel \<Rightarrow> bool" where
  "channel_usable ch \<longleftrightarrow> ch_valid ch \<and> ch_handle ch \<noteq> 0"

record Server =
  srv_handle :: int
  srv_valid :: bool
  srv_port :: u16

definition Server_bind :: "OsAnswers \<Rightarrow> u16 \<Rightarrow> Server \<times> int list \<Rightarrow> unit Result \<times> Server \<times> int list" where
  "Server_bind os port st =
     (let (srv, opened) = st in
      if \<not> os_startup os then (transport_error ''WSAStartup failed'', srv, opened)
      else (case os_socket os of
          None \<Rightarrow> (transport_error ''socket creation failed'', srv, opened)
        | Some s \<Rightarrow>
            (let opened = s # opened
             in if \<not> os_bind os port then (transport_error ''bind failed'', srv, close_socket s opened)
                else if \<not> os_listen os then (transport_error ''listen failed'', srv, close_socket s opened)
                else (Inr (), srv\<lparr>srv_handle := s, srv_valid := True,
                       srv_port := (case os_sockname os of Some p \<Rightarrow> p | None \<Rightarrow> port)\<rparr>, opened))))"

definition Server_accept :: "OsAnswers \<Rightarrow> Server \<Rightarrow> int list \<Rightarrow> Channel Result \<times> int list" where
  "Server_accept os srv opened =
     (if \<not> srv_valid srv then (transport_error ''server not bound'', opened)
      else (case os_accept os of
          None \<Rightarrow> (transport_error ''accept failed'', opened)
        | Some s \<Rightarrow> (Inr (new_channel\<lparr>ch_handle := s, ch_valid := True\<rparr>), s # opened)))"

definition Server_close :: "Server \<times> int list \<Rightarrow> Server \<times> int list" where
  "Server_close st =
     (let (srv, opened) = st;
          opened = (if srv_valid srv \<and> srv_handle srv \<noteq> 0 then close_socket (srv_handle srv) opened else opened)
      in (srv\<lparr>srv_handle := 0, srv_valid := False\<rparr>, opened))"

section \<open>Streams\<close>

text \<open>An input without end of stream and errors, cut into chunks and interrupted anywhere.\<close>

definition flowing :: "RecvAnswer list \<Rightarrow> bool" where
  "flowing sock \<longleftrightarrow> (\<forall>a \<in> set sock. a = Recv_intr \<or> (\<exists>bs. a = Recv_data bs \<and> bs \<noteq> []))"

fun stream_bytes :: "RecvAnswer list \<Rightarrow> u8 list" where
  "stream_bytes [] = []"
| "stream_bytes (Recv_data bs # sock) = bs @ stream_bytes sock"
| "stream_bytes (_ # sock) = stream_bytes sock"

lemma recv_all_flowing:
  assumes "flowing sock" and "n \<le> length buf + length (stream_bytes sock)" and "length buf \<le> n"
  shows "\<exists>sock'. recv_all n buf (sock @ post)
      = Some (Got (buf @ take (n - length buf) (stream_bytes sock)), sock' @ post) \<and>
    flowing sock' \<and> stream_bytes sock' = drop (n - length buf) (stream_bytes sock)"
  using assms
proof (induction n buf sock rule: recv_all.induct)
  case (1 n buf sock)
  show ?case
  proof (cases "length buf < n")
    case False
    then show ?thesis using "1.prems" by (subst recv_all.simps) simp
  next
    case True
    then obtain a sock1 where sock: "sock = a # sock1"
      using "1.prems"(2) by (cases sock) auto
    show ?thesis
    proof (cases "a = Recv_intr")
      case True
      have "recv_all n buf (sock @ post) = recv_all n buf (sock1 @ post)"
        using \<open>length buf < n\<close> by (subst recv_all.simps) (simp add: sock True)
      then show ?thesis
        using "1.IH" "1.prems" sock True \<open>length buf < n\<close> by (force simp: flowing_def)
    next
      case False
      then obtain bs where a: "a = Recv_data bs" "bs \<noteq> []"
        using "1.prems"(1) sock by (auto simp: flowing_def)
      let ?k = "n - length buf"
      let ?rest = "if length bs \<le> ?k then sock1 else Recv_data (drop ?k bs) # sock1"
      have step: "recv_all n buf (sock @ post) = recv_all n (buf @ take ?k bs) (?rest @ post)"
        using \<open>length buf < n\<close> a by (subst recv_all.simps) (simp add: sock Let_def)
      have f: "flowing ?rest" using "1.prems"(1) sock a by (auto simp: flowing_def)
      have sb: "stream_bytes ?rest = drop ?k bs @ stream_bytes sock1" by simp
      have p: "n \<le> length (buf @ take ?k bs) + length (stream_bytes ?rest)" "length (buf @ take ?k bs) \<le> n"
        using "1.prems" \<open>length buf < n\<close> sock a by (auto simp: sb min_def)
      obtain sock' where "recv_all n (buf @ take ?k bs) (?rest @ post)
          = Some (Got ((buf @ take ?k bs) @ take (n - length (buf @ take ?k bs)) (stream_bytes ?rest)), sock' @ post)"
        "flowing sock'" "stream_bytes sock' = drop (n - length (buf @ take ?k bs)) (stream_bytes ?rest)"
        using "1.IH"(1) [OF \<open>length buf < n\<close> sock a refl f p] by blast
      then show ?thesis
        using "1.prems" \<open>length buf < n\<close> unfolding step
        by (cases "length bs \<le> ?k") (auto simp: sock a)
    qed
  qed
qed

lemma recv_all_cut:
  assumes "flowing sock" and "length buf + length (stream_bytes sock) < n"
  shows "recv_all n buf (sock @ Recv_closed # post) = Some (Peer_closed, post)"
  using assms
proof (induction sock arbitrary: buf)
  case Nil
  then show ?case by (subst recv_all.simps) simp
next
  case (Cons a sock)
  show ?case
  proof (cases a)
    case (Recv_data bs)
    then have le: "length bs \<le> n - length buf" using Cons.prems(2) by simp
    from Recv_data have "recv_all n buf ((a # sock) @ Recv_closed # post)
        = recv_all n (buf @ bs) (sock @ Recv_closed # post)"
      using Cons.prems le by (subst recv_all.simps) (simp add: flowing_def Let_def)
    then show ?thesis using Cons Recv_data by (simp add: flowing_def)
  next
    case Recv_intr
    then show ?thesis using Cons by (subst recv_all.simps) (simp add: flowing_def)
  qed (use Cons.prems in \<open>auto simp: flowing_def\<close>)
qed

section \<open>Frames survive the stream\<close>

definition frame_fits :: "FrameMessage \<Rightarrow> bool" where
  "frame_fits msg \<longleftrightarrow> length (fm_body msg) < 2 ^ 26 \<and> MessageType_ok (fm_type msg)"

lemma byte_of_length:
  "(ucast (drop_bit k (ucast v :: u64) AND 0xff) :: u8) = ucast (drop_bit k v AND 0xff)" for v :: u32
  by (rule bit_word_eqI) (auto simp: bit_simps dest: bit_imp_le_length)

lemma frame_bytes_header:
  assumes "length (fm_body msg) < 2 ^ 26"
  shows "frame_bytes msg = wr_u32 (of_nat (Suc (length (fm_body msg)))) @ MessageType_value (fm_type msg) # fm_body msg"
proof -
  let ?n = "length (fm_body msg)"
  have "(1 + of_nat ?n :: u64) = ucast (of_nat (Suc ?n) :: u32)"
    using assms by (simp add: word_unat_eq_iff unsigned_ucast_eq unat_of_nat take_bit_nat_eq_self
        flip: of_nat_Suc)
  then show ?thesis
    by (simp only: frame_bytes_def wr_u32_def Let_def byte_of_length byte_of_length [of 0, simplified])
      simp
qed

lemma header_length_wr: "header_length (wr_u32 v) = v"
  using u32c.rd_wr [of v "[]"] by (simp add: rd_u32_def header_length_def wr_lengths)

lemma frame_length_ok:
  assumes "length (fm_body msg) < 2 ^ 26"
  shows "unat (of_nat (Suc (length (fm_body msg))) :: u32) = Suc (length (fm_body msg))"
    and "(of_nat (Suc (length (fm_body msg))) :: u32) \<noteq> 0"
    and "\<not> (of_nat (Suc (length (fm_body msg))) :: u32) > kMaxFrameSize"
proof -
  show u: "unat (of_nat (Suc (length (fm_body msg))) :: u32) = Suc (length (fm_body msg))"
    using assms by (simp add: unat_of_nat del: of_nat_Suc)
  show "(of_nat (Suc (length (fm_body msg))) :: u32) \<noteq> 0"
    using u by (metis nat.simps(3) unat_0)
  have "unat kMaxFrameSize = 2 ^ 26" by (simp add: kMaxFrameSize_def push_bit_eq_mult)
  then show "\<not> (of_nat (Suc (length (fm_body msg))) :: u32) > kMaxFrameSize"
    using u assms by (simp add: word_less_nat_alt not_less del: of_nat_Suc)
qed

lemma send_all_complete: "send_all bs os = Some (True, out) \<Longrightarrow> out = bs"
  by (induction bs os arbitrary: out rule: send_all.induct) (auto simp: map_prod_def)

text \<open>
  C31: what a successful send puts on the wire is the whole frame, and a receive at the other end
  gives back exactly the message that was sent, however the stream was cut into chunks and
  interrupted, and leaves the bytes behind the frame for the next receive.
\<close>

theorem frames_survive_fragmentation:
  assumes "frame_fits msg" and "Channel_send ch msg os = Some (Inr (), out)"
    and "ch_valid peer" and "flowing sock" and "stream_bytes sock = out @ rest"
  shows "\<exists>sock'. Channel_recv peer sock = Some (Inr msg, sock') \<and> flowing sock' \<and> stream_bytes sock' = rest"
proof -
  let ?n = "Suc (length (fm_body msg))"
  let ?len = "of_nat ?n :: u32"
  have small: "length (fm_body msg) < 2 ^ 26" using assms(1) by (simp add: frame_fits_def)
  note ok = frame_length_ok [OF small]
  have "out = frame_bytes msg"
    using assms(2) send_all_complete
    by (auto simp: Channel_send_def Let_def transport_error_def split: if_splits)
  then have sb: "stream_bytes sock = wr_u32 ?len @ MessageType_value (fm_type msg) # fm_body msg @ rest"
    using assms(5) frame_bytes_header [OF small] by simp
  have l4: "length (wr_u32 ?len) = 4" by (simp add: wr_lengths)
  obtain s1 where s1: "recv_all 4 [] sock = Some (Got (wr_u32 ?len), s1)" "flowing s1"
    "stream_bytes s1 = MessageType_value (fm_type msg) # fm_body msg @ rest"
    using recv_all_flowing [of sock 4 "[]" "[]"] assms(4) by (auto simp: sb l4 simp del: of_nat_Suc)
  obtain s2 where s2: "recv_all ?n [] s1 = Some (Got (MessageType_value (fm_type msg) # fm_body msg), s2)"
    "flowing s2" "stream_bytes s2 = rest"
    using recv_all_flowing [of s1 ?n "[]" "[]"] s1 by auto
  have "MessageType_cast (MessageType_value (fm_type msg)) = fm_type msg"
    using assms(1) by (simp add: frame_fits_def enum_ok_defs)
  then have "Channel_recv peer sock = Some (Inr msg, s2)"
    using assms(3) s1(1) s2(1) ok by (simp add: Channel_recv_def header_length_wr del: of_nat_Suc)
  with s2 show ?thesis by blast
qed

definition sample_frame :: FrameMessage where
  "sample_frame = \<lparr>fm_type = MT_ping, fm_body = [7, 8]\<rparr>"

definition sample_channel :: Channel where
  "sample_channel = \<lparr>ch_handle = 5, ch_valid = True\<rparr>"

theorem frames_survive_fragmentation_witness:
  "\<exists>sock'. Channel_recv sample_channel [Recv_data [0, 0], Recv_intr, Recv_data [0, 3, 10, 7], Recv_data [8, 9]]
     = Some (Inr sample_frame, sock') \<and> flowing sock' \<and> stream_bytes sock' = [9]"
proof (rule frames_survive_fragmentation)
  show "frame_fits sample_frame"
    by (simp add: frame_fits_def sample_frame_def enum_ok_defs MessageType_cast_def)
  show "Channel_send sample_channel sample_frame [Send_some 3, Send_intr, Send_some 4]
      = Some (Inr (), [0, 0, 0, 3, 10, 7, 8])"
    by (simp add: Channel_send_def sample_channel_def sample_frame_def frame_bytes_def kMaxFrameSize_def
        word_less_nat_alt Let_def)
qed (simp_all add: sample_channel_def flowing_def)

text \<open>
  C32: a frame cut short by the end of the stream, at any byte, is refused with a transport error;
  no message is made of it.
\<close>

theorem truncated_frame_refused:
  assumes "frame_fits msg" and "ch_valid peer" and "flowing sock"
    and "stream_bytes sock = take k (frame_bytes msg)" and "k < length (frame_bytes msg)"
  shows "\<exists>why. Channel_recv peer (sock @ Recv_closed # post) = Some (transport_error why, post)"
proof -
  let ?n = "Suc (length (fm_body msg))"
  let ?len = "of_nat ?n :: u32"
  have small: "length (fm_body msg) < 2 ^ 26" using assms(1) by (simp add: frame_fits_def)
  note ok = frame_length_ok [OF small]
  have l4: "length (wr_u32 ?len) = 4" by (simp add: wr_lengths)
  note fb = frame_bytes_header [OF small]
  show ?thesis
  proof (cases "k < 4")
    case True
    then have "recv_all 4 [] (sock @ Recv_closed # post) = Some (Peer_closed, post)"
      using assms(3-5) by (intro recv_all_cut) simp_all
    then show ?thesis using assms(2) by (auto simp: Channel_recv_def)
  next
    case False
    then have sb: "stream_bytes sock = wr_u32 ?len @ take (k - 4) (MessageType_value (fm_type msg) # fm_body msg)"
      using assms(4) by (simp add: fb l4 del: of_nat_Suc)
    have "\<exists>s1. recv_all 4 [] (sock @ Recv_closed # post) = Some (Got (wr_u32 ?len), s1 @ Recv_closed # post) \<and>
        flowing s1 \<and> stream_bytes s1 = take (k - 4) (MessageType_value (fm_type msg) # fm_body msg)"
      using recv_all_flowing [of sock 4 "[]" "Recv_closed # post"] assms(3)
      by (auto simp: sb l4 simp del: of_nat_Suc)
    then obtain s1 where s1: "recv_all 4 [] (sock @ Recv_closed # post)
          = Some (Got (wr_u32 ?len), s1 @ Recv_closed # post)"
      "flowing s1" "stream_bytes s1 = take (k - 4) (MessageType_value (fm_type msg) # fm_body msg)" by blast
    have "recv_all ?n [] (s1 @ Recv_closed # post) = Some (Peer_closed, post)"
      using s1(2,3) assms(5) False by (intro recv_all_cut) (simp_all add: fb l4 del: of_nat_Suc)
    then show ?thesis
      using assms(2) s1(1) ok by (simp add: Channel_recv_def header_length_wr del: of_nat_Suc) blast
  qed
qed

theorem truncated_frame_refused_witness:
  "\<exists>why. Channel_recv sample_channel ([Recv_data [0, 0, 0], Recv_intr, Recv_data [3, 10]] @ Recv_closed # [])
     = Some (transport_error why, [])"
proof (rule truncated_frame_refused [where k = 5 and msg = sample_frame])
  show "frame_fits sample_frame"
    by (simp add: frame_fits_def sample_frame_def enum_ok_defs MessageType_cast_def)
qed (simp_all add: sample_channel_def flowing_def sample_frame_def frame_bytes_def Let_def)

text \<open>
  C33: a connect that fails leaves the channel and the open sockets as they were; one that succeeds
  opens one socket, which the channel owns. Closing the channel releases that socket again,
  unless its handle is 0: the channel takes that handle for a null pointer and leaks it.
\<close>

theorem connect_and_close_account_for_sockets:
  assumes "Channel_connect os host port (ch, opened) = (res, ch', opened')"
  shows "case res of
      Inl _ \<Rightarrow> ch' = ch \<and> opened' = opened
    | Inr _ \<Rightarrow> opened' = ch_handle ch' # opened \<and>
        snd (Channel_close (ch', opened')) = (if ch_handle ch' = 0 then 0 # opened else opened)"
  using assms
  by (auto simp: Channel_connect_def Channel_close_def close_socket_def transport_error_def Result_err_def
      Let_def split: if_splits option.splits)

definition sample_os :: OsAnswers where
  "sample_os = \<lparr>os_startup = True, os_socket = Some 4, os_pton = (\<lambda>h. h = ''127.0.0.1''),
     os_connect = (\<lambda>_ p. p = 80), os_bind = (\<lambda>_. True), os_listen = True, os_sockname = None,
     os_accept = None\<rparr>"

theorem connect_and_close_account_for_sockets_witness:
  "\<exists>ch opened. Channel_connect sample_os ''localhost'' 80 (new_channel, [9]) = (Inr (), ch, opened) \<and>
     opened = [4, 9] \<and> snd (Channel_close (ch, opened)) = [9]"
proof -
  obtain ch opened where 1: "Channel_connect sample_os ''localhost'' 80 (new_channel, [9]) = (Inr (), ch, opened)"
    "ch_handle ch = 4"
    by (simp add: Channel_connect_def sample_os_def)
  then show ?thesis
    using connect_and_close_account_for_sockets [OF 1(1)] by auto
qed

end
