(* ===== verification/Worker.thy ===== *)
theory Worker
  imports Transport
begin

text \<open>
  The worker process (\<open>app/worker.cpp\<close>): it registers over a channel, runs every batch it is sent on
  the CPU executor and reports the outcome of each member. The identity of the worker comes from
  the command line; the connection is that of \<open>Transport\<close>.
\<close>

definition worker_capability :: "WorkerId \<Rightarrow> ExecutorCapability" where
  "worker_capability w = default_capability\<lparr>cap_worker := w, cap_backend := BK_cpu, cap_max_batch_size := 64\<rparr>"

definition register_frame :: "WorkerId \<Rightarrow> WorkerBootId \<Rightarrow> FrameMessage" where
  "register_frame w boot = \<lparr>fm_type = MT_register_worker,
     fm_body = encode_register \<lparr>reg_worker = w, reg_boot = boot, reg_cap = worker_capability w\<rparr>\<rparr>"

definition failed_member :: "Error \<Rightarrow> MemberWork \<Rightarrow> MemberCompletion" where
  "failed_member e m = \<lparr>mc_request = mw_request m, mc_attempt = mw_attempt m,
     mc_status = CS_retryable_failure, mc_result = [], mc_error_code = err_code e,
     mc_error_message = err_message e\<rparr>"

definition succeeded_member :: "MemberResult \<Rightarrow> MemberCompletion" where
  "succeeded_member r = \<lparr>mc_request = mr_request r, mc_attempt = mr_attempt r, mc_status = CS_success,
     mc_result = mr_output r, mc_error_code = EC_ok, mc_error_message = []\<rparr>"

definition worker_completion :: "WorkerId \<Rightarrow> WorkerBootId \<Rightarrow> BatchExecution \<Rightarrow> MemberResult list Result \<Rightarrow>
    BatchCompletion" where
  "worker_completion w boot ex res = \<lparr>comp_worker = w, comp_boot = boot, comp_epoch = ex_epoch ex,
     comp_generation = ex_generation ex, comp_batch = ex_batch ex,
     comp_members = (case res of Inl e \<Rightarrow> map (failed_member e) (ex_members ex)
       | Inr rs \<Rightarrow> map succeeded_member rs)\<rparr>"

text \<open>What the loop does with one message: answer it, ignore it, or return from \<open>main\<close>.\<close>

datatype WorkerAction = Worker_answer FrameMessage | Worker_ignore | Worker_return

definition worker_message :: "WorkerId \<Rightarrow> WorkerBootId \<Rightarrow> IExecutor \<Rightarrow> FrameMessage \<Rightarrow> WorkerAction" where
  "worker_message w boot exec fm =
     (if fm_type fm = MT_dispatch then
        (case decode_dispatch (fm_body fm) of
           None \<Rightarrow> Worker_ignore
         | Some wd \<Rightarrow> Worker_answer \<lparr>fm_type = MT_complete,
             fm_body = encode_complete \<lparr>wc_completion =
               worker_completion w boot (disp_exec wd) (exec_execute exec (disp_exec wd))\<rparr>\<rparr>)
      else if fm_type fm = MT_shutdown then Worker_return
      else Worker_ignore)"

section \<open>The process\<close>

definition stream_size :: "RecvAnswer list \<Rightarrow> nat" where
  "stream_size sock = sum_list (map answer_size sock)"

lemma recv_all_shrinks:
  "recv_all n buf sock = Some (r, sock') \<Longrightarrow>
   stream_size sock' \<le> stream_size sock \<and> (length buf < n \<longrightarrow> stream_size sock' < stream_size sock)"
proof (induction n buf sock rule: recv_all.induct)
  case (1 n buf sock)
  show ?case
  proof (cases "length buf < n")
    case True
    then show ?thesis
      using "1.prems" "1.IH"
      by (subst (asm) recv_all.simps)
        (fastforce simp: stream_size_def answer_size_def Let_def split: list.splits RecvAnswer.splits if_splits)
  qed (use "1.prems" in \<open>subst (asm) recv_all.simps, simp\<close>)
qed

lemma recv_shrinks: "Channel_recv ch sock = Some (Inr fm, sock') \<Longrightarrow> stream_size sock' < stream_size sock"
  by (auto simp: Channel_recv_def transport_error_def Let_def word_gt_0 unat_gt_0 split: if_splits option.splits
      prod.splits RecvAll.splits dest!: recv_all_shrinks)

text \<open>
  The loop: one message after the other until one ends it or the stream fails. \<open>sock\<close> lists what
  the socket answers. The result is the frames handed to \<open>send\<close>, whose outcome is not looked at,
  and the exit code; it is \<open>None\<close> when the process still waits for the stream.
\<close>

function worker_loop :: "WorkerId \<Rightarrow> WorkerBootId \<Rightarrow> IExecutor \<Rightarrow> Channel \<Rightarrow> RecvAnswer list \<Rightarrow>
    FrameMessage list \<Rightarrow> (FrameMessage list \<times> int) option" where
  "worker_loop w boot exec ch sock sent =
     (case Channel_recv ch sock of
        None \<Rightarrow> None
      | Some (Inl _, _) \<Rightarrow> Some (sent, 0)
      | Some (Inr fm, sock') \<Rightarrow>
          (case worker_message w boot exec fm of
             Worker_answer f \<Rightarrow> worker_loop w boot exec ch sock' (sent @ [f])
           | Worker_ignore \<Rightarrow> worker_loop w boot exec ch sock' sent
           | Worker_return \<Rightarrow> Some (sent, 0)))"
  by pat_completeness auto
termination
  by (relation "measure (\<lambda>(w, boot, exec, ch, sock, sent). stream_size sock)") (auto dest: recv_shrinks)

declare worker_loop.simps [simp del]

text \<open>\<open>main\<close> after the arguments are read: connect, register, and serve.\<close>

definition worker_main :: "u16 \<Rightarrow> WorkerId \<Rightarrow> WorkerBootId \<Rightarrow> OsAnswers \<Rightarrow> SendAnswer list \<Rightarrow> RecvAnswer list \<Rightarrow>
    (FrameMessage list \<times> int) option" where
  "worker_main port w boot os sends sock =
     (case Channel_connect os ''127.0.0.1'' port (new_channel, []) of
        (Inl _, _, _) \<Rightarrow> Some ([], 1)
      | (Inr _, ch, _) \<Rightarrow>
          (case Channel_send ch (register_frame w boot) sends of
             None \<Rightarrow> None
           | Some (Inl _, _) \<Rightarrow> Some ([], 1)
           | Some (Inr _, _) \<Rightarrow>
               worker_loop w boot (CpuExecutor (worker_capability w)) ch sock [register_frame w boot]))"

end
