(* ===== verification/Coordinator.thy ===== *)
theory Coordinator
  imports Worker Sched_Store Introspection Clock
begin

text \<open>
  The coordinator process (\<open>app/coordinator.cpp\<close>): connections are threads, and each thread handles
  one message after the other. The state is the scheduler, the table of registered workers, the
  \<open>running\<close> flag and, for every channel ever accepted, what its thread is doing. A message is
  handled in one step; within it every call of the scheduler reads the clock anew (\<open>t i\<close> is the
  \<open>i\<close>-th reading). A use of a channel after its deletion is undefined behaviour, \<open>None\<close>.
\<close>

section \<open>State\<close>

record WorkerSlot =
  slot_ch :: nat
  slot_boot :: WorkerBootId

datatype Conn = Conn_fresh | Conn_worker WorkerId | Conn_driver | Conn_deleted

record Coord =
  co_fabric :: Impl
  co_workers :: "(WorkerId, WorkerSlot) std_map"
  co_running :: bool
  co_conns :: "nat \<rightharpoonup> Conn"

type_synonym sends = "(nat \<times> FrameMessage) list"

definition coord_policy :: BatchPolicy where
  "coord_policy = (let p = default_policy;
       c = pol_constraints p
     in p\<lparr>pol_constraints := c\<lparr>budget := (budget c)\<lparr>max_requests := 8, max_input_tokens := 100000,
            max_work := 100000\<rparr>, global_max_wait_ns := 1000000, minimum_preferred_batch := 1\<rparr>,
          pol_wait := (pol_wait p)\<lparr>wait_global_max_wait_ns := 1000000\<rparr>,
          pol_retry := (pol_retry p)\<lparr>max_attempts := 3\<rparr>\<rparr>)"

definition coord_init :: "TimePoint \<Rightarrow> Coord" where
  "coord_init t = \<lparr>co_fabric = Impl_init coord_policy t NullEventSink, co_workers = [],
     co_running = True, co_conns = Map.empty\<rparr>"

definition alive :: "Coord \<Rightarrow> nat \<Rightarrow> bool" where
  "alive c ch \<longleftrightarrow> (case co_conns c ch of None \<Rightarrow> False | Some k \<Rightarrow> k \<noteq> Conn_deleted)"

text \<open>\<open>delete ch\<close>.\<close>

definition delete_channel :: "nat \<Rightarrow> Coord \<Rightarrow> Coord option" where
  "delete_channel ch c = (if alive c ch then Some (c\<lparr>co_conns := (co_conns c)(ch \<mapsto> Conn_deleted)\<rparr>) else None)"

definition set_conn :: "nat \<Rightarrow> Conn \<Rightarrow> Coord \<Rightarrow> Coord" where
  "set_conn ch k c = c\<lparr>co_conns := (co_conns c)(ch \<mapsto> k)\<rparr>"

section \<open>Answers\<close>

definition ack_frame :: "bool \<Rightarrow> ErrorCode \<Rightarrow> string \<Rightarrow> FrameMessage" where
  "ack_frame ok code msg = \<lparr>fm_type = MT_ack,
     fm_body = encode_ack \<lparr>ack_ok = ok, ack_code = code, ack_message = msg\<rparr>\<rparr>"

definition result_ack :: "unit Result \<Rightarrow> FrameMessage" where
  "result_ack rr = ack_frame (result_ok rr) (result_code rr)
     (case rr of Inl e \<Rightarrow> err_message e | Inr _ \<Rightarrow> ''ok'')"

definition bad_message :: "string \<Rightarrow> FrameMessage" where
  "bad_message what = ack_frame False EC_transport_failure (''bad '' @ what)"

definition dispatch_frame :: "BatchExecution \<Rightarrow> FrameMessage" where
  "dispatch_frame ex = \<lparr>fm_type = MT_dispatch, fm_body = encode_dispatch \<lparr>disp_exec = ex\<rparr>\<rparr>"

section \<open>Messages\<close>

definition handle_complete :: "(nat \<Rightarrow> TimePoint) \<Rightarrow> nat \<Rightarrow> FrameMessage \<Rightarrow> Coord \<Rightarrow> sends \<times> Coord" where
  "handle_complete t ch m c =
     (case decode_complete (fm_body m) of
        None \<Rightarrow> ([(ch, bad_message ''complete'')], c)
      | Some wc \<Rightarrow>
          (let (rr, s) = complete (wc_completion wc) (-1) (at_clock (t 0) (co_fabric c))
           in ([(ch, result_ack rr)], c\<lparr>co_fabric := s\<rparr>)))"

definition handle_cancel :: "(nat \<Rightarrow> TimePoint) \<Rightarrow> nat \<Rightarrow> FrameMessage \<Rightarrow> Coord \<Rightarrow> sends \<times> Coord" where
  "handle_cancel t ch m c =
     (case decode_cancel (fm_body m) of
        None \<Rightarrow> ([(ch, bad_message ''cancel'')], c)
      | Some wc \<Rightarrow>
          (let (rr, s) = cancel (can_request wc) (can_reason wc) (-1) (at_clock (t 0) (co_fabric c))
           in ([(ch, result_ack rr)], c\<lparr>co_fabric := s\<rparr>)))"

definition handle_roll :: "nat \<Rightarrow> FrameMessage \<Rightarrow> Coord \<Rightarrow> sends \<times> Coord" where
  "handle_roll ch m c =
     ([(ch, ack_frame True EC_ok ''epoch rolled'')],
      if decode_roll_epoch (fm_body m) \<noteq> None then c\<lparr>co_fabric := roll_epoch (co_fabric c)\<rparr> else c)"

text \<open>
  The loop over the batches that a tick sealed: each goes to the registered worker with the smallest
  id, and the loop ends when there is none (or it is worker 0).
\<close>

fun dispatch_sealed :: "(nat \<Rightarrow> TimePoint) \<Rightarrow> BatchId list \<Rightarrow> Coord \<Rightarrow> sends \<times> Coord" where
  "dispatch_sealed t [] c = ([], c)"
| "dispatch_sealed t (b # bs) c =
     (case co_workers c of
        [] \<Rightarrow> ([], c)
      | (w, slot) # _ \<Rightarrow>
          if id_value w = 0 then ([], c)
          else
            (let (pd, s) = prepare_dispatch b w (slot_boot slot) (-1) (at_clock (t 0) (co_fabric c));
                 sent = (case pd of Inl _ \<Rightarrow> [] | Inr ex \<Rightarrow> [(slot_ch slot, dispatch_frame ex)]);
                 (more, c) = dispatch_sealed (\<lambda>i. t (Suc i)) bs (c\<lparr>co_fabric := s\<rparr>)
             in (sent @ more, c)))"

definition submit_response :: "SubmitOutcome \<Rightarrow> BatchId list \<Rightarrow> FrameMessage" where
  "submit_response so sealed = \<lparr>fm_type = MT_submit, fm_body = encode_submit_resp
     \<lparr>resp_request = so_request so, resp_attempt = so_attempt so, resp_admission = so_admission so,
      resp_reason = so_reason so, resp_batch = (case sealed of [] \<Rightarrow> null_id | b # _ \<Rightarrow> b)\<rparr>\<rparr>"

definition handle_submit :: "Platform \<Rightarrow> (nat \<Rightarrow> TimePoint) \<Rightarrow> nat \<Rightarrow> FrameMessage \<Rightarrow> Coord \<Rightarrow>
    (sends \<times> Coord) option" where
  "handle_submit P t ch m c =
     (case decode_submit (fm_body m) of
        None \<Rightarrow> Some ([(ch, bad_message ''submit'')], c)
      | Some ws \<Rightarrow>
          (let (sr, s) = submit (sub_meta ws) (-1) (at_clock (t 0) (co_fabric c))
           in case sr of
                Inl e \<Rightarrow> Some ([(ch, ack_frame False (err_code e) (err_message e))], c\<lparr>co_fabric := s\<rparr>)
              | Inr so \<Rightarrow>
                  (case tick P (-1) (at_clock (t 1) s) of
                     None \<Rightarrow> None
                   | Some (rep, s) \<Rightarrow>
                       (let (sent, c) = dispatch_sealed (\<lambda>i. t (i + 2)) (rep_sealed_batches rep) (c\<lparr>co_fabric := s\<rparr>)
                        in Some (sent @ [(ch, submit_response so (rep_sealed_batches rep))], c)))))"

definition handle_status :: "nat \<Rightarrow> Coord \<Rightarrow> sends \<times> Coord" where
  "handle_status ch c = ([(ch, \<lparr>fm_type = MT_status_response,
     fm_body = encode_status_resp \<lparr>sr_stats = stats (co_fabric c)\<rparr>\<rparr>)], c)"

section \<open>Threads\<close>

text \<open>The \<open>while (running)\<close> at the top of a loop: a stopped thread deletes its channel.\<close>

definition loop_test :: "nat \<Rightarrow> sends \<times> Coord \<Rightarrow> (sends \<times> Coord) option" where
  "loop_test ch r = (if co_running (snd r) then Some r else map_option (Pair (fst r)) (delete_channel ch (snd r)))"

definition driver_message :: "Platform \<Rightarrow> (nat \<Rightarrow> TimePoint) \<Rightarrow> nat \<Rightarrow> FrameMessage \<Rightarrow> Coord \<Rightarrow>
    (sends \<times> Coord) option" where
  "driver_message P t ch m c =
     (if \<not> co_running c then map_option (Pair []) (delete_channel ch c)
      else case fm_type m of
        MT_submit \<Rightarrow> handle_submit P t ch m c
      | MT_status \<Rightarrow> Some (handle_status ch c)
      | MT_roll_epoch \<Rightarrow> Some (handle_roll ch m c)
      | MT_complete \<Rightarrow> Some (handle_complete t ch m c)
      | MT_cancel \<Rightarrow> Some (handle_cancel t ch m c)
      | MT_shutdown \<Rightarrow> map_option (Pair [(ch, ack_frame True EC_ok ''shutdown'')])
          (delete_channel ch (c\<lparr>co_running := False\<rparr>))
      | _ \<Rightarrow> Some ([], c))"

definition worker_conn_message :: "(nat \<Rightarrow> TimePoint) \<Rightarrow> nat \<Rightarrow> FrameMessage \<Rightarrow> Coord \<Rightarrow> (sends \<times> Coord) option" where
  "worker_conn_message t ch m c =
     (if fm_type m = MT_complete then loop_test ch (handle_complete t ch m c)
      else if fm_type m = MT_shutdown
      then map_option (Pair []) (delete_channel ch (c\<lparr>co_running := False\<rparr>))
      else loop_test ch ([], c))"

definition first_message :: "Platform \<Rightarrow> (nat \<Rightarrow> TimePoint) \<Rightarrow> nat \<Rightarrow> FrameMessage \<Rightarrow> Coord \<Rightarrow>
    (sends \<times> Coord) option" where
  "first_message P t ch m c =
     (if fm_type m = MT_register_worker then
        (case decode_register (fm_body m) of
           None \<Rightarrow> map_option (Pair []) (delete_channel ch c)
         | Some reg \<Rightarrow>
             (let w = reg_worker reg;
                  s = snd (register_worker w (reg_boot reg) (reg_cap reg) (at_clock (t 0) (co_fabric c)))
              in loop_test ch ([], set_conn ch (Conn_worker w) (c\<lparr>co_fabric := s,
                   co_workers := std_insert w \<lparr>slot_ch = ch, slot_boot = reg_boot reg\<rparr> (co_workers c)\<rparr>))))
      else driver_message P t ch m (set_conn ch Conn_driver c))"

text \<open>The stream of a connection ends.\<close>

definition connection_lost :: "nat \<Rightarrow> Coord \<Rightarrow> Coord option" where
  "connection_lost ch c = delete_channel ch (case co_conns c ch of
     Some (Conn_worker w) \<Rightarrow> c\<lparr>co_workers := std_erase w (co_workers c)\<rparr> | _ \<Rightarrow> c)"

text \<open>
  The end of \<open>main\<close>: the channels of all registered workers are deleted, and the process is gone
  with its threads.
\<close>

fun delete_all :: "(WorkerId \<times> WorkerSlot) list \<Rightarrow> Coord \<Rightarrow> Coord option" where
  "delete_all [] c = Some c"
| "delete_all ((w, slot) # ws) c =
     (case delete_channel (slot_ch slot) c of None \<Rightarrow> None | Some c \<Rightarrow> delete_all ws c)"

definition coord_exit :: "Coord \<Rightarrow> Coord option" where
  "coord_exit c = map_option (\<lambda>c. c\<lparr>co_running := False, co_workers := [], co_conns := Map.empty\<rparr>) (delete_all (co_workers c) c)"

text \<open>
  What can happen: a connection is accepted (by the main thread, which afterwards looks at
  \<open>running\<close>), \<open>accept\<close> fails, a message or the end of the stream arrives on a connection.
\<close>

datatype CoordEvent =
    Ev_accept nat
  | Ev_accept_failed
  | Ev_message nat FrameMessage "nat \<Rightarrow> TimePoint"
  | Ev_lost nat

definition sends_alive :: "Coord \<Rightarrow> (sends \<times> Coord) option \<Rightarrow> (sends \<times> Coord) option" where
  "sends_alive c r = (case r of None \<Rightarrow> None
     | Some (out, c') \<Rightarrow> if list_all (\<lambda>e. alive c (fst e)) out then Some (out, c') else None)"

fun coord_event :: "Platform \<Rightarrow> CoordEvent \<Rightarrow> Coord \<Rightarrow> (sends \<times> Coord) option" where
  "coord_event P (Ev_accept ch) c =
     (let c = set_conn ch Conn_fresh c
      in if co_running c then Some ([], c) else map_option (Pair []) (coord_exit c))"
| "coord_event P Ev_accept_failed c = map_option (Pair []) (coord_exit c)"
| "coord_event P (Ev_message ch m t) c =
     sends_alive c (case co_conns c ch of
        Some Conn_fresh \<Rightarrow> first_message P t ch m c
      | Some (Conn_worker w) \<Rightarrow> worker_conn_message t ch m c
      | Some Conn_driver \<Rightarrow> driver_message P t ch m c
      | _ \<Rightarrow> Some ([], c))"
| "coord_event P (Ev_lost ch) c =
     (if alive c ch then map_option (Pair []) (connection_lost ch c) else Some ([], c))"

end
