(* ===== verification/Coord_Props.thy ===== *)
theory Coord_Props
  imports Coordinator Scenario
begin

text \<open>
  What the coordinator does to its scheduler and its connections. Every event is a sequence of calls
  of the scheduler's public methods, so whatever holds of all reachable scheduler states holds in
  the coordinator.
\<close>

section \<open>Events are sequences of calls\<close>

fun run_calls :: "Platform \<Rightarrow> Call list \<Rightarrow> Impl \<Rightarrow> Impl option" where
  "run_calls P [] s = Some s"
| "run_calls P (c # cs) s = (case run_call P c s of None \<Rightarrow> None | Some s \<Rightarrow> run_calls P cs s)"

definition wire_call :: "Call \<Rightarrow> bool" where
  "wire_call c \<longleftrightarrow> (case c of Call_dispatch_and_run _ _ _ \<Rightarrow> False | _ \<Rightarrow> True)"

text \<open>
  The calls the coordinator makes without the report of a worker. What it submits has come in over
  the wire.
\<close>

definition own_call :: "Call \<Rightarrow> bool" where
  "own_call c \<longleftrightarrow> (case c of Call_register_worker _ _ _ \<Rightarrow> True | Call_submit meta _ \<Rightarrow> meta_ok meta | Call_cancel _ _ _ \<Rightarrow> True
     | Call_tick _ \<Rightarrow> True | Call_prepare_dispatch _ _ _ _ \<Rightarrow> True | Call_roll_epoch \<Rightarrow> True | Call_clock _ \<Rightarrow> True
     | _ \<Rightarrow> False)"

lemma own_wire: "own_call c \<Longrightarrow> wire_call c"
  by (cases c) (simp_all add: own_call_def wire_call_def)

definition driven :: "(Call \<Rightarrow> bool) \<Rightarrow> Platform \<Rightarrow> Impl \<Rightarrow> Impl \<Rightarrow> bool" where
  "driven Q P s s' \<longleftrightarrow> (\<exists>cs. list_all Q cs \<and> run_calls P cs s = Some s')"

lemma run_calls_append:
  "run_calls P (cs @ ds) s = (case run_calls P cs s of None \<Rightarrow> None | Some s \<Rightarrow> run_calls P ds s)"
  by (induction cs arbitrary: s) (auto split: option.split)

lemma driven_refl [intro]: "driven Q P s s"
  unfolding driven_def by (rule exI [of _ "[]"]) simp

lemma driven_trans: "driven Q P s t \<Longrightarrow> driven Q P t u \<Longrightarrow> driven Q P s u"
  unfolding driven_def by (metis list_all_append option.simps(5) run_calls_append)

lemma driven_call: "run_call P c s = Some t \<Longrightarrow> Q c \<Longrightarrow> driven Q P s t"
  unfolding driven_def by (rule exI [of _ "[c]"]) simp

lemma driven_wire: "driven own_call P s t \<Longrightarrow> driven wire_call P s t"
  unfolding driven_def by (metis list.pred_mono_strong own_wire)

lemma grow_call:
  assumes "run_call P c s = Some s'" and "wire_call c"
  shows "grows s s'"
  using assms
  by (cases c) (auto simp: wire_call_def register_worker_def roll_epoch_def submit_def cancel_def complete_def
    seal_state split_state prepare_dispatch_def expire_def Let_def
    dest!: merge_state retry_state tick_state
    intro!: grow grow_submit grow_cancel grow_complete grow_seal grow_split grow_expire grow_prepare
    intro: grow_merge grow_retry grow_tick split: option.splits)

lemma grow_calls: "run_calls P cs s = Some s' \<Longrightarrow> list_all wire_call cs \<Longrightarrow> grows s s'"
  by (induction cs arbitrary: s) (auto intro: grows_trans grow_call split: option.splits)

lemma grow_driven: "driven wire_call P s t \<Longrightarrow> grows s t"
  unfolding driven_def using grow_calls by blast

lemma reachable_calls:
  "run_calls P cs s = Some s' \<Longrightarrow> list_all wire_call cs \<Longrightarrow> spare s' \<Longrightarrow> reachable P any_call p s \<Longrightarrow>
   reachable P any_call p s'"
proof (induction cs arbitrary: s)
  case (Cons c cs)
  then obtain t where t: "run_call P c s = Some t" "run_calls P cs t = Some s'" by (auto split: option.splits)
  then have "spare t" using Cons.prems(2,3) grow_calls spare_grows by fastforce
  moreover have "any_call c s" by (simp add: any_call_def)
  ultimately have "reachable P any_call p t" using reach_step [OF Cons.prems(4) _ t(1)] by blast
  then show ?case using Cons.IH t(2) Cons.prems by simp
qed simp

lemma driven_reachable: "driven wire_call P s s' \<Longrightarrow> spare s' \<Longrightarrow> reachable P any_call p s \<Longrightarrow> reachable P any_call p s'"
  unfolding driven_def using reachable_calls by blast

lemma driven_at: "driven own_call P s (at_clock t s)"
  by (rule driven_call [of _ "Call_clock t"]) (simp_all add: at_clock_def own_call_def)

lemma driven_methods:
  "driven own_call P s (snd (register_worker w boot cap s))"
  "meta_ok meta \<Longrightarrow> driven own_call P s (snd (submit meta now s))"
  "driven own_call P s (snd (cancel i reason now s))" "driven own_call P s (snd (prepare_dispatch b w boot now s))"
  "driven own_call P s (roll_epoch s)"
  by (rule driven_call [of _ "Call_register_worker w boot cap"] driven_call [of _ "Call_submit meta now"]
      driven_call [of _ "Call_cancel i reason now"] driven_call [of _ "Call_prepare_dispatch b w boot now"]
      driven_call [of _ Call_roll_epoch], simp_all add: own_call_def)+

lemma driven_complete: "driven wire_call P s (snd (complete cmp now s))"
  by (rule driven_call [of _ "Call_complete cmp now"]) (simp_all add: wire_call_def)

lemma driven_tick: "tick P now s = Some (rep, s') \<Longrightarrow> driven own_call P s s'"
  by (rule driven_call [of _ "Call_tick now"]) (simp_all add: own_call_def)

lemma driven_at_methods:
  "driven own_call P s (snd (register_worker w boot cap (at_clock t s)))"
  "meta_ok meta \<Longrightarrow> driven own_call P s (snd (submit meta now (at_clock t s)))"
  "driven own_call P s (snd (cancel i reason now (at_clock t s)))"
  "driven own_call P s (snd (prepare_dispatch b w boot now (at_clock t s)))"
  by (rule driven_trans [OF driven_at driven_methods(1)], erule driven_trans [OF driven_at driven_methods(2)],
      rule driven_trans [OF driven_at driven_methods(3)], rule driven_trans [OF driven_at driven_methods(4)])

text \<open>The loop over sealed batches: every frame it sends was handed out by a call on the way.\<close>

definition handed_on_way :: "Platform \<Rightarrow> BatchExecution \<Rightarrow> Impl \<Rightarrow> Impl \<Rightarrow> bool" where
  "handed_on_way P ex s t \<longleftrightarrow> (\<exists>u v b w boot now. driven own_call P s u \<and>
     prepare_dispatch b w boot now u = (Inr ex, v) \<and> driven own_call P v t)"

lemma on_way_later: "driven own_call P s t \<Longrightarrow> handed_on_way P ex t u \<Longrightarrow> handed_on_way P ex s u"
  unfolding handed_on_way_def using driven_trans by blast

definition sent_on_way :: "Platform \<Rightarrow> Impl \<Rightarrow> sends \<Rightarrow> Impl \<Rightarrow> bool" where
  "sent_on_way P s out t \<longleftrightarrow> (\<forall>(ch, f) \<in> set out. fm_type f = MT_dispatch \<longrightarrow>
     (\<exists>ex. f = dispatch_frame ex \<and> handed_on_way P ex s t))"

lemma dispatch_loop:
  "driven own_call P (co_fabric c) (co_fabric (snd (dispatch_sealed t bs c))) \<and>
   sent_on_way P (co_fabric c) (fst (dispatch_sealed t bs c)) (co_fabric (snd (dispatch_sealed t bs c)))"
proof (induction bs arbitrary: c t)
  case (Cons b bs)
  show ?case
  proof (cases "co_workers c = [] \<or> id_value (fst (hd (co_workers c))) = 0")
    case False
    then obtain w slot ws where w: "co_workers c = (w, slot) # ws" "id_value w \<noteq> 0"
      by (cases "co_workers c") auto
    let ?s0 = "at_clock (t 0) (co_fabric c)"
    obtain pd s where pd: "prepare_dispatch b w (slot_boot slot) (-1) ?s0 = (pd, s)" by force
    define r where "r = dispatch_sealed (\<lambda>i. t (Suc i)) bs (c\<lparr>co_fabric := s\<rparr>)"
    have IH: "driven own_call P s (co_fabric (snd r))" "sent_on_way P s (fst r) (co_fabric (snd r))"
      using Cons.IH [of "c\<lparr>co_fabric := s\<rparr>" "\<lambda>i. t (Suc i)"] by (simp_all add: r_def)
    have run: "dispatch_sealed t (b # bs) c =
        ((case pd of Inl _ \<Rightarrow> [] | Inr ex \<Rightarrow> [(slot_ch slot, dispatch_frame ex)]) @ fst r, snd r)"
      using w pd by (simp add: r_def split_beta Let_def)
    have "driven own_call P ?s0 s"
      using driven_methods(4) [of P ?s0 b w "slot_boot slot" "-1"] pd by simp
    then have s: "driven own_call P (co_fabric c) s" using driven_at driven_trans by blast
    moreover have "handed_on_way P ex (co_fabric c) (co_fabric (snd r))" if "pd = Inr ex" for ex
      using pd that driven_at IH(1) unfolding handed_on_way_def by blast
    moreover have "handed_on_way P ex (co_fabric c) (co_fabric (snd r))"
      if "handed_on_way P ex s (co_fabric (snd r))" for ex
      using s that by (rule on_way_later)
    ultimately show ?thesis
      unfolding run using IH driven_trans [OF s IH(1)] by (fastforce simp: sent_on_way_def split: sum.split)
  qed (cases "co_workers c"; auto simp: sent_on_way_def)
qed (auto simp: sent_on_way_def)

lemma delete_channel_fabric: "delete_channel ch c = Some c' \<Longrightarrow> co_fabric c' = co_fabric c"
  by (auto simp: delete_channel_def split: if_splits)

lemma delete_all_fabric: "delete_all ws c = Some c' \<Longrightarrow> co_fabric c' = co_fabric c"
  by (induction ws arbitrary: c) (auto dest: delete_channel_fabric split: option.splits)

lemma loop_test_fabric: "loop_test ch r = Some (out, c') \<Longrightarrow> co_fabric c' = co_fabric (snd r)"
  by (auto simp: loop_test_def dest: delete_channel_fabric split: if_splits)

lemma driven_handlers:
  "driven own_call P (co_fabric c) (co_fabric (snd (handle_cancel t ch m c)))"
  "driven own_call P (co_fabric c) (co_fabric (snd (handle_roll ch m c)))"
  "driven own_call P (co_fabric c) (co_fabric (snd (handle_status ch c)))"
  by (auto simp: handle_cancel_def handle_roll_def handle_status_def split_beta Let_def
      intro: driven_at_methods driven_methods split: option.split)

text \<open>No frame but those of the dispatch loop is a dispatch.\<close>

lemma handler_types:
  "(ch', f) \<in> set (fst (handle_complete t ch m c)) \<union> set (fst (handle_cancel t ch m c)) \<union>
     set (fst (handle_roll ch m c)) \<union> set (fst (handle_status ch c)) \<Longrightarrow> fm_type f \<noteq> MT_dispatch"
  by (auto simp: handle_complete_def handle_cancel_def handle_roll_def handle_status_def split_beta Let_def
      result_ack_def bad_message_def ack_frame_def split: option.splits)

lemma sent_handlers:
  "sent_on_way P s (fst (handle_complete t ch m c)) u" "sent_on_way P s (fst (handle_cancel t ch m c)) u"
  "sent_on_way P s (fst (handle_roll ch m c)) u" "sent_on_way P s (fst (handle_status ch c)) u"
  "sent_on_way P s [] u" "sent_on_way P s [(ch, ack_frame ok code msg)] u"
  using handler_types [of _ _ t ch m c] by (auto simp: sent_on_way_def ack_frame_def)

lemma driven_submit:
  assumes "handle_submit P t ch m c = Some (out, c')"
  shows "driven own_call P (co_fabric c) (co_fabric c') \<and> sent_on_way P (co_fabric c) out (co_fabric c')"
proof (cases "decode_submit (fm_body m)")
  case (Some ws)
  obtain sr s where sr: "submit (sub_meta ws) (-1) (at_clock (t 0) (co_fabric c)) = (sr, s)" by force
  have "meta_ok (sub_meta ws)" using submit_msg.decode_only [OF Some] by simp
  then have s: "driven own_call P (co_fabric c) s"
    using driven_at_methods(2) [where meta = "sub_meta ws" and P = P and now = "-1" and t = "t 0" and s = "co_fabric c"]
      sr by simp
  show ?thesis
  proof (cases sr)
    case (Inl e)
    then show ?thesis using assms Some sr s by (auto simp: handle_submit_def sent_handlers)
  next
    case (Inr so)
    then obtain rep u where t: "tick P (-1) (at_clock (t 1) s) = Some (rep, u)"
      using assms Some sr by (auto simp: handle_submit_def split: option.splits)
    define r where "r = dispatch_sealed (\<lambda>i. t (i + 2)) (rep_sealed_batches rep) (c\<lparr>co_fabric := u\<rparr>)"
    have out: "out = fst r @ [(ch, submit_response so (rep_sealed_batches rep))]" and c': "c' = snd r"
      using assms Some sr Inr t by (simp_all add: handle_submit_def r_def split_beta)
    have "driven own_call P s u" using driven_at driven_tick [OF t] driven_trans by blast
    then have u: "driven own_call P (co_fabric c) u" using s driven_trans by blast
    note loop = dispatch_loop [of P "c\<lparr>co_fabric := u\<rparr>" "\<lambda>i. t (i + 2)" "rep_sealed_batches rep", folded r_def]
    show ?thesis
      using loop driven_trans [OF u] on_way_later [OF u]
      by (fastforce simp: sent_on_way_def out c' submit_response_def)
  qed
qed (use assms in \<open>auto simp: handle_submit_def bad_message_def sent_handlers\<close>)

text \<open>A report is one call; every other message is handled by calls of the coordinator's own.\<close>

definition report_call :: "FrameMessage \<Rightarrow> Impl \<Rightarrow> Impl \<Rightarrow> bool" where
  "report_call m s s' \<longleftrightarrow> fm_type m = MT_complete \<and> (\<exists>wc t. decode_complete (fm_body m) = Some wc \<and>
     s' = snd (complete (wc_completion wc) (-1) (at_clock t s)))"

lemma complete_cases:
  "driven own_call P (co_fabric c) (co_fabric (snd (handle_complete t ch m c))) \<or>
   fm_type m \<noteq> MT_complete \<or> report_call m (co_fabric c) (co_fabric (snd (handle_complete t ch m c)))"
  by (auto simp: handle_complete_def report_call_def split_beta Let_def split: option.split)

lemma driver_cases:
  assumes "driver_message P t ch m c = Some (out, c')"
  shows "(driven own_call P (co_fabric c) (co_fabric c') \<or> report_call m (co_fabric c) (co_fabric c')) \<and>
    sent_on_way P (co_fabric c) out (co_fabric c')"
proof (cases "co_running c \<and> fm_type m \<in> {MT_submit, MT_status, MT_roll_epoch, MT_complete, MT_cancel}")
  case True
  then show ?thesis
    using assms driven_submit [of P t ch m c out c'] complete_cases [of P c t ch m] driven_handlers
      sent_handlers(1-4)
    unfolding driver_message_def by (auto split: prod.splits) (metis fst_conv snd_conv)+
next
  case False
  then have "co_fabric c' = co_fabric c" and "\<forall>(ch, f) \<in> set out. fm_type f \<noteq> MT_dispatch"
    using assms unfolding driver_message_def
    by (cases "co_running c"; cases "fm_type m"; auto simp: ack_frame_def dest!: delete_channel_fabric)+
  then show ?thesis by (auto simp: sent_on_way_def)
qed

lemma sent_alive: "sends_alive c r = Some x \<Longrightarrow> r = Some x"
  by (auto simp: sends_alive_def split: option.splits if_splits)

lemma event_cases:
  assumes "coord_event P e c = Some (out, c')"
  shows "(driven own_call P (co_fabric c) (co_fabric c') \<or>
      (\<exists>ch m t. e = Ev_message ch m t \<and> report_call m (co_fabric c) (co_fabric c'))) \<and>
    sent_on_way P (co_fabric c) out (co_fabric c')"
proof (cases e)
  case (Ev_accept ch)
  then show ?thesis using assms
    by (auto simp: Let_def coord_exit_def set_conn_def sent_handlers dest!: delete_all_fabric split: if_splits)
next
  case Ev_accept_failed
  then show ?thesis using assms by (auto simp: coord_exit_def sent_handlers dest!: delete_all_fabric)
next
  case (Ev_lost ch)
  then show ?thesis using assms
    by (auto simp: connection_lost_def sent_handlers dest!: delete_channel_fabric
        split: if_splits option.splits Conn.splits)
next
  case (Ev_message ch m t)
  then have r: "(case co_conns c ch of
        Some Conn_fresh \<Rightarrow> first_message P t ch m c
      | Some (Conn_worker w) \<Rightarrow> worker_conn_message t ch m c
      | Some Conn_driver \<Rightarrow> driver_message P t ch m c
      | _ \<Rightarrow> Some ([], c)) = Some (out, c')"
    using assms sent_alive by simp
  let ?Q = "(driven own_call P (co_fabric c) (co_fabric c') \<or> report_call m (co_fabric c) (co_fabric c')) \<and>
    sent_on_way P (co_fabric c) out (co_fabric c')"
  have loop: "loop_test ch r = Some (out, c') \<Longrightarrow> out = fst r \<and> co_fabric c' = co_fabric (snd r)" for r
    using loop_test_fabric [of ch r out c'] by (auto simp: loop_test_def split: if_splits)
  have "?Q" if "first_message P t ch m c = Some (out, c')"
    using that driver_cases [of P t ch m "set_conn ch Conn_driver c" out c'] driven_at_methods(1)
    by (auto simp: first_message_def set_conn_def Let_def sent_handlers dest!: loop delete_channel_fabric
        split: if_splits option.splits)
  moreover have "?Q" if "worker_conn_message t ch m c = Some (out, c')"
    using that complete_cases [of P c t ch m]
    by (auto simp: worker_conn_message_def sent_handlers dest!: loop delete_channel_fabric split: if_splits)
  moreover have "?Q" if "driver_message P t ch m c = Some (out, c')" using that by (rule driver_cases)
  ultimately show ?thesis
    using r Ev_message by (auto simp: sent_handlers split: option.splits Conn.splits)
qed

lemma driven_event:
  assumes "coord_event P e c = Some (out, c')"
  shows "driven wire_call P (co_fabric c) (co_fabric c')"
proof -
  have "driven wire_call P s s'" if "report_call m s s'" for m s s'
    using that driven_trans [OF driven_wire [OF driven_at] driven_complete] by (auto simp: report_call_def)
  then show ?thesis using event_cases [OF assms] driven_wire by blast
qed

section \<open>Runs\<close>

text \<open>The allocator gives a new channel an address that no live channel has.\<close>

definition event_ok :: "CoordEvent \<Rightarrow> Coord \<Rightarrow> bool" where
  "event_ok e c \<longleftrightarrow> (case e of Ev_accept ch \<Rightarrow> \<not> alive c ch | _ \<Rightarrow> True)"

inductive coord_run :: "Platform \<Rightarrow> Coord \<Rightarrow> bool" for P where
  coord_start: "coord_run P (coord_init t)"
| coord_step: "coord_run P c \<Longrightarrow> event_ok e c \<Longrightarrow> coord_event P e c = Some (out, c') \<Longrightarrow>
    spare (co_fabric c') \<Longrightarrow> coord_run P c'"

lemma coord_run_reachable: "coord_run P c \<Longrightarrow> reachable P any_call coord_policy (co_fabric c)"
proof (induction rule: coord_run.induct)
  case (coord_step c e out c')
  then show ?case using driven_reachable driven_event by blast
qed (simp add: coord_init_def reach_init)

text \<open>While no shutdown has been asked for, every registered worker has a live connection of its own.\<close>

definition slots_ok :: "Coord \<Rightarrow> bool" where
  "slots_ok c \<longleftrightarrow> std_ok (co_workers c) \<and> (\<forall>w slot. map_of (co_workers c) w = Some slot \<longrightarrow>
     co_conns c (slot_ch slot) = Some (Conn_worker w))"

definition same_conns :: "Coord \<Rightarrow> Coord \<Rightarrow> bool" where
  "same_conns c c' \<longleftrightarrow> co_workers c' = co_workers c \<and> co_running c' = co_running c \<and> co_conns c' = co_conns c"

lemma same_conns_refl [simp]: "same_conns c c"
  by (simp add: same_conns_def)

lemma sends_alive_iff: "sends_alive c r = Some (out, c') \<longleftrightarrow> r = Some (out, c') \<and> list_all (\<lambda>e. alive c (fst e)) out"
  by (auto simp: sends_alive_def split: option.split)

lemma same_conns_dispatch: "same_conns c (snd (dispatch_sealed t bs c))"
  by (induction bs arbitrary: c t) (auto simp: same_conns_def split_beta Let_def split: list.split)

lemma same_conns_handlers:
  "same_conns c (snd (handle_complete t ch m c))" "same_conns c (snd (handle_cancel t ch m c))"
  "same_conns c (snd (handle_roll ch m c))" "same_conns c (snd (handle_status ch c))"
  by (auto simp: handle_complete_def handle_cancel_def handle_roll_def handle_status_def split_beta Let_def
      same_conns_def split: option.split)

lemma same_conns_submit: "handle_submit P t ch m c = Some (out, c') \<Longrightarrow> same_conns c c'"
  using same_conns_dispatch
  by (fastforce simp: handle_submit_def split_beta Let_def same_conns_def split: option.splits sum.splits)

lemma driver_keeps:
  assumes "driver_message P t ch m c = Some (out, c')"
  shows "same_conns c c' \<or> \<not> co_running c'"
proof -
  have h: "r = (out, c') \<Longrightarrow> same_conns c (snd r) \<Longrightarrow> same_conns c c'" for r by simp
  show ?thesis
    using assms unfolding driver_message_def
    by (cases "co_running c"; cases "fm_type m") (auto simp: delete_channel_def
        intro: h [OF _ same_conns_handlers(1)] h [OF _ same_conns_handlers(2)] h [OF _ same_conns_handlers(3)]
          h [OF _ same_conns_handlers(4)] same_conns_submit split: if_splits)
qed

lemma worker_conn_keeps:
  assumes "worker_conn_message t ch m c = Some (out, c')"
  shows "same_conns c c' \<or> \<not> co_running c'"
  using assms same_conns_handlers(1) [of c t ch m]
  by (cases "co_running c") (auto simp: worker_conn_message_def loop_test_def delete_channel_def same_conns_def
      split: if_splits)

lemma slots_event:
  assumes "slots_ok c" and "co_running c" and "event_ok e c" and "coord_event P e c = Some (out, c')"
    and "co_running c'"
  shows "slots_ok c'"
proof (cases e)
  case (Ev_accept ch)
  then show ?thesis using assms
    by (force simp: slots_ok_def event_ok_def alive_def set_conn_def Let_def)
next
  case Ev_accept_failed
  then show ?thesis using assms by (auto simp: coord_exit_def)
next
  case (Ev_lost ch)
  show ?thesis
  proof (cases "co_conns c ch")
    case (Some k)
    then show ?thesis using assms(1,4) Ev_lost
      by (cases k) (fastforce simp: slots_ok_def connection_lost_def delete_channel_def alive_def std_lookup std_ok_erase
          split: if_splits)+
  qed (use assms Ev_lost in \<open>simp add: alive_def\<close>)
next
  case (Ev_message ch m t)
  have same: "same_conns c c' \<Longrightarrow> slots_ok c'" using assms(1) by (simp add: same_conns_def slots_ok_def)
  show ?thesis
  proof (cases "co_conns c ch")
    case (Some k)
    show ?thesis
    proof (cases k)
      case Conn_fresh
      have fresh: "slots_ok (set_conn ch Conn_driver c)"
        using assms(1) Some Conn_fresh by (force simp: slots_ok_def set_conn_def)
      have "first_message P t ch m c = Some (out, c')"
        using assms(4) Ev_message Some Conn_fresh by (simp add: sends_alive_iff)
      moreover have "driver_message P t ch m (set_conn ch Conn_driver c) = Some (out, c') \<Longrightarrow> ?thesis"
        using driver_keeps [of P t ch m "set_conn ch Conn_driver c" out c'] assms(5) fresh
        by (auto simp: same_conns_def slots_ok_def)
      moreover have "co_conns c (slot_ch slot) \<noteq> Some Conn_fresh" if "map_of (co_workers c) w = Some slot" for w slot
        using assms(1) that by (simp add: slots_ok_def)
      ultimately show ?thesis
        using assms(1,2,5) Some Conn_fresh
        by (auto simp: first_message_def slots_ok_def loop_test_def Let_def set_conn_def std_lookup delete_channel_def
            std_ok_insert split: if_splits option.splits)
    next
      case (Conn_worker w)
      then have "worker_conn_message t ch m c = Some (out, c')"
        using assms(4) Ev_message Some by (simp add: sends_alive_iff)
      then show ?thesis using worker_conn_keeps assms(5) same by blast
    next
      case Conn_driver
      then have "driver_message P t ch m c = Some (out, c')"
        using assms(4) Ev_message Some by (simp add: sends_alive_iff)
      then show ?thesis using driver_keeps assms(5) same by blast
    qed (use assms Ev_message Some in \<open>simp add: sends_alive_def\<close>)
  qed (use assms Ev_message in \<open>simp add: sends_alive_def\<close>)
qed

lemma worker_conn_stopped:
  "worker_conn_message t ch m c = Some (out, c') \<Longrightarrow> \<not> co_running c \<Longrightarrow> \<not> co_running c'"
  using same_conns_handlers(1) [of c t ch m]
  by (auto simp: worker_conn_message_def loop_test_def delete_channel_def same_conns_def split: if_splits)

lemma driver_stopped:
  "driver_message P t ch m c = Some (out, c') \<Longrightarrow> \<not> co_running c \<Longrightarrow> \<not> co_running c'"
  by (auto simp: driver_message_def delete_channel_def split: if_splits)

lemma first_stopped:
  assumes "first_message P t ch m c = Some (out, c')" and "\<not> co_running c"
  shows "\<not> co_running c'"
proof (cases "fm_type m = MT_register_worker")
  case False
  then show ?thesis
    using assms driver_stopped [of P t ch m "set_conn ch Conn_driver c" out c']
    by (simp add: first_message_def set_conn_def)
next
  case True
  then show ?thesis using assms
    by (auto simp: first_message_def loop_test_def delete_channel_def set_conn_def Let_def
        split: option.splits if_splits)
qed

lemma delete_all_running: "delete_all ws d = Some d' \<Longrightarrow> co_running d' = co_running d"
proof (induction ws arbitrary: d)
  case (Cons e ws)
  obtain w slot where e: "e = (w, slot)" by force
  from Cons.prems obtain d1 where "delete_channel (slot_ch slot) d = Some d1" "delete_all ws d1 = Some d'"
    by (auto simp: e split: option.splits)
  then show ?case using Cons.IH [of d1] by (auto simp: delete_channel_def split: if_splits)
qed simp

lemma stays_stopped:
  assumes "coord_event P e c = Some (out, c')" and "\<not> co_running c"
  shows "\<not> co_running c'"
proof (cases e)
  case (Ev_accept ch)
  then show ?thesis using assms
    by (auto simp: coord_exit_def set_conn_def Let_def dest!: delete_all_running)
next
  case Ev_accept_failed
  then show ?thesis using assms by (auto simp: coord_exit_def)
next
  case (Ev_lost ch)
  then show ?thesis using assms
    by (auto simp: connection_lost_def delete_channel_def split: if_splits option.splits Conn.splits)
next
  case (Ev_message ch m t)
  then show ?thesis
    using assms worker_conn_stopped driver_stopped first_stopped
    by (fastforce simp: sends_alive_iff split: option.splits Conn.splits)
qed

lemma slots_run: "coord_run P c \<Longrightarrow> co_running c \<Longrightarrow> slots_ok c"
proof (induction rule: coord_run.induct)
  case (coord_step c e out c')
  have "co_running c"
  proof (rule ccontr)
    assume stopped: "\<not> co_running c"
    have "\<not> co_running c'" using coord_step.hyps(3) stopped by (rule stays_stopped)
    then show False using coord_step.prems by simp
  qed
  then show ?case using slots_event coord_step by blast
qed (simp add: coord_init_def slots_ok_def)

section \<open>No use after deletion\<close>

text \<open>The submit that the message asks for leaves ids for the batches of its tick.\<close>

definition ids_left :: "Platform \<Rightarrow> CoordEvent \<Rightarrow> Coord \<Rightarrow> bool" where
  "ids_left P e c \<longleftrightarrow> (case e of Ev_message ch m t \<Rightarrow>
     (case decode_submit (fm_body m) of None \<Rightarrow> True
      | Some ws \<Rightarrow>
          (let s = at_clock (t 1) (snd (submit (sub_meta ws) (-1) (at_clock (t 0) (co_fabric c))))
           in spare (tick_until_merge P (t 1) s)))
    | _ \<Rightarrow> True)"

lemma set_conn_facts [simp]:
  "co_fabric (set_conn ch k c) = co_fabric c" "co_running (set_conn ch k c) = co_running c"
  "alive (set_conn ch k c) ch \<longleftrightarrow> k \<noteq> Conn_deleted"
  by (simp_all add: set_conn_def alive_def)

lemma ids_left_set_conn [simp]: "ids_left P e (set_conn ch k c) = ids_left P e c"
  by (simp add: ids_left_def cong: CoordEvent.case_cong option.case_cong)

lemma delete_all_distinct:
  "distinct (std_keys ws) \<Longrightarrow> (\<forall>(w, slot) \<in> set ws. co_conns c (slot_ch slot) = Some (Conn_worker w)) \<Longrightarrow>
   \<exists>c'. delete_all ws c = Some c'"
proof (induction ws arbitrary: c)
  case (Cons e ws)
  obtain w slot where e: "e = (w, slot)" by force
  let ?d = "c\<lparr>co_conns := (co_conns c)(slot_ch slot \<mapsto> Conn_deleted)\<rparr>"
  have "\<forall>(w', slot') \<in> set ws. co_conns ?d (slot_ch slot') = Some (Conn_worker w')"
    using Cons.prems by (force simp: e std_keys_def)
  then show ?case
    using Cons.IH [of ?d] Cons.prems by (auto simp: e std_keys_def delete_channel_def alive_def)
qed simp

lemma delete_all_slots: "slots_ok c \<Longrightarrow> \<exists>c'. delete_all (co_workers c) c = Some c'"
  by (rule delete_all_distinct) (auto simp: slots_ok_def std_ok_def in_set_map_of)

lemma dispatch_sends_alive:
  "slots_ok c \<Longrightarrow> list_all (\<lambda>e. alive c (fst e)) (fst (dispatch_sealed t bs c))"
proof (induction bs arbitrary: c t)
  case (Cons b bs)
  have "alive c (slot_ch slot)" if "co_workers c = (w, slot) # ws" for w slot ws
  proof -
    have "map_of (co_workers c) w = Some slot" using that by simp
    then show ?thesis using Cons.prems by (auto simp only: slots_ok_def alive_def) simp
  qed
  moreover have "list_all (\<lambda>e. alive c (fst e)) (fst (dispatch_sealed t' bs (c\<lparr>co_fabric := s\<rparr>)))" for t' s
    using Cons.IH [of "c\<lparr>co_fabric := s\<rparr>" t'] Cons.prems by (simp add: slots_ok_def alive_def)
  ultimately show ?case by (auto simp: Let_def split_beta split: list.split sum.split)
qed simp

lemma handler_sends:
  "fst e = ch" if "e \<in> set (fst (handle_complete t ch m c)) \<union> set (fst (handle_cancel t ch m c)) \<union>
     set (fst (handle_roll ch m c)) \<union> set (fst (handle_status ch c))"
  using that by (auto simp: handle_complete_def handle_cancel_def handle_roll_def handle_status_def split_beta
      Let_def split: option.splits)

lemma submit_defined:
  assumes "struct_inv (co_fabric c)" and "slots_ok c" and "alive c ch"
    and "ids_left P (Ev_message ch m t) c"
  shows "\<exists>r. handle_submit P t ch m c = Some r \<and> list_all (\<lambda>e. alive c (fst e)) (fst r)"
proof (cases "decode_submit (fm_body m)")
  case (Some ws)
  define s1 where "s1 = snd (submit (sub_meta ws) (-1) (at_clock (t 0) (co_fabric c)))"
  define s2 where "s2 = at_clock (t 1) s1"
  have sp: "spare (tick_until_merge P (t 1) s2)"
    using assms(4) Some by (simp add: ids_left_def s1_def s2_def Let_def)
  then have "spare s2" using spare_grows [OF _ grow_until_merge] by blast
  then have "spare s1" by (simp add: s2_def at_clock_def spare_def)
  moreover have "run_call P (Call_submit (sub_meta ws) (-1)) (at_clock (t 0) (co_fabric c)) = Some s1"
    by (simp add: s1_def)
  moreover have "struct_inv (at_clock (t 0) (co_fabric c))"
    using assms(1) by (simp add: at_clock_def keep_fields)
  ultimately have "struct_inv s1" using keep_call by blast
  then have inv: "struct_inv s2" by (simp add: s2_def at_clock_def keep_fields)
  have now: "resolve_now s2 (-1) = t 1" by (simp add: resolve_now_def s2_def at_clock_def)
  obtain z where "do_tick P (t 1) s2 = Some z" using tick_run [OF inv sp] by blast
  then obtain rep u where tick: "tick P (-1) s2 = Some (rep, u)" by (simp add: tick_def Let_def now)
  have sends: "list_all (\<lambda>e. alive c (fst e)) (fst (dispatch_sealed t' bs (c\<lparr>co_fabric := u\<rparr>)))" for t' bs
    using dispatch_sends_alive [of "c\<lparr>co_fabric := u\<rparr>" t' bs] assms(2) by (simp add: slots_ok_def alive_def)
  obtain sr where sr: "submit (sub_meta ws) (-1) (at_clock (t 0) (co_fabric c)) = (sr, s1)"
    by (metis prod.collapse s1_def)
  show ?thesis
    using Some sr tick sends assms(3)
    by (cases sr) (auto simp: handle_submit_def s2_def [symmetric] Let_def split_beta simp del: One_nat_def)
qed (use assms(3) in \<open>simp add: handle_submit_def\<close>)

lemma driver_defined:
  assumes "struct_inv (co_fabric c)" and "slots_ok c" and "alive c ch" and "co_running c"
    and "ids_left P (Ev_message ch m t) c"
  shows "\<exists>r. driver_message P t ch m c = Some r \<and> list_all (\<lambda>e. alive c (fst e)) (fst r)"
proof -
  have "list_all (\<lambda>e. alive c (fst e)) (fst (handle_complete t ch m c))"
    "list_all (\<lambda>e. alive c (fst e)) (fst (handle_cancel t ch m c))"
    "list_all (\<lambda>e. alive c (fst e)) (fst (handle_roll ch m c))"
    "list_all (\<lambda>e. alive c (fst e)) (fst (handle_status ch c))"
    using handler_sends [of _ t ch m c] assms(3) by (fastforce simp: list_all_iff)+
  moreover have "alive (c\<lparr>co_running := False\<rparr>) ch" using assms(3) by (simp add: alive_def)
  ultimately show ?thesis
    using assms(3,4) submit_defined [OF assms(1-3,5)]
    by (cases "fm_type m") (simp_all add: driver_message_def delete_channel_def)
qed

section \<open>Properties\<close>

lemma coord_step_reachable:
  assumes "coord_run P c" and "coord_event P e c = Some (out, c')" and "spare (co_fabric c')"
  shows "reachable P any_call coord_policy (co_fabric c')"
  using assms coord_run_reachable driven_event driven_reachable by blast


text \<open>A worker registers with a fresh coordinator.\<close>

definition sample_coord :: Coord where
  "sample_coord = set_conn 5 Conn_fresh (coord_init 0)"

lemma sample_coord_run: "coord_run P sample_coord"
proof (rule coord_step)
  show "coord_run P (coord_init 0)" by (rule coord_start)
  show "event_ok (Ev_accept 5) (coord_init 0)" by (simp add: event_ok_def alive_def coord_init_def)
  show "coord_event P (Ev_accept 5) (coord_init 0) = Some ([], sample_coord)"
    by (simp add: sample_coord_def coord_init_def set_conn_def Let_def)
  show "spare (co_fabric sample_coord)"
    by (auto simp: sample_coord_def set_conn_def coord_init_def Impl_init_def spare_def unused_def
        find_request_def find_batch_def find_attempt_def intro: exI [of _ 1])
qed

definition sample_coord1 :: Coord where
  "sample_coord1 = set_conn 5 (Conn_worker (Id 3)) (sample_coord\<lparr>
     co_fabric := snd (register_worker (Id 3) (Id 4) (worker_capability (Id 3)) (at_clock 9 (co_fabric sample_coord))),
     co_workers := [(Id 3, \<lparr>slot_ch = 5, slot_boot = Id 4\<rparr>)]\<rparr>)"

lemma worker_capability_ok: "cap_ok (worker_capability w)"
  by (simp add: worker_capability_def cap_ok_def default_capability_def default_device_def
      enum_ok_defs Backend_cast_def string_ok_short)

lemma register_decodes:
  "decode_register (fm_body (register_frame w boot))
     = Some \<lparr>reg_worker = w, reg_boot = boot, reg_cap = worker_capability w\<rparr>"
  unfolding register_frame_def FrameMessage.simps
  by (rule register_msg.decode_encode) (simp add: register_ok_def worker_capability_ok)

lemma sample_coord1_step:
  "coord_event P (Ev_message 5 (register_frame (Id 3) (Id 4)) (\<lambda>_. 9)) sample_coord = Some ([], sample_coord1)"
proof -
  have "fm_type (register_frame (Id 3) (Id 4)) = MT_register_worker" by (simp add: register_frame_def)
  moreover have "co_running sample_coord" "co_workers sample_coord = []" "co_conns sample_coord 5 = Some Conn_fresh"
    by (simp_all add: sample_coord_def set_conn_def coord_init_def)
  ultimately show ?thesis
    by (simp add: sends_alive_iff first_message_def register_decodes loop_test_def sample_coord1_def set_conn_def
        Let_def)
qed

lemma sample_coord1_spare: "spare (co_fabric sample_coord1)"
  by (auto simp: sample_coord1_def sample_coord_def set_conn_def coord_init_def at_clock_def register_worker_def
      Impl_init_def spare_def unused_def find_request_def find_batch_def find_attempt_def emit_def flush_def
      Let_def intro: exI [of _ 1])

lemma sample_coord1_run: "coord_run P sample_coord1"
  using coord_step [OF sample_coord_run _ sample_coord1_step sample_coord1_spare] by (simp add: event_ok_def)




lemma delete_all_dead:
  "(w, slot) \<in> set ws \<Longrightarrow> \<not> alive c (slot_ch slot) \<Longrightarrow> delete_all ws c = None"
proof (induction ws arbitrary: c)
  case (Cons e ws)
  obtain w' slot' where e: "e = (w', slot')" by force
  show ?case
  proof (cases "delete_channel (slot_ch slot') c")
    case (Some d)
    then have "slot' \<noteq> slot" "\<not> alive d (slot_ch slot)"
      using Cons.prems(2) by (auto simp: delete_channel_def alive_def split: if_splits)
    then show ?thesis using Cons.IH [of d] Cons.prems(1) Some by (simp add: e)
  qed (simp add: e)
qed simp

text \<open>
  C22: a worker that asks for the shutdown makes the coordinator delete its channel twice. Its thread
  deletes the channel without taking it out of the table of workers, and when the main thread
  next returns from \<open>accept\<close> it deletes the channels of all workers in that table.
\<close>

theorem worker_shutdown_deletes_twice:
  assumes "map_of (co_workers c) w = Some slot" and "co_conns c (slot_ch slot) = Some (Conn_worker w)"
    and "fm_type m = MT_shutdown" and "ch \<noteq> slot_ch slot"
  shows "\<exists>c'. coord_event P (Ev_message (slot_ch slot) m t) c = Some ([], c') \<and>
    coord_event P (Ev_accept ch) c' = None"
proof -
  let ?d = "c\<lparr>co_running := False, co_conns := (co_conns c)(slot_ch slot \<mapsto> Conn_deleted)\<rparr>"
  have "coord_event P (Ev_message (slot_ch slot) m t) c = Some ([], ?d)"
    using assms(2,3) by (simp add: sends_alive_def worker_conn_message_def delete_channel_def alive_def)
  moreover have "delete_all (co_workers c) (set_conn ch Conn_fresh ?d) = None"
    using assms(4) by (intro delete_all_dead [OF map_of_SomeD [OF assms(1)]]) (simp add: alive_def set_conn_def)
  then have "coord_event P (Ev_accept ch) ?d = None"
    by (simp add: coord_exit_def Let_def) (simp add: set_conn_def)
  ultimately show ?thesis by blast
qed

theorem worker_shutdown_deletes_twice_witness:
  "\<exists>c'. coord_event plain_platform (Ev_message 5 \<lparr>fm_type = MT_shutdown, fm_body = []\<rparr> (\<lambda>_. 0)) sample_coord1 = Some ([], c') \<and>
    coord_event plain_platform (Ev_accept 6) c' = None"
  using worker_shutdown_deletes_twice [of sample_coord1 "Id 3" "\<lparr>slot_ch = 5, slot_boot = Id 4\<rparr>"
      "\<lparr>fm_type = MT_shutdown, fm_body = []\<rparr>" 6]
  by (simp add: sample_coord1_def set_conn_def)

section \<open>Batches left behind\<close>

lemma prepare_names_the_batch:
  assumes "struct_inv s" and "prepare_dispatch b w boot now s = (Inr ex, s')"
  shows "ex_batch ex = b"
proof -
  obtain x where x: "find_batch s b = Some x" and ex: "ex = build_execution (mark_dispatched b w boot (resolve_now s now) s)
      (at_batch (mark_dispatched b w boot (resolve_now s now) s) b)"
    using assms(2) by (auto simp: prepare_dispatch_def do_prepare_dispatch_def Let_def split: option.splits if_splits)
  then show ?thesis
    using struct_bat_id [OF assms(1) x] by (simp add: build_execution_def at_find mark_dispatched_view [OF x])
qed

lemma dispatch_frames:
  assumes "struct_inv (co_fabric c)" and "(ch, f) \<in> set (fst (dispatch_sealed t bs c))"
  shows "\<exists>ex. f = dispatch_frame ex \<and> ex_batch ex \<in> set bs"
  using assms
proof (induction bs arbitrary: c t)
  case (Cons b bs)
  obtain w slot ws where w: "co_workers c = (w, slot) # ws" "id_value w \<noteq> 0"
    using Cons.prems(2) by (cases "co_workers c") (auto split: if_splits)
  obtain pd s where pd: "prepare_dispatch b w (slot_boot slot) (-1) (at_clock (t 0) (co_fabric c)) = (pd, s)"
    by force
  have inv: "struct_inv (at_clock (t 0) (co_fabric c))"
    using Cons.prems(1) by (simp add: at_clock_def keep_fields)
  then have "struct_inv (snd (prepare_dispatch b w (slot_boot slot) (-1) (at_clock (t 0) (co_fabric c))))"
    by (simp add: prepare_dispatch_def keep_frame keep_prepare)
  then have "struct_inv s" by (simp add: pd)
  then have IH: "\<exists>ex. f = dispatch_frame ex \<and> ex_batch ex \<in> set bs"
    if "(ch, f) \<in> set (fst (dispatch_sealed (\<lambda>i. t (Suc i)) bs (c\<lparr>co_fabric := s\<rparr>)))"
    using Cons.IH [of "c\<lparr>co_fabric := s\<rparr>" "\<lambda>i. t (Suc i)"] that by simp
  from Cons.prems(2) w pd IH prepare_names_the_batch [OF inv] show ?case
    by (auto simp: Let_def split_beta split: sum.splits)
qed simp

lemma submit_order: "im_sealed_order (snd (submit meta now s)) = im_sealed_order s"
  by (simp add: submit_def do_submit_def nr_def na_def Let_def)

definition fresh_dispatches :: "Impl \<Rightarrow> sends \<Rightarrow> bool" where
  "fresh_dispatches s out \<longleftrightarrow> (\<forall>(ch, f) \<in> set out. fm_type f = MT_dispatch \<longrightarrow>
     (\<exists>ex. f = dispatch_frame ex \<and> ex_batch ex \<notin> set (im_sealed_order s)))"

lemma fresh_no_dispatch: "(\<And>ch f. (ch, f) \<in> set out \<Longrightarrow> fm_type f \<noteq> MT_dispatch) \<Longrightarrow> fresh_dispatches s out"
  by (auto simp: fresh_dispatches_def)

lemma fresh_submit:
  assumes "struct_inv (co_fabric c)" and "handle_submit P t ch m c = Some (out, c')" and "spare (co_fabric c')"
  shows "fresh_dispatches (co_fabric c) out"
proof (cases "decode_submit (fm_body m)")
  case (Some ws)
  define s0 where "s0 = at_clock (t 0) (co_fabric c)"
  obtain sr s where sr: "submit (sub_meta ws) (-1) s0 = (sr, s)" by force
  show ?thesis
  proof (cases sr)
    case (Inl e)
    then show ?thesis using assms(2) Some sr
      by (auto simp: handle_submit_def s0_def ack_frame_def intro!: fresh_no_dispatch)
  next
    case (Inr so)
    define s2 where "s2 = at_clock (t 1) s"
    obtain rep u where t: "tick P (-1) s2 = Some (rep, u)"
      using assms(2) Some sr Inr by (auto simp: handle_submit_def s0_def s2_def split: option.splits)
    define r where "r = dispatch_sealed (\<lambda>i. t (i + 2)) (rep_sealed_batches rep) (c\<lparr>co_fabric := u\<rparr>)"
    have out: "out = fst r @ [(ch, submit_response so (rep_sealed_batches rep))]" and c': "c' = snd r"
      using assms(2) Some sr Inr t by (simp_all add: handle_submit_def s0_def s2_def r_def split_beta)
    have "driven own_call P u (co_fabric c')"
      using dispatch_loop [of P "c\<lparr>co_fabric := u\<rparr>"] by (simp add: c' r_def)
    then have "spare u" using assms(3) grow_driven driven_wire spare_grows by blast
    moreover have "driven own_call P s u" using driven_at driven_tick [OF t] driven_trans unfolding s2_def by blast
    ultimately have "spare s" using grow_driven driven_wire spare_grows by blast
    have "struct_inv s0" using assms(1) by (simp add: s0_def at_clock_def keep_fields)
    then have "struct_inv s"
      using keep_call [of s0 P "Call_submit (sub_meta ws) (-1)" s] sr \<open>spare s\<close> by simp
    then have "struct_inv s2" by (simp add: s2_def at_clock_def keep_fields)
    then have u: "struct_inv (co_fabric (c\<lparr>co_fabric := u\<rparr>))"
      using keep_call [of s2 P "Call_tick (-1)" u] t \<open>spare u\<close> by simp
    have "set (rep_sealed_batches rep) \<inter> set (im_sealed_order s2) = {}"
      using t by (auto simp: tick_def Let_def)
    moreover have "im_sealed_order s2 = im_sealed_order (co_fabric c)"
      using submit_order [of "sub_meta ws" "-1" s0] sr by (simp add: s2_def s0_def at_clock_def)
    ultimately show ?thesis
      using dispatch_frames [OF u] by (fastforce simp: fresh_dispatches_def out r_def submit_response_def)
  qed
qed (use assms(2) in \<open>auto simp: handle_submit_def bad_message_def ack_frame_def intro!: fresh_no_dispatch\<close>)

lemma fresh_simps [simp]: "fresh_dispatches s []" "fresh_dispatches s [(ch, ack_frame ok code msg)]"
  by (simp_all add: fresh_dispatches_def ack_frame_def)

lemma fresh_handlers:
  "fresh_dispatches s (fst (handle_complete t ch m c))" "fresh_dispatches s (fst (handle_cancel t ch m c))"
  "fresh_dispatches s (fst (handle_roll ch m c))" "fresh_dispatches s (fst (handle_status ch c))"
  using handler_types [of _ _ t ch m c] by (blast intro: fresh_no_dispatch)+

lemma fresh_driver:
  assumes "struct_inv (co_fabric c)" and "driver_message P t ch m c = Some (out, c')" and "spare (co_fabric c')"
  shows "fresh_dispatches (co_fabric c) out"
proof -
  have h: "r = (out, c') \<Longrightarrow> fresh_dispatches (co_fabric c) (fst r) \<Longrightarrow> fresh_dispatches (co_fabric c) out" for r
    by simp
  show ?thesis
    using assms(2) fresh_submit [OF assms(1) _ assms(3)] unfolding driver_message_def
    by (cases "co_running c"; cases "fm_type m") (auto intro: h [OF _ fresh_handlers(1)] h [OF _ fresh_handlers(2)]
        h [OF _ fresh_handlers(3)] h [OF _ fresh_handlers(4)])
qed

lemma fresh_loop_test: "loop_test ch r = Some (out, c') \<Longrightarrow> out = fst r"
  by (auto simp: loop_test_def split: if_splits)

lemma fresh_event:
  assumes "struct_inv (co_fabric c)" and "coord_event P e c = Some (out, c')" and "spare (co_fabric c')"
  shows "fresh_dispatches (co_fabric c) out"
proof (cases e)
  case (Ev_message ch m t)
  have first: "first_message P t ch m c = Some (out, c') \<Longrightarrow> fresh_dispatches (co_fabric c) out"
    using fresh_driver [of "set_conn ch Conn_driver c" P t ch m out c'] assms(1,3)
    by (auto simp: first_message_def Let_def dest!: fresh_loop_test split: if_splits option.splits)
  have worker: "worker_conn_message t ch m c = Some (out, c') \<Longrightarrow> fresh_dispatches (co_fabric c) out"
    by (auto simp: worker_conn_message_def fresh_handlers dest!: fresh_loop_test split: if_splits)
  show ?thesis
    using assms Ev_message first worker fresh_driver [OF assms(1) _ assms(3)]
    by (auto simp: sends_alive_iff split: option.splits Conn.splits)
qed (use assms in \<open>auto simp: Let_def split: if_splits\<close>)

end
