(* ===== verification/Round_Trip.thy ===== *)
theory Round_Trip
  imports Coord_Props Sched_Props
begin

text \<open>
  Coordinator and worker together: what becomes of a batch that is sealed, handed to a worker over
  the wire, computed there and reported back.
\<close>

section \<open>Batches left behind\<close>


text \<open>
  Worker 3 is registered and batch 1 lies sealed. A driver submits a request without a model, which
  is rejected, and the tick that follows leaves the batch where it is.
\<close>

definition stranded :: Coord where
  "stranded = \<lparr>co_fabric = sample2, co_workers = [(Id 3, \<lparr>slot_ch = 5, slot_boot = Id 4\<rparr>)],
     co_running = True, co_conns = [5 \<mapsto> Conn_worker (Id 3), 6 \<mapsto> Conn_driver]\<rparr>"

definition nameless_submit :: FrameMessage where
  "nameless_submit = \<lparr>fm_type = MT_submit, fm_body = encode_submit \<lparr>sub_meta = default_metadata\<rparr>\<rparr>"

definition after_nameless :: Impl where
  "after_nameless = at_clock 9 (snd (submit default_metadata (-1) (at_clock 9 sample2)))"

lemma after_nameless_fields [simp]:
  "im_requests after_nameless = im_requests sample2" "im_batches after_nameless = im_batches sample2"
  "im_attempts after_nameless = im_attempts sample2" "im_workers after_nameless = im_workers sample0"
  "im_policy after_nameless = default_policy" "im_waiting after_nameless = []" "im_forming after_nameless = []"
  "im_sealed_order after_nameless = [Id 1]" "im_clock_now after_nameless = 9"
  by (simp_all add: after_nameless_def submit_def do_submit_def default_metadata_def default_descriptor_def
      name_empty_def at_clock_def)

lemma after_nameless_tick: "do_tick plain_platform 9 after_nameless = Some after_nameless"
proof -
  have "expire_locked plain_platform 9 after_nameless = after_nameless"
    by (simp add: expire_locked_def plain_platform_def past_deadline_def find_request_def
        sample_member_def sample_request_def has_deadline_def forming_members_def)
  then have u: "tick_until_merge plain_platform 9 after_nameless = after_nameless"
    by (simp add: tick_until_merge_def Let_def)
  have "tick_merge after_nameless = Some after_nameless"
    by (simp add: tick_merge_def default_policy_def sealed_by_key_def find_batch_def std_at_def)
  moreover have "tick_split 0 after_nameless = after_nameless"
    by (simp add: tick_split_def find_batch_def max_worker_batch_size_def sample_workers
        default_capability_def Let_def)
  then have "split_loop 0 after_nameless = Some after_nameless"
    by (subst split_loop.simps, simp, subst split_loop.simps, simp)
  ultimately show ?thesis by (simp add: do_tick_def u)
qed

lemma nameless_rejected:
  "\<exists>so. submit default_metadata (-1) (at_clock 9 sample2) = (Inr so, snd (submit default_metadata (-1) (at_clock 9 sample2)))"
  by (simp add: submit_def do_submit_def default_metadata_def default_descriptor_def name_empty_def)

lemma nameless_decodes: "decode_submit (fm_body nameless_submit) = Some \<lparr>sub_meta = default_metadata\<rparr>"
proof -
  have "meta_ok default_metadata"
    using default_desc_ok by (simp add: meta_ok_def default_metadata_def enum_ok_defs LatencyClass_cast_def
        PriorityClass_cast_def string_ok_short time_ok_def)
  then show ?thesis
    using submit_msg.decode_encode [of "\<lparr>sub_meta = default_metadata\<rparr>"] by (simp add: nameless_submit_def)
qed

lemma stranded_simps [simp]:
  "co_fabric stranded = sample2" "co_running stranded" "co_workers stranded = [(Id 3, \<lparr>slot_ch = 5, slot_boot = Id 4\<rparr>)]"
  "co_conns stranded 6 = Some Conn_driver"
  by (simp_all add: stranded_def)

lemma stranded_event:
  "\<exists>f. coord_event plain_platform (Ev_message 6 nameless_submit (\<lambda>_. 9)) stranded
     = Some ([(6, f)], stranded\<lparr>co_fabric := flush after_nameless\<rparr>)"
proof -
  obtain so s where so: "submit default_metadata (-1) (at_clock 9 sample2) = (Inr so, s)"
    and s: "at_clock 9 s = after_nameless"
    using nameless_rejected by (metis after_nameless_def)
  have "tick plain_platform (-1) after_nameless = Some (\<lparr>rep_sealed_batches = [], rep_forming = 0\<rparr>, flush after_nameless)"
    by (simp add: tick_def resolve_now_def after_nameless_tick)
  then have "handle_submit plain_platform (\<lambda>_. 9) 6 nameless_submit stranded
      = Some ([(6, submit_response so [])], stranded\<lparr>co_fabric := flush after_nameless\<rparr>)"
    by (simp add: handle_submit_def nameless_decodes so s Let_def split_beta)
  then show ?thesis
    by (simp add: sends_alive_def driver_message_def nameless_submit_def alive_def)
qed


section \<open>A batch goes round\<close>

definition completed_request :: "RequestRec \<Rightarrow> RequestRec" where
  "completed_request r = r\<lparr>req_state := RS_completed, req_authoritative_complete := True\<rparr>"

definition succeeded_attempt :: "TimePoint \<Rightarrow> string \<Rightarrow> AttemptRec \<Rightarrow> AttemptRec" where
  "succeeded_attempt now txt a = (end_attempt RS_completed CS_success now a)\<lparr>att_result := txt\<rparr>"

lemma complete_one:
  assumes "find_request s (mc_request mc) = Some r" and "req_current_attempt r = mc_attempt mc"
    and "find_attempt s (mc_attempt mc) = Some a" and "\<not> finished a" and "mc_status mc = CS_success"
  shows "find_request (complete_member b now mc s) = (find_request s)(mc_request mc \<mapsto> completed_request r)"
    and "find_attempt (complete_member b now mc s)
      = (find_attempt s)(mc_attempt mc \<mapsto> succeeded_attempt now (mc_result mc) a)"
  using assms
  by (auto simp: complete_member_def apply_member_outcome_def apply_success_def record_outcome_def
      record_result_def finished_def completed_request_def succeeded_attempt_def Let_def fun_eq_iff)

text \<open>A report of success for every member, each with its current, unfinished attempt.\<close>

definition reports_success :: "Impl \<Rightarrow> MemberCompletion list \<Rightarrow> bool" where
  "reports_success s mcs \<longleftrightarrow> distinct (map mc_request mcs) \<and> distinct (map mc_attempt mcs) \<and>
     (\<forall>mc \<in> set mcs. mc_status mc = CS_success \<and>
        (\<exists>r a. find_request s (mc_request mc) = Some r \<and> req_current_attempt r = mc_attempt mc \<and>
           find_attempt s (mc_attempt mc) = Some a \<and> \<not> finished a))"

lemma complete_all:
  assumes "reports_success s mcs"
  shows "(\<forall>mc \<in> set mcs. \<exists>r a. find_request s (mc_request mc) = Some r \<and> find_attempt s (mc_attempt mc) = Some a \<and>
      find_request (fold (complete_member b now) mcs s) (mc_request mc) = Some (completed_request r) \<and>
      find_attempt (fold (complete_member b now) mcs s) (mc_attempt mc)
        = Some (succeeded_attempt now (mc_result mc) a)) \<and>
    (\<forall>i. i \<notin> mc_request ` set mcs \<longrightarrow> find_request (fold (complete_member b now) mcs s) i = find_request s i) \<and>
    (\<forall>k. k \<notin> mc_attempt ` set mcs \<longrightarrow> find_attempt (fold (complete_member b now) mcs s) k = find_attempt s k)"
  using assms
proof (induction mcs arbitrary: s)
  case (Cons mc mcs)
  let ?t = "complete_member b now mc s"
  obtain r a where ra: "find_request s (mc_request mc) = Some r" "req_current_attempt r = mc_attempt mc"
    "find_attempt s (mc_attempt mc) = Some a" "\<not> finished a" "mc_status mc = CS_success"
    using Cons.prems by (auto simp: reports_success_def)
  note t = complete_one [OF ra, of b now]
  have new: "mc_request mc \<notin> mc_request ` set mcs" "mc_attempt mc \<notin> mc_attempt ` set mcs"
    using Cons.prems by (auto simp: reports_success_def)
  have "find_request ?t (mc_request m) = find_request s (mc_request m)"
    "find_attempt ?t (mc_attempt m) = find_attempt s (mc_attempt m)" if "m \<in> set mcs" for m
  proof -
    have "mc_request m \<noteq> mc_request mc" using new(1) that by (metis image_eqI)
    moreover have "mc_attempt m \<noteq> mc_attempt mc" using new(2) that by (metis image_eqI)
    ultimately show "find_request ?t (mc_request m) = find_request s (mc_request m)"
      "find_attempt ?t (mc_attempt m) = find_attempt s (mc_attempt m)" by (simp_all add: t)
  qed
  moreover from this have "reports_success ?t mcs"
    using Cons.prems by (simp add: reports_success_def)
  note IH = Cons.IH [OF this]
  ultimately show ?case using IH new ra by (auto simp: t)
qed simp

lemma length_nat_to_string: "n < 10 ^ Suc k \<Longrightarrow> length (nat_to_string n) \<le> Suc k"
proof (induction k arbitrary: n)
  case 0
  then show ?case by (subst nat_to_string.simps) simp
next
  case (Suc k)
  have "n div 10 < 10 ^ Suc k" using Suc.prems by (simp add: less_mult_imp_div_less)
  then show ?case using Suc.IH [of "n div 10"] by (subst nat_to_string.simps) simp
qed

lemma length_to_string_u64: "length (to_string_u64 v) \<le> 20"
proof -
  have "unat v < 2 ^ 64" using unsigned_less [of v] by simp
  also have "(2::nat) ^ 64 \<le> 10 ^ Suc 19" by simp
  finally show ?thesis using length_nat_to_string [of "unat v" 19] by (simp add: to_string_u64_def)
qed

lemma length_cpu_output: "length (mr_output (cpu_member m)) \<le> 100"
proof -
  have "length (to_string_u64 a) + (length (to_string_u64 b) + length (to_string_u64 c)) \<le> 81" for a b c
    using length_to_string_u64 [of a] length_to_string_u64 [of b] length_to_string_u64 [of c] by simp
  then show ?thesis by (simp add: cpu_member_def Let_def)
qed

lemma cpu_completion_ok: "exec_ok ex \<Longrightarrow> compl_ok (worker_completion w boot ex (cpu_execute ex))"
  using length_cpu_output
  by (auto simp: compl_ok_def exec_ok_def worker_completion_def cpu_execute_def succeeded_member_def
      member_compl_ok_def string_ok_short enum_ok_defs CompletionStatus_cast_def ErrorCode_cast_def)

text \<open>What the worker makes of the dispatch of an execution that fits the wire.\<close>

lemma worker_answers:
  assumes "exec_ok ex"
  shows "worker_message w boot (CpuExecutor cap) (dispatch_frame ex)
    = Worker_answer \<lparr>fm_type = MT_complete,
        fm_body = encode_complete \<lparr>wc_completion = worker_completion w boot ex (cpu_execute ex)\<rparr>\<rparr>"
  using dispatch_msg.decode_encode [of "\<lparr>disp_exec = ex\<rparr>"] assms
  by (simp add: worker_message_def dispatch_frame_def CpuExecutor_def)

lemma prepare_frame:
  assumes "do_prepare_dispatch b w boot now s = (Inr ex, t)"
  shows "find_attempt t = find_attempt s \<and> im_epoch t = im_epoch s \<and> im_workers t = im_workers s \<and>
    (\<forall>i r. find_request s i = Some r \<longrightarrow> (\<exists>r'. find_request t i = Some r' \<and>
       req_current_attempt r' = req_current_attempt r))"
proof -
  obtain x where x: "find_batch s b = Some x" and t: "t = emit ET_dispatch null_id
      (bat_id (at_batch (mark_dispatched b w boot now s) b)) null_id null_id ''dispatch'' (mark_dispatched b w boot now s)"
    using assms by (auto simp: do_prepare_dispatch_def Let_def split: option.splits if_splits)
  show ?thesis
    by (auto simp: t mark_dispatched_def Let_def mark_dispatched_view [OF x])
qed

lemma execution_epoch:
  assumes "do_prepare_dispatch b w boot now s = (Inr ex, t)" and "find_batch s b = Some x"
  shows "ex_epoch ex = bat_epoch x"
  using assms by (auto simp: do_prepare_dispatch_def Let_def build_execution_def at_find
      mark_dispatched_view [OF assms(2)] split: if_splits)

lemma success_report:
  assumes "do_prepare_dispatch b w boot now s = (Inr ex, s1)" and "struct_inv s"
    and "distinct (map mw_request (ex_members ex))" and "distinct (map mw_attempt (ex_members ex))"
    and "\<forall>m \<in> set (ex_members ex). \<exists>a. find_attempt s (mw_attempt m) = Some a \<and> \<not> finished a"
    and "find_request u = find_request s1" and "find_attempt u = find_attempt s1"
  shows "reports_success u (comp_members (worker_completion w boot ex (cpu_execute ex)))"
proof -
  have m: "\<exists>r. find_request u (mw_request m) = Some r \<and> req_current_attempt r = mw_attempt m"
    if "m \<in> set (ex_members ex)" for m
    using prepare_facts [OF assms(2,1)] prepare_frame [OF assms(1)] that assms(6) by fastforce
  have "map mc_request (comp_members (worker_completion w boot ex (cpu_execute ex))) = map mw_request (ex_members ex)"
    "map mc_attempt (comp_members (worker_completion w boot ex (cpu_execute ex))) = map mw_attempt (ex_members ex)"
    by (simp_all add: worker_completion_def cpu_execute_def succeeded_member_def comp_def)
  moreover have "\<exists>r a. find_request u (mw_request m) = Some r \<and> req_current_attempt r = mw_attempt m \<and>
      find_attempt u (mw_attempt m) = Some a \<and> \<not> finished a" if "m \<in> set (ex_members ex)" for m
    using m [OF that] assms(5,7) prepare_frame [OF assms(1)] that by fastforce
  ultimately show ?thesis
    using assms(3,4) by (auto simp: reports_success_def)
      (auto simp: worker_completion_def cpu_execute_def succeeded_member_def)
qed

lemma close_completed:
  assumes "find_batch s b = Some x" and "all_terminal s (bat_members x)"
  shows "map_option bat_state (find_batch (close_batch b now s) b) = Some BS_completed"
  using assms by (simp add: close_batch_def at_find)



end
