(* ===== verification/Attempt_Inv.thy ===== *)
theory Attempt_Inv
  imports Reach
begin

text \<open>
  Requests and their attempts: no two requests share a current attempt, and a request whose current
  attempt has ended has ended itself. Both hold in every reachable state, whatever the callers do.
\<close>

section \<open>The invariant\<close>

definition ended :: "RequestState \<Rightarrow> bool" where
  "ended st \<longleftrightarrow> st = RS_completed \<or> st = RS_cancelled \<or> st = RS_expired \<or> st = RS_failed"

lemma ended_terminal: "ended st \<Longrightarrow> is_request_terminal st"
  by (auto simp: ended_def is_request_terminal_def)

definition attempts_owned :: "Impl \<Rightarrow> bool" where
  "attempts_owned s \<longleftrightarrow> (\<forall>i j r r'. find_request s i = Some r \<longrightarrow> find_request s j = Some r' \<longrightarrow>
     req_current_attempt r = req_current_attempt r' \<longrightarrow> i = j)"

definition attempts_follow :: "Impl \<Rightarrow> bool" where
  "attempts_follow s \<longleftrightarrow> (\<forall>i r a. find_request s i = Some r \<longrightarrow>
     find_attempt s (req_current_attempt r) = Some a \<longrightarrow> ended (att_state a) \<longrightarrow> is_request_terminal (req_state r))"

definition att_inv :: "Impl \<Rightarrow> bool" where
  "att_inv s \<longleftrightarrow> attempts_owned s \<and> attempts_follow s"

lemmas att_defs = att_inv_def attempts_owned_def attempts_follow_def

lemma att_owner:
  "att_inv s \<Longrightarrow> find_request s i = Some r \<Longrightarrow> find_request s j = Some r' \<Longrightarrow>
     req_current_attempt r = req_current_attempt r' \<Longrightarrow> i = j"
  by (auto simp: att_inv_def attempts_owned_def)

lemma att_ended:
  "att_inv s \<Longrightarrow> find_request s i = Some r \<Longrightarrow> find_attempt s (req_current_attempt r) = Some a \<Longrightarrow>
     ended (att_state a) \<Longrightarrow> is_request_terminal (req_state r)"
  by (auto simp: att_inv_def attempts_follow_def)

section \<open>Assignments\<close>

named_theorems att \<comment> \<open>assignments that keep \<open>att_inv\<close>\<close>

lemma att_frame:
  assumes "att_inv s" and "find_request t = find_request s" and "find_attempt t = find_attempt s"
  shows "att_inv t"
  using assms by (simp add: att_defs)

lemma att_prims [att]:
  assumes "att_inv s"
  shows "att_inv (upd_batch b g s)" "att_inv (put_batch b x s)" "att_inv (inc ff s)"
    "att_inv (emit ty rr bb aa tn d s)" "att_inv (flush s)" "att_inv (set_forming k b s)"
    "att_inv (set_waiting w s)" "att_inv (set_fairness q s)" "att_inv (dec_forming_now s)"
    "att_inv (s\<lparr>im_next_request := n\<rparr>)" "att_inv (s\<lparr>im_next_batch := n\<rparr>)"
    "att_inv (s\<lparr>im_next_attempt := n\<rparr>)" "att_inv (s\<lparr>im_next_generation := n\<rparr>)"
    "att_inv (s\<lparr>im_sealed_order := ord\<rparr>)" "att_inv (s\<lparr>im_stats := st\<rparr>)"
    "att_inv (s\<lparr>im_workers := ws\<rparr>)" "att_inv (s\<lparr>im_epoch := ep\<rparr>)" "att_inv (s\<lparr>im_clock_now := clk\<rparr>)"
    "att_inv (s\<lparr>im_forming := fm, im_sealed_order := ord\<rparr>)" "att_inv (recompute b s)"
  by (rule att_frame [OF assms], simp_all)+

text \<open>A request keeps its attempt, and does not come back from the dead.\<close>

lemma att_upd_request:
  assumes "att_inv s" and "\<And>r. req_current_attempt (f r) = req_current_attempt r"
    and "\<And>r. find_request s i = Some r \<Longrightarrow> is_request_terminal (req_state r) \<Longrightarrow> is_request_terminal (req_state (f r))"
  shows "att_inv (upd_request i f s)"
  unfolding att_inv_def
proof
  show "attempts_owned (upd_request i f s)"
    using assms(1,2) by (auto simp: att_defs split: if_splits)
  show "attempts_follow (upd_request i f s)"
    using assms(1) att_ended [OF assms(1)] assms(2,3) by (auto simp: attempts_follow_def split: if_splits)
qed

lemma att_upd_requests:
  assumes "att_inv s" and "\<And>r. req_current_attempt (f r) = req_current_attempt r"
    and "\<And>r. is_request_terminal (req_state r) \<Longrightarrow> is_request_terminal (req_state (f r))"
  shows "att_inv (upd_requests ms f s)"
  unfolding upd_requests_def
  by (rule fold_invariant_on [where P = att_inv]) (simp_all add: assms att_upd_request)

lemma att_assign [att]: "att_inv s \<Longrightarrow> att_inv (assign_batch b ms s)"
  unfolding assign_batch_def by (rule att_upd_requests) simp_all

lemma att_advance [att]:
  "att_inv s \<Longrightarrow> \<not> is_request_terminal st \<Longrightarrow> att_inv (advance_members st st' ms s)"
  unfolding advance_members_def by (rule att_upd_requests) auto

text \<open>An attempt may end once its request has.\<close>

lemma att_upd_attempt:
  assumes "att_inv s" and "\<And>i r. find_request s i = Some r \<Longrightarrow> req_current_attempt r = a \<Longrightarrow> is_request_terminal (req_state r)"
  shows "att_inv (upd_attempt a h s)"
  using assms by (auto simp: att_defs split: if_splits)

lemma att_upd_attempt_same [att]:
  assumes "att_inv s" and "\<And>a. att_state (h a) = att_state a"
  shows "att_inv (upd_attempt a h s)"
  using assms by (auto simp: att_defs split: if_splits)

lemma att_end:
  assumes "att_inv s" and r: "find_request s i = Some r"
    and "\<And>r. req_current_attempt (f r) = req_current_attempt r" and "\<And>r. is_request_terminal (req_state (f r))"
  shows "att_inv (upd_attempt (req_current_attempt r) h (upd_request i f s))"
proof (rule att_upd_attempt)
  show "att_inv (upd_request i f s)" using assms by (intro att_upd_request)
  show "is_request_terminal (req_state z)"
    if "find_request (upd_request i f s) j = Some z" "req_current_attempt z = req_current_attempt r" for j z
  proof (cases "j = i")
    case False
    then show ?thesis using that att_owner [OF assms(1) _ r, of j z] by simp
  qed (use that r assms(4) in auto)
qed

text \<open>A new attempt for a request, under an id that no request uses.\<close>

definition attempt_free :: "Impl \<Rightarrow> AttemptId \<Rightarrow> bool" where
  "attempt_free s aid \<longleftrightarrow> (\<forall>i r. find_request s i = Some r \<longrightarrow> req_current_attempt r \<noteq> aid)"

lemma struct_attempt_free: "struct_inv s \<Longrightarrow> attempt_free s (Id (im_next_attempt s))"
  using struct_attempt dense_fresh [of "im_next_attempt s" "dom (find_attempt s)"]
  by (fastforce simp: attempt_free_def struct_inv_def ids_inv_def)

lemma attempt_free_other: "attempt_free s aid \<Longrightarrow> find_request s i = Some r \<Longrightarrow> req_current_attempt r \<noteq> aid"
  by (auto simp: attempt_free_def)

lemma att_renew:
  assumes "att_inv s" and "attempt_free s aid" and "\<not> ended (att_state a)"
    and "\<And>r. req_current_attempt (f r) = aid"
  shows "att_inv (upd_request i f (put_attempt aid a s))"
  using att_owner [OF assms(1)] att_ended [OF assms(1)] attempt_free_other [OF assms(2)] assms(3,4)
  unfolding att_defs by (auto split: if_splits) (metis assms(2) attempt_free_other)+

lemma att_new_request:
  assumes "att_inv s" and "attempt_free s aid" and "req_current_attempt r = aid"
    and "ended (att_state a) \<Longrightarrow> is_request_terminal (req_state r)"
  shows "att_inv (put_attempt aid a (put_request i r s))"
  using att_owner [OF assms(1)] att_ended [OF assms(1)] attempt_free_other [OF assms(2)] assms(3,4)
  unfolding att_defs by (auto split: if_splits) (metis assms(2,3) attempt_free_other)+

lemma attempt_free_frame [simp]:
  "attempt_free (s\<lparr>im_next_request := n\<rparr>) aid = attempt_free s aid"
  "attempt_free (s\<lparr>im_next_attempt := n\<rparr>) aid = attempt_free s aid"
  "attempt_free (inc ff s) aid = attempt_free s aid"
  by (simp_all add: attempt_free_def)

lemma attempt_free_upd [simp]:
  "(\<And>r. req_current_attempt (f r) = req_current_attempt r) \<Longrightarrow>
     attempt_free (upd_request i f s) aid = attempt_free s aid"
  "attempt_free (upd_attempt a h s) aid = attempt_free s aid"
  "attempt_free (upd_batch b g s) aid = attempt_free s aid"
  by (auto simp: attempt_free_def) metis+

section \<open>The handlers\<close>

lemma att_submit:
  assumes "att_inv s" and "struct_inv s"
  shows "att_inv (snd (do_submit meta now s))"
  using assms(1) struct_attempt_free [OF assms(2)]
  by (auto simp: do_submit_def nr_def na_def Let_def ended_def is_request_terminal_def
      intro!: att_prims att_new_request)

lemma waiting_not_terminal: "is_waiting_state st \<Longrightarrow> \<not> is_request_terminal st"
  by (auto simp: is_waiting_state_def is_request_terminal_def)

lemma att_fill: "att_inv s \<Longrightarrow> att_inv (fill_forming P b k now s)"
proof -
  assume s: "att_inv s"
  have "att_inv (fill_loop P b k now cs s)" for cs
  proof (rule fill_loop_rule [where I = "\<lambda>_. att_inv"])
    fix cs t p r
    assume t: "att_inv t" and r: "find_request t p = Some r" "may_join t (at_batch t b) now p r"
    then have "\<not> is_request_terminal (req_state r)" by (simp add: may_join_def waiting_not_terminal)
    then show "att_inv (set_waiting (index_remove k p) (add_member_to_batch b p t))"
      using t r by (auto simp: add_member_to_batch_def intro!: att_prims att_upd_request)
  qed (use s in auto)
  then show ?thesis using s by (simp add: fill_forming_def split: option.split)
qed

lemma att_make_forming: "att_inv s \<Longrightarrow> att_inv (make_forming P k now s)"
  by (simp add: make_forming_def open_forming_def settle_forming_def nb_def ng_def Let_def att_prims att_fill)

lemma not_terminal [simp]:
  "\<not> is_request_terminal RS_reserved" "\<not> is_request_terminal RS_batched"
  "\<not> is_request_terminal RS_dispatched" "\<not> is_request_terminal RS_eligible"
  "\<not> is_request_terminal RS_running" "\<not> is_request_terminal RS_waiting"
  by (simp_all add: is_request_terminal_def)

lemma terminal [simp]:
  "is_request_terminal RS_completed" "is_request_terminal RS_cancelled" "is_request_terminal RS_expired"
  "is_request_terminal RS_failed" "is_request_terminal RS_rejected"
  by (simp_all add: is_request_terminal_def)

lemma att_seal: "att_inv s \<Longrightarrow> att_inv (snd (do_seal b reason now s))"
  by (simp add: do_seal_def Let_def att split: option.split)

lemma att_split: "att_inv s \<Longrightarrow> att_inv (snd (do_split b reason s))"
  by (simp add: do_split_def split_child_def split_resealed_def nb_def Let_def att split: option.split)

lemma att_merge: "att_inv s \<Longrightarrow> do_merge a b s = Some (c, s') \<Longrightarrow> att_inv s'"
  by (auto simp: do_merge_def Let_def intro!: att split: option.splits if_splits)

lemma att_terminal:
  "att_inv s \<Longrightarrow> is_request_terminal st \<Longrightarrow> att_inv (complete_request_terminal i oc st now s)"
  by (auto simp: complete_request_terminal_def Let_def intro!: att_prims att_end split: option.split)

lemma find_remove_member [simp]:
  "find_request (remove_member i b now s) = find_request s" "find_attempt (remove_member i b now s) = find_attempt s"
  by (simp_all add: remove_member_def Let_def)

lemma att_cancel: "att_inv s \<Longrightarrow> att_inv (snd (do_cancel i reason now s))"
proof -
  assume s: "att_inv s"
  then have "att_inv (remove_member j b now s)" for j b by (rule att_frame) simp_all
  then show ?thesis using s
    by (auto simp: do_cancel_def Let_def intro!: att_prims att_end split: option.split)
qed

lemma att_fold: "att_inv s \<Longrightarrow> (\<And>x s. att_inv s \<Longrightarrow> att_inv (f x s)) \<Longrightarrow> att_inv (fold f xs s)"
  by (rule fold_invariant_on [where P = att_inv])

lemma att_expire: "att_inv s \<Longrightarrow> att_inv (expire_locked P now s)"
  unfolding expire_locked_def Let_def
  by (intro att_fold)
    (auto simp: expire_waiting_def expire_member_def intro!: att_terminal att_cancel att_prims split: option.split)

lemma att_tick_fills: "att_inv (snd ts) \<Longrightarrow> att_inv (snd (fold (tick_fill P now) bs ts))"
proof (rule fold_invariant_on [where P = "\<lambda>ts. att_inv (snd ts)"])
  fix b and ts :: "BatchId list \<times> Impl"
  assume "att_inv (snd ts)"
  then show "att_inv (snd (tick_fill P now b ts))"
    by (cases ts) (simp add: tick_fill_def Let_def att_prims att_fill split: option.split)
qed

lemma att_until_merge: "att_inv s \<Longrightarrow> att_inv (tick_until_merge P now s)"
proof -
  assume s: "att_inv s"
  define s2 where "s2 = fold (tick_form P now) (map fst (plat_bucket_iter P (im_waiting (expire_locked P now s))))
    (expire_locked P now s)"
  have "att_inv s2" unfolding s2_def
    by (intro att_fold att_expire s) (simp add: tick_form_def att_make_forming)
  then have "att_inv (snd (fold (tick_fill P now) bs ([], s2)))" for bs by (simp add: att_tick_fills)
  moreover have "att_inv t \<Longrightarrow> att_inv (tick_seal now b t)" for t b
    by (simp add: tick_seal_def att_seal split: option.split)
  ultimately show ?thesis
    by (auto simp: tick_until_merge_def s2_def [symmetric] Let_def split_beta intro!: att_fold)
qed

lemma att_merges: "merge_groups vs s = Some t \<Longrightarrow> att_inv s \<Longrightarrow> att_inv t"
proof -
  have n: "merge_neighbours v s = Some t \<Longrightarrow> att_inv s \<Longrightarrow> att_inv t" for v s t
  proof (induction v s rule: merge_neighbours.induct)
    case (1 x y v s)
    then show ?case by (auto split: if_splits option.splits dest: att_merge)
  qed auto
  show "merge_groups vs s = Some t \<Longrightarrow> att_inv s \<Longrightarrow> att_inv t"
    by (induction vs arbitrary: s) (auto split: option.splits dest: n)
qed

lemma att_tick:
  assumes "att_inv s" and "struct_inv s" and "do_tick P now s = Some t" and "spare t"
  shows "att_inv t"
proof -
  let ?u = "tick_until_merge P now s"
  have "spare ?u" using spare_grows [OF assms(4) grow_after_merge [OF assms(3)]] .
  then obtain v where v: "tick_merge ?u = Some v" "struct_inv v"
    using tick_merge_run [OF tick_until_merge_run [OF assms(2)]] by blast
  have "att_inv v"
    using v(1) att_until_merge [OF assms(1)] by (auto simp: tick_merge_def dest: att_merges split: if_splits)
  moreover have "t = fold tick_split [0..<length (im_sealed_order v)] v"
    using assms(3) v split_loop_total [OF own_ids_struct, of v 0] by (simp add: do_tick_def)
  ultimately show ?thesis
    by (auto intro!: att_fold simp: tick_split_def Let_def att_split split: option.split)
qed

lemma att_queue: "att_inv s \<Longrightarrow> attempt_free s (Id (im_next_attempt s)) \<Longrightarrow> att_inv (snd (queue_retry i r num s))"
  by (auto simp: queue_retry_def na_def Let_def ended_def intro!: att_prims att_renew)

lemma att_requeue: "att_inv s \<Longrightarrow> attempt_free s (Id (im_next_attempt s)) \<Longrightarrow> att_inv (requeue i r num s)"
  by (auto simp: requeue_def na_def Let_def ended_def intro!: att_prims att_renew att_upd_attempt_same)

text \<open>A member's outcome, for the current attempt of the request.\<close>

lemma apply_failure_next [simp]:
  "im_next_attempt (apply_failure i r aid mc now s) = im_next_attempt s"
  "attempt_free (apply_failure i r aid mc now s) x = attempt_free s x"
  by (simp_all add: apply_failure_def record_outcome_def record_result_def set_state_def Let_def)

lemma att_outcome:
  assumes s: "att_inv s" and r: "find_request s i = Some r" and aid: "req_current_attempt r = aid"
    and free: "attempt_free s (Id (im_next_attempt s))"
  shows "att_inv (apply_member_outcome i r aid a mc now s)"
proof -
  have parts: "att_inv (apply_success i r aid a mc now s)" "att_inv (apply_failure i r aid mc now s)"
    "is_request_terminal st \<Longrightarrow> att_inv (apply_terminal i r aid mc st now s)" for st
    unfolding aid [symmetric]
    by (auto simp: apply_success_def apply_failure_def apply_terminal_def record_outcome_def
        record_result_def set_state_def Let_def intro!: att_prims att_end s r)
  then show ?thesis using s free
    by (auto simp: apply_member_outcome_def Let_def intro!: att_prims att_requeue
        split: CompletionStatus.split)
qed

lemma att_complete_member:
  assumes "att_inv s" and "struct_inv s"
  shows "att_inv (complete_member b now mc s)"
  using assms(1) att_outcome [OF assms(1) _ _ struct_attempt_free [OF assms(2)]]
  by (auto simp: complete_member_def intro!: att_prims split: option.split)

section \<open>Loops of steps that take new ids\<close>

lemma fold_spare_rule:
  assumes "\<And>x s. x \<in> set xs \<Longrightarrow> struct_inv s \<Longrightarrow> J s \<Longrightarrow> J (f x s)"
    and "\<And>x s. struct_inv s \<Longrightarrow> spare (f x s) \<Longrightarrow> struct_inv (f x s)" and "\<And>x s. grows s (f x s)"
  shows "struct_inv s \<Longrightarrow> J s \<Longrightarrow> spare (fold f xs s) \<Longrightarrow> struct_inv (fold f xs s) \<and> J (fold f xs s)"
  using assms(1)
proof (induction xs arbitrary: s)
  case (Cons x xs)
  then have "spare (f x s)" using grow_fold [of f] assms(3) spare_grows by auto
  with Cons assms(2) show ?case by simp
qed simp

definition failed_report :: "Error \<Rightarrow> RequestId \<Rightarrow> AttemptId \<Rightarrow> MemberCompletion" where
  "failed_report e m aid = \<lparr>mc_request = m, mc_attempt = aid, mc_status = CS_retryable_failure,
     mc_result = [], mc_error_code = err_code e, mc_error_message = Error_to_string e\<rparr>"

lemma fail_members_rule:
  assumes "\<And>m ms s. find_request s m = None \<Longrightarrow> J (m # ms) s \<Longrightarrow> J ms s"
    and "\<And>m ms s r a. struct_inv s \<Longrightarrow> J (m # ms) s \<Longrightarrow> find_request s m = Some r \<Longrightarrow>
      J ms (apply_member_outcome m r (req_current_attempt r) a (failed_report e m (req_current_attempt r)) now s)"
  shows "fail_members e now ms s = Some t \<Longrightarrow> struct_inv s \<Longrightarrow> spare t \<Longrightarrow> J ms s \<Longrightarrow> J [] t"
proof (induction ms arbitrary: s)
  case (Cons m ms)
  show ?case
  proof (cases "find_request s m")
    case None
    then show ?thesis using Cons assms(1) by auto
  next
    case (Some r)
    then obtain a where a: "find_attempt s (req_current_attempt r) = Some a"
      using Cons.prems(1) by (auto split: option.splits)
    define u where "u = apply_member_outcome m r (req_current_attempt r) a
      (failed_report e m (req_current_attempt r)) now s"
    have t: "fail_members e now ms u = Some t"
      using Cons.prems(1) Some a by (simp add: u_def failed_report_def)
    have "attempts_known u"
      unfolding u_def by (rule attempts_known_outcome [OF attempts_known_struct [OF Cons.prems(2)]])
    then have "grows u t" using fail_members_run [of u e now ms] t by auto
    then have "spare u" using Cons.prems(3) spare_grows by blast
    then have "struct_inv u" using keep_outcome [OF Cons.prems(2) Some] by (simp add: u_def)
    then show ?thesis
      using Cons.IH [OF t _ Cons.prems(3)] assms(2) [OF Cons.prems(2,4) Some] by (simp add: u_def)
  qed
qed simp

section \<open>Every call keeps the invariant\<close>

lemma att_complete:
  assumes "att_inv s" and str: "struct_inv s" and sp: "spare (snd (do_complete cmp now s))"
  shows "att_inv (snd (do_complete cmp now s))"
proof (cases "completion_current s cmp")
  case False
  then show ?thesis using complete_stale(2) [OF False, of now] assms(1) by (auto simp: att_prims)
next
  case True
  let ?u = "fold (complete_member (comp_batch cmp) now) (comp_members cmp) s"
  have "grows ?u (snd (do_complete cmp now s))" by (simp add: complete_current [OF True] grow)
  then have "spare ?u" using spare_grows [OF sp] by blast
  then have "struct_inv ?u \<and> att_inv ?u"
    using str assms(1) by (intro fold_spare_rule)
      (auto intro: att_complete_member keep_complete_member grow_complete_member)
  then show ?thesis by (simp add: complete_current [OF True] close_batch_def att_prims)
qed

lemma att_running_state: "att_inv s \<Longrightarrow> att_inv (running_state b ex now s)"
  by (simp add: running_state_def mark_running_def begin_dispatch_def mark_dispatched_def Let_def att)

lemma att_dispatch_run:
  assumes "att_inv s" and str: "struct_inv s" and "do_dispatch_and_run b ex now s = Some (res, t)" and sp: "spare t"
  shows "att_inv t"
  using assms(3)
proof (cases rule: dispatch_run_cases)
  case (failed e x)
  show ?thesis
    using fail_members_rule [where J = "\<lambda>_. att_inv", OF _ _ failed(3) keep_running_state [OF str failed(1,2)] sp]
      att_running_state [OF assms(1)] by (auto intro: att_outcome struct_attempt_free)
next
  case (completed x rs bx)
  then show ?thesis
    using att_complete [OF att_running_state [OF assms(1)] keep_running_state [OF str completed(1,2)]] sp by simp
qed (use assms(1) in simp)

lemma att_retry:
  assumes "att_inv s" and str: "struct_inv s" and "do_retry P i now s = Some (res, t)" and sp: "spare t"
  shows "att_inv t"
  using assms(3)
proof (cases rule: retry_cases)
  case (2 r num)
  have "struct_inv (snd (queue_retry i r num s))"
    by (rule keep_queue [OF str 2(1) spare_grows [OF sp grow_tick [OF 2(2)]]])
  then show ?thesis
    using att_tick [OF att_queue [OF assms(1) struct_attempt_free [OF str]] _ 2(2) sp] by simp
qed (use assms(1) in simp)

lemma att_prepare: "att_inv s \<Longrightarrow> att_inv (snd (do_prepare_dispatch b w boot now s))"
  by (simp add: do_prepare_dispatch_def mark_dispatched_def Let_def att split: option.split)

lemma att_call:
  assumes inv: "att_inv s" and str: "struct_inv s" and run: "run_call P c s = Some t" and sp: "spare t"
  shows "att_inv t"
proof (cases c)
  case (Call_merge a b reason now)
  then show ?thesis using run inv by (auto dest!: merge_state intro: att_prims att_merge)
next
  case (Call_retry i now)
  then show ?thesis using run sp by (auto dest!: retry_state intro!: att_prims att_retry [OF inv str])
next
  case (Call_tick now)
  then show ?thesis using run sp by (auto dest!: tick_state intro!: att_prims att_tick [OF inv str])
next
  case (Call_dispatch_and_run b ex now)
  then show ?thesis using run sp by (auto dest!: dispatch_state intro!: att_prims att_dispatch_run [OF inv str])
next
  case (Call_complete cmp now)
  then show ?thesis using run sp by (auto simp: complete_def intro!: att_prims att_complete [OF inv str])
qed (use run inv in \<open>auto simp: register_worker_def roll_epoch_def submit_def cancel_def seal_state split_state
    prepare_dispatch_def expire_def Let_def intro!: att_prims att_submit [OF _ str] att_cancel att_seal
      att_split att_prepare att_expire\<close>)

lemma att_init: "att_inv (Impl_init p clk sink)"
  by (simp add: att_defs Impl_init_def find_request_def)

lemma att_reachable: "reachable P ok p s \<Longrightarrow> att_inv s"
  by (erule reachable_invariant) (auto intro: att_init att_call)

end
