(* ===== verification/Place_Inv.thy ===== *)
theory Place_Inv
  imports Attempt_Inv Sched_Store Scenario_Wait
begin

text \<open>
  Where a request is. An eligible request is in the bucket of its key, a reserved, batched or
  dispatched one is a member of exactly one batch in the matching state, and no request is in two
  places. A handler takes a batch out of the account (the set \<open>B\<close>), rearranges its members (the set
  \<open>D\<close>, which need no place in the meantime) and puts it back. This theory holds the invariant
  \<open>placed B D\<close>, the assignments that move nothing, and the rules that take a batch or a request out
  and put it back.
\<close>

section \<open>Places\<close>

fun stage :: "RequestState \<Rightarrow> BatchState option" where
  "stage RS_reserved = Some BS_forming"
| "stage RS_batched = Some BS_sealed"
| "stage RS_dispatched = Some BS_dispatched"
| "stage _ = None"

definition live :: "BatchState \<Rightarrow> bool" where
  "live st \<longleftrightarrow> st = BS_forming \<or> st = BS_sealed \<or> st = BS_dispatched"

lemma live_simps [simp]:
  "live BS_forming" "live BS_sealed" "live BS_dispatched" "\<not> live BS_running" "\<not> live BS_superseded"
  "\<not> live BS_completed" "\<not> live BS_partially_completed"
  by (simp_all add: live_def)

lemma stage_live: "stage st = Some bs \<Longrightarrow> live bs"
  by (cases st) auto

definition settled :: "RequestState \<Rightarrow> bool" where
  "settled st \<longleftrightarrow> is_request_terminal st \<or> st = RS_waiting"

text \<open>The members of a live batch that is not taken out, and the requests in the waiting index.\<close>

definition cells :: "BatchId set \<Rightarrow> Impl \<Rightarrow> BatchId \<Rightarrow> RequestId list" where
  "cells B s b = (case find_batch s b of None \<Rightarrow> []
     | Some x \<Rightarrow> if b \<notin> B \<and> live (bat_state x) then bat_members x else [])"

definition queued :: "Impl \<Rightarrow> RequestId \<Rightarrow> bool" where
  "queued s i \<longleftrightarrow> (\<exists>k. i \<in> set (index_ids (im_waiting s) k))"

definition held :: "BatchId set \<Rightarrow> Impl \<Rightarrow> RequestId \<Rightarrow> bool" where
  "held B s i \<longleftrightarrow> (\<exists>b. i \<in> set (cells B s b))"

definition in_stage :: "BatchId set \<Rightarrow> Impl \<Rightarrow> RequestId \<Rightarrow> RequestState \<Rightarrow> bool" where
  "in_stage B s i st \<longleftrightarrow> (\<exists>b x. find_batch s b = Some x \<and> b \<notin> B \<and> i \<in> set (bat_members x) \<and>
     stage st = Some (bat_state x))"

definition has_home :: "BatchId set \<Rightarrow> Impl \<Rightarrow> RequestId \<Rightarrow> RequestState \<Rightarrow> bool" where
  "has_home B s i st \<longleftrightarrow> settled st \<or> st = RS_eligible \<and> queued s i \<or> in_stage B s i st"

definition homes :: "BatchId set \<Rightarrow> RequestId set \<Rightarrow> Impl \<Rightarrow> bool" where
  "homes B D s \<longleftrightarrow> (\<forall>i r. find_request s i = Some r \<longrightarrow> i \<notin> D \<longrightarrow> has_home B s i (req_state r))"

definition sole :: "BatchId set \<Rightarrow> Impl \<Rightarrow> bool" where
  "sole B s \<longleftrightarrow> (\<forall>b. distinct (cells B s b)) \<and>
     (\<forall>b c i. i \<in> set (cells B s b) \<longrightarrow> i \<in> set (cells B s c) \<longrightarrow> b = c) \<and>
     (\<forall>i. held B s i \<longrightarrow> \<not> queued s i)"

definition queue_ok :: "Impl \<Rightarrow> bool" where
  "queue_ok s \<longleftrightarrow> (\<forall>k. distinct (index_ids (im_waiting s) k) \<and>
     (\<forall>i \<in> set (index_ids (im_waiting s) k). \<exists>r. find_request s i = Some r \<and> req_key r = k \<and>
        req_state r = RS_eligible \<and> req_in_waiting r))"

definition lists_ok :: "BatchId set \<Rightarrow> Impl \<Rightarrow> bool" where
  "lists_ok B s \<longleftrightarrow> (\<forall>k b. map_of (im_forming s) k = Some b \<longrightarrow> b \<notin> B \<longrightarrow>
     (\<exists>x. find_batch s b = Some x \<and> bat_state x = BS_forming))"

definition placed :: "BatchId set \<Rightarrow> RequestId set \<Rightarrow> Impl \<Rightarrow> bool" where
  "placed B D s \<longleftrightarrow> homes B D s \<and> sole B s \<and> queue_ok s \<and> lists_ok B s"

section \<open>Consequences\<close>

lemma in_stage_held:
  assumes "in_stage B s i st"
  shows "held B s i"
proof -
  obtain b x where "find_batch s b = Some x" "b \<notin> B" "i \<in> set (bat_members x)" "stage st = Some (bat_state x)"
    using assms by (auto simp: in_stage_def)
  then have "i \<in> set (cells B s b)" using stage_live by (simp add: cells_def)
  then show ?thesis by (auto simp: held_def)
qed

lemma placed_home: "placed B D s \<Longrightarrow> find_request s i = Some r \<Longrightarrow> i \<notin> D \<Longrightarrow> has_home B s i (req_state r)"
  by (auto simp: placed_def homes_def)

lemma placed_sole: "placed B D s \<Longrightarrow> i \<in> set (cells B s b) \<Longrightarrow> i \<in> set (cells B s c) \<Longrightarrow> b = c"
  by (auto simp: placed_def sole_def)

lemma placed_distinct: "placed B D s \<Longrightarrow> distinct (cells B s b)"
  by (auto simp: placed_def sole_def)

lemma placed_apart: "placed B D s \<Longrightarrow> held B s i \<Longrightarrow> \<not> queued s i"
  by (auto simp: placed_def sole_def)

lemma placed_queued: "placed B D s \<Longrightarrow> i \<in> set (index_ids (im_waiting s) k) \<Longrightarrow>
    \<exists>r. find_request s i = Some r \<and> req_key r = k \<and> req_state r = RS_eligible \<and> req_in_waiting r"
  by (auto simp: placed_def queue_ok_def)

lemma placed_queued_state: "placed B D s \<Longrightarrow> queued s i \<Longrightarrow> find_request s i = Some r \<Longrightarrow>
    req_state r = RS_eligible \<and> req_in_waiting r \<and> i \<in> set (index_ids (im_waiting s) (req_key r))"
  using placed_queued by (fastforce simp: queued_def)

lemma placed_forming: "placed B D s \<Longrightarrow> map_of (im_forming s) k = Some b \<Longrightarrow> b \<notin> B \<Longrightarrow>
    \<exists>x. find_batch s b = Some x \<and> bat_state x = BS_forming"
  by (auto simp: placed_def lists_ok_def)

lemma cells_held: "i \<in> set (cells B s b) \<Longrightarrow> held B s i"
  by (auto simp: held_def)

lemma cells_members: "find_batch s b = Some x \<Longrightarrow> b \<notin> B \<Longrightarrow> live (bat_state x) \<Longrightarrow> cells B s b = bat_members x"
  by (simp add: cells_def)

lemma members_not_queued: "placed B D s \<Longrightarrow> find_batch s b = Some x \<Longrightarrow> b \<notin> B \<Longrightarrow> live (bat_state x) \<Longrightarrow>
    i \<in> set (bat_members x) \<Longrightarrow> \<not> queued s i"
  using placed_apart cells_held cells_members by metis

text \<open>More batches out of the account, more requests without a place: weaker.\<close>

lemma placed_more: "placed B D s \<Longrightarrow> D \<subseteq> D' \<Longrightarrow> placed B D' s"
  by (auto simp: placed_def homes_def)

text \<open>A place stays one.\<close>

lemma home_mono:
  assumes "has_home B s i st" and "queued s i \<Longrightarrow> queued t i"
    and "\<And>b x. find_batch s b = Some x \<Longrightarrow> b \<notin> B \<Longrightarrow> i \<in> set (bat_members x) \<Longrightarrow> live (bat_state x) \<Longrightarrow>
      \<exists>c y. find_batch t c = Some y \<and> c \<notin> B' \<and> i \<in> set (bat_members y) \<and> bat_state y = bat_state x"
  shows "has_home B' t i st"
proof -
  have "in_stage B' t i st" if st: "in_stage B s i st"
  proof -
    obtain b x where b: "find_batch s b = Some x" "b \<notin> B" "i \<in> set (bat_members x)" "stage st = Some (bat_state x)"
      using st unfolding in_stage_def by blast
    with assms(3) [OF b(1-3) stage_live [OF b(4)]] show ?thesis unfolding in_stage_def by metis
  qed
  with assms(1,2) show ?thesis by (auto simp: has_home_def)
qed

lemma homes_mono:
  assumes "homes B D s" and "D \<subseteq> D'"
    and r: "\<And>i r. find_request t i = Some r \<Longrightarrow> i \<notin> D' \<Longrightarrow>
      (\<exists>z. find_request s i = Some z \<and> req_state z = req_state r) \<and> (queued s i \<longrightarrow> queued t i)"
    and b: "\<And>i b x. i \<notin> D' \<Longrightarrow> find_batch s b = Some x \<Longrightarrow> b \<notin> B \<Longrightarrow> i \<in> set (bat_members x) \<Longrightarrow> live (bat_state x) \<Longrightarrow>
      \<exists>c y. find_batch t c = Some y \<and> c \<notin> B' \<and> i \<in> set (bat_members y) \<and> bat_state y = bat_state x"
  shows "homes B' D' t"
  unfolding homes_def
proof (intro allI impI)
  fix i r
  assume ri: "find_request t i = Some r" "i \<notin> D'"
  then obtain z where z: "find_request s i = Some z" "req_state z = req_state r" "queued s i \<longrightarrow> queued t i"
    using assms(3) by blast
  have "has_home B s i (req_state z)" using assms(1,2) z(1) ri(2) by (auto simp: homes_def)
  then show "has_home B' t i (req_state r)"
    unfolding z(2) by (rule home_mono) (use z(3) b [OF ri(2)] in blast)+
qed

lemma homes_same:
  assumes "homes B D s" and "D \<subseteq> D'" and "find_batch t = find_batch s"
    and r: "\<And>i r. find_request t i = Some r \<Longrightarrow> i \<notin> D' \<Longrightarrow>
      (\<exists>z. find_request s i = Some z \<and> req_state z = req_state r) \<and> (queued s i \<longrightarrow> queued t i)"
  shows "homes B D' t"
  by (rule homes_mono [OF assms(1,2) r]) (auto simp: assms(3))

lemma placed_homes: "placed B D s \<Longrightarrow> homes B D s"
  by (simp add: placed_def)

text \<open>Requests that have a place again.\<close>

lemma placed_settle:
  assumes "placed B D s" and "\<And>i r. i \<in> D \<Longrightarrow> i \<notin> D' \<Longrightarrow> find_request s i = Some r \<Longrightarrow> has_home B s i (req_state r)"
  shows "placed B D' s"
  using assms unfolding placed_def homes_def by blast

section \<open>Assignments that move nothing\<close>

definition same_home :: "RequestRec \<Rightarrow> RequestRec \<Rightarrow> bool" where
  "same_home r r' \<longleftrightarrow> req_state r' = req_state r \<and> req_key r' = req_key r \<and> req_in_waiting r' = req_in_waiting r"

lemma placed_frame:
  assumes p: "placed B D s" and q: "im_waiting t = im_waiting s" and f: "im_forming t = im_forming s"
    and r: "\<And>i. rel_option same_home (find_request s i) (find_request t i)"
    and b: "\<And>b. b \<notin> B \<Longrightarrow> rel_option (\<lambda>x y. bat_state y = bat_state x \<and> bat_members y = bat_members x)
      (find_batch s b) (find_batch t b)"
  shows "placed B D t"
proof -
  have req: "\<exists>z. find_request t i = Some z \<and> same_home r z" if "find_request s i = Some r" for i r
    using assms(4) [of i] that by (auto simp: option_rel_Some1)
  have req': "\<exists>z. find_request s i = Some z \<and> same_home z r" if "find_request t i = Some r" for i r
    using assms(4) [of i] that by (auto simp: option_rel_Some2)
  have bat: "\<exists>y. find_batch t b = Some y \<and> bat_state y = bat_state x \<and> bat_members y = bat_members x"
    if "find_batch s b = Some x" "b \<notin> B" for b x
    using b [OF that(2)] that(1) by (auto simp: option_rel_Some1)
  have cells: "cells B t b = cells B s b" for b
    using b [of b] by (cases "find_batch s b"; cases "find_batch t b"; cases "b \<in> B") (auto simp: cells_def)
  have queued: "queued t = queued s" by (simp add: queued_def fun_eq_iff q)
  have "homes B D t" unfolding homes_def
  proof (intro allI impI)
    fix i z
    assume "find_request t i = Some z" "i \<notin> D"
    then obtain r where "find_request s i = Some r" "req_state z = req_state r" "has_home B s i (req_state r)"
      using req' placed_home [OF p] by (force simp: same_home_def)
    then show "has_home B t i (req_state z)"
      using bat by (intro home_mono [of B s i "req_state z" t B]) (simp_all add: queued, metis)
  qed
  moreover have "sole B t" using p by (simp add: placed_def sole_def held_def cells queued)
  moreover have "queue_ok t" unfolding queue_ok_def q
  proof (intro allI conjI ballI)
    show "distinct (index_ids (im_waiting s) k)" for k using p by (simp add: placed_def queue_ok_def)
    fix k i
    assume "i \<in> set (index_ids (im_waiting s) k)"
    then obtain r where "find_request s i = Some r" "req_key r = k" "req_state r = RS_eligible" "req_in_waiting r"
      using placed_queued [OF p] by blast
    with req show "\<exists>r. find_request t i = Some r \<and> req_key r = k \<and> req_state r = RS_eligible \<and> req_in_waiting r"
      by (force simp: same_home_def)
  qed
  moreover have "lists_ok B t"
    unfolding lists_ok_def f using placed_forming [OF p] bat by force
  ultimately show ?thesis by (simp add: placed_def)
qed

named_theorems place \<comment> \<open>assignments that move no request\<close>

lemma same_home_refl [simp]: "same_home r r"
  by (simp add: same_home_def)

lemma place_prims [place]:
  assumes "placed B D s"
  shows "placed B D (upd_attempt a h s)" "placed B D (put_attempt a y s)" "placed B D (inc ff s)"
    "placed B D (emit ty rr bb aa tn d s)" "placed B D (flush s)" "placed B D (set_fairness q s)"
    "placed B D (dec_forming_now s)" "placed B D (s\<lparr>im_next_request := n\<rparr>)"
    "placed B D (s\<lparr>im_next_batch := n\<rparr>)" "placed B D (s\<lparr>im_next_attempt := n\<rparr>)"
    "placed B D (s\<lparr>im_next_generation := n\<rparr>)" "placed B D (s\<lparr>im_sealed_order := ord\<rparr>)"
    "placed B D (s\<lparr>im_stats := st\<rparr>)" "placed B D (s\<lparr>im_workers := ws\<rparr>)" "placed B D (s\<lparr>im_epoch := ep\<rparr>)"
    "placed B D (s\<lparr>im_clock_now := clk\<rparr>)"
  by (rule placed_frame [OF assms], simp_all add: option.rel_refl)+

lemma place_upd_request [place]:
  "placed B D s \<Longrightarrow> (\<And>r. same_home r (f r)) \<Longrightarrow> placed B D (upd_request i f s)"
  by (erule placed_frame) (simp_all add: option.rel_refl option.rel_map)

lemma place_upd_requests:
  "placed B D s \<Longrightarrow> (\<And>r. same_home r (f r)) \<Longrightarrow> placed B D (upd_requests ms f s)"
  unfolding upd_requests_def by (rule fold_invariant_on [where P = "placed B D"]) (simp_all add: place_upd_request)

lemma place_assign [place]: "placed B D s \<Longrightarrow> placed B D (assign_batch b ms s)"
  unfolding assign_batch_def by (rule place_upd_requests) (simp_all add: same_home_def)

lemma place_upd_batch [place]:
  "placed B D s \<Longrightarrow> (\<And>x. bat_state (f x) = bat_state x \<and> bat_members (f x) = bat_members x) \<Longrightarrow>
     placed B D (upd_batch b f s)"
  by (erule placed_frame) (simp_all add: option.rel_refl option.rel_map)

lemma place_recompute [place]: "placed B D s \<Longrightarrow> placed B D (recompute b s)"
  unfolding recompute_def by (rule place_upd_batch) simp_all

text \<open>A batch that is out of the account may change in any way.\<close>

lemma place_out:
  assumes "placed B D s" and "b \<in> B"
  shows "placed B D (upd_batch b f s)" "placed B D (put_batch b x s)" "placed B D (set_forming k b s)"
proof -
  show "placed B D (upd_batch b f s)" "placed B D (put_batch b x s)"
    by (rule placed_frame [OF assms(1)], use assms(2) in \<open>auto simp: option.rel_refl\<close>)+
  have "homes B D (set_forming k b s)" "sole B (set_forming k b s)" "queue_ok (set_forming k b s)"
    using assms(1) by (simp_all add: placed_def homes_def sole_def queue_ok_def has_home_def in_stage_def
        held_def cells_def queued_def)
  then show "placed B D (set_forming k b s)"
    using assms by (auto simp: placed_def lists_ok_def map_of_std_insert)
qed

section \<open>Out of the account and back\<close>

lemma cells_insert: "cells (insert b B) s c = (if c = b then [] else cells B s c)"
  by (auto simp: cells_def split: option.split)

lemma held_insert: "held (insert b B) s i \<Longrightarrow> held B s i"
  by (auto simp: held_def cells_insert split: if_splits)

lemma held_split: "held B s i \<Longrightarrow> i \<in> set (cells B s b) \<or> held (insert b B) s i"
  by (auto simp: held_def cells_insert)

lemma place_open:
  assumes p: "placed B D s" and x: "\<And>x. find_batch s b = Some x \<Longrightarrow> set (bat_members x) \<subseteq> D' " and "D \<subseteq> D'"
  shows "placed (insert b B) D' s"
proof -
  have "homes (insert b B) D' s"
    using x by (intro homes_mono [OF placed_homes [OF p] assms(3)]) (blast, metis insertE subsetD)
  moreover have "sole (insert b B) s"
    using p held_insert unfolding placed_def sole_def cells_insert by (auto split: if_splits)
  ultimately show ?thesis using p by (simp add: placed_def lists_ok_def)
qed

lemma place_close:
  assumes p: "placed (insert b B) D s"
    and list: "(\<exists>x. find_batch s b = Some x \<and> bat_state x = BS_forming) \<or> (\<forall>k. map_of (im_forming s) k \<noteq> Some b)"
    and x: "distinct (cells B s b)" "\<And>i. i \<in> set (cells B s b) \<Longrightarrow> \<not> held (insert b B) s i \<and> \<not> queued s i"
  shows "placed B D s"
proof -
  have "homes B D s"
    by (rule homes_mono [OF placed_homes [OF p]]) auto
  moreover have "sole B s" unfolding sole_def
  proof (intro conjI allI impI)
    fix c
    show "distinct (cells B s c)"
      using x(1) placed_distinct [OF p, of c] by (cases "c = b") (simp_all add: cells_insert)
    fix d i
    assume i: "i \<in> set (cells B s c)" "i \<in> set (cells B s d)"
    show "c = d"
    proof (cases "c = b \<or> d = b")
      case True
      then show ?thesis using i x(2) unfolding held_def cells_insert by (metis (full_types) list.set(1) empty_iff)
    next
      case False
      then show ?thesis using i placed_sole [OF p, of i c d] by (simp add: cells_insert)
    qed
  next
    fix i
    assume "held B s i"
    then show "\<not> queued s i" using held_split [of B s i b] x(2) placed_apart [OF p] by blast
  qed
  moreover have "lists_ok B s" unfolding lists_ok_def
  proof (intro allI impI)
    fix k c
    assume "map_of (im_forming s) k = Some c" "c \<notin> B"
    then show "\<exists>x. find_batch s c = Some x \<and> bat_state x = BS_forming"
      using placed_forming [OF p, of k c] list by (cases "c = b") auto
  qed
  ultimately show ?thesis using p by (simp add: placed_def)
qed

lemma place_close_dead:
  assumes "placed (insert b B) D s" and "\<And>x. find_batch s b = Some x \<Longrightarrow> \<not> live (bat_state x)"
    and "\<And>k. map_of (im_forming s) k \<noteq> Some b"
  shows "placed B D s"
proof (rule place_close [OF assms(1)])
  have "cells B s b = []" using assms(2) by (simp add: cells_def split: option.split)
  then show "distinct (cells B s b)" "\<And>i. i \<in> set (cells B s b) \<Longrightarrow> \<not> held (insert b B) s i \<and> \<not> queued s i"
    by simp_all
qed (use assms(3) in auto)

section \<open>Requests and the waiting index\<close>

lemma find_only_upd [simp]:
  "cells B (upd_request i f s) = cells B s" "held B (upd_request i f s) = held B s"
  "queued (upd_request i f s) = queued s"
  by (simp_all add: cells_def held_def queued_def fun_eq_iff)

lemma place_move_request:
  assumes p: "placed B D s" and "\<not> queued s i"
  shows "placed B (insert i D) (upd_request i f s)"
proof -
  have "homes B (insert i D) (upd_request i f s)"
    by (rule homes_same [OF placed_homes [OF p]]) auto
  moreover have "queue_ok (upd_request i f s)" unfolding queue_ok_def
  proof (intro allI conjI ballI)
    show "distinct (index_ids (im_waiting (upd_request i f s)) k)" for k
      using p by (simp add: placed_def queue_ok_def)
    fix k j
    assume j: "j \<in> set (index_ids (im_waiting (upd_request i f s)) k)"
    then have "j \<noteq> i" using assms(2) by (auto simp: queued_def)
    then show "\<exists>r. find_request (upd_request i f s) j = Some r \<and> req_key r = k \<and> req_state r = RS_eligible \<and> req_in_waiting r"
      using placed_queued [OF p, of j k] j by auto
  qed
  moreover have "sole B (upd_request i f s)" using p by (simp add: placed_def sole_def)
  ultimately show ?thesis using p by (simp add: placed_def lists_ok_def)
qed

lemma queued_loops [simp]:
  "queued (upd_requests ms f s) = queued s" "held B (upd_requests ms f s) = held B s"
  by (simp_all add: queued_def held_def cells_def fun_eq_iff)

lemma place_move_requests:
  assumes "placed B D s" and "\<forall>m \<in> set ms. \<not> queued s m" and "set ms \<subseteq> D"
  shows "placed B D (upd_requests ms f s)"
  using assms unfolding upd_requests_def
proof (induction ms arbitrary: s)
  case (Cons m ms)
  then have "placed B D (upd_request m f s)"
    using place_move_request [of B D s m f] by (simp add: insert_absorb)
  then show ?case using Cons by simp
qed simp

text \<open>A request that is not queued and gets a final state needs no place.\<close>

lemma place_end_request:
  assumes "placed B D s" and "\<not> queued s i" and "\<And>r. settled (req_state (f r))"
  shows "placed B D (upd_request i f s)"
  by (rule placed_settle [OF place_move_request [OF assms(1,2)]])
    (auto simp: has_home_def assms(3) split: if_splits)

lemma queued_set_waiting: "queued (set_waiting g s) i \<longleftrightarrow> (\<exists>k. i \<in> set (index_ids (g (im_waiting s)) k))"
  by (simp add: queued_def)

lemma ids_index_remove: "index_ids (index_remove k i ix) k' = (if k' = k then remove1 i (index_ids ix k) else index_ids ix k')"
  by (rule ids_remove_index)

lemma waiting_frame [simp]:
  "cells B (set_waiting g s) = cells B s" "held B (set_waiting g s) = held B s"
  "in_stage B (set_waiting g s) = in_stage B s"
  by (simp_all add: cells_def held_def in_stage_def fun_eq_iff)

lemma place_index_remove:
  assumes p: "placed B D s"
  shows "placed B (insert i D) (set_waiting (index_remove k i) s)"
    and "find_request s i = Some r \<Longrightarrow> req_key r = k \<Longrightarrow> \<not> queued (set_waiting (index_remove k i) s) i"
proof -
  let ?t = "set_waiting (index_remove k i) s"
  have dist: "distinct (index_ids (im_waiting s) k')" for k' using p by (simp add: placed_def queue_ok_def)
  have ids: "j \<in> set (index_ids (im_waiting ?t) k') \<longleftrightarrow>
      j \<in> set (index_ids (im_waiting s) k') \<and> (k' = k \<longrightarrow> j \<noteq> i)" for j k'
    by (auto simp: ids_index_remove dist)
  have q: "queued ?t j \<Longrightarrow> queued s j" for j unfolding queued_def ids by blast
  have q': "j \<noteq> i \<Longrightarrow> queued s j \<Longrightarrow> queued ?t j" for j unfolding queued_def ids by blast
  have "homes B (insert i D) ?t"
    using q' by (intro homes_same [OF placed_homes [OF p]]) auto
  moreover have "sole B ?t" using p q by (auto simp: placed_def sole_def)
  moreover have "queue_ok ?t"
    using p unfolding placed_def queue_ok_def ids Ball_def by (simp add: ids_index_remove)
  ultimately show "placed B (insert i D) ?t" using p by (simp add: placed_def lists_ok_def)
  assume "find_request s i = Some r" "req_key r = k"
  then show "\<not> queued ?t i" using placed_queued [OF p, of i] unfolding queued_def ids by force
qed

lemma place_index_add:
  assumes p: "placed B D s" and r: "find_request s i = Some r" "req_state r = RS_eligible" "req_in_waiting r"
    and "k = req_key r" and free: "\<not> queued s i" "\<not> held B s i"
  shows "placed B (D - {i}) (set_waiting (index_add k i) s)"
proof -
  let ?t = "set_waiting (index_add k i) s"
  have ids: "index_ids (im_waiting ?t) k' = (if k' = k then index_ids (im_waiting s) k @ [i] else index_ids (im_waiting s) k')" for k'
    by (simp add: index_ids_def bucket_add)
  have q: "queued ?t j \<longleftrightarrow> queued s j \<or> j = i" for j unfolding queued_def ids by auto
  have "homes B (insert i D) ?t"
    by (rule homes_same [OF placed_homes [OF p]]) (auto simp: q)
  moreover have "has_home B ?t i RS_eligible" by (simp add: has_home_def q)
  moreover have "find_request ?t = find_request s" by simp
  ultimately have "homes B (D - {i}) ?t"
    using r(1,2) unfolding homes_def by (metis Diff_iff insertE option.inject singletonD)
  moreover have "sole B ?t" using p free by (auto simp: placed_def sole_def q)
  moreover have "queue_ok ?t"
    using p r assms(5) free(1) unfolding placed_def queue_ok_def ids queued_def by (auto split: if_splits)
  ultimately show ?thesis using p by (simp add: placed_def lists_ok_def)
qed

text \<open>A new request.\<close>

lemma place_put_request:
  assumes p: "placed B D s" and "find_request s i = None"
  shows "placed B (insert i D) (put_request i r s)" and "\<not> queued (put_request i r s) i"
proof -
  have q: "queued (put_request i r s) = queued s" "cells B (put_request i r s) = cells B s"
    by (simp_all add: queued_def cells_def fun_eq_iff)
  show "\<not> queued (put_request i r s) i"
    using placed_queued [OF p, of i] assms(2) unfolding q by (auto simp: queued_def)
  have "homes B (insert i D) (put_request i r s)"
    by (rule homes_same [OF placed_homes [OF p]]) (auto simp: q)
  moreover have "queue_ok (put_request i r s)"
    using p assms(2) by (fastforce simp: placed_def queue_ok_def)
  moreover have "sole B (put_request i r s)" using p by (simp add: placed_def sole_def held_def q)
  ultimately show "placed B (insert i D) (put_request i r s)" using p by (simp add: placed_def lists_ok_def)
qed

end
