(* ===== verification/Place_Form.thy ===== *)
theory Place_Form
  imports Place_Inv
begin

text \<open>
  The handlers that fill, form, seal, cancel and expire keep \<open>placed\<close>: a submitted request enters the
  bucket of its key, the former moves it from there into the forming batch, sealing turns the batch
  and its members together, and a cancelled request leaves its place for good.
\<close>

section \<open>Submission\<close>

lemma cells_frame [simp]:
  "cells B (put_request i r s) = cells B s" "cells B (put_attempt a y s) = cells B s"
  "cells B (upd_attempt a h s) = cells B s" "cells B (inc ff s) = cells B s"
  "cells B (emit ty rr bb aa tn d s) = cells B s" "cells B (set_fairness q s) = cells B s"
  "cells B (s\<lparr>im_next_request := n\<rparr>) = cells B s" "cells B (s\<lparr>im_next_attempt := n\<rparr>) = cells B s"
  "cells B (s\<lparr>im_next_request := n, im_next_attempt := m\<rparr>) = cells B s"
  "cells B (s\<lparr>im_stats := st\<rparr>) = cells B s"
  by (simp_all add: cells_def fun_eq_iff)

lemma held_frame [simp]:
  "held B (put_request i r s) = held B s" "held B (put_attempt a y s) = held B s"
  "held B (upd_attempt a h s) = held B s" "held B (inc ff s) = held B s"
  "held B (emit ty rr bb aa tn d s) = held B s" "held B (set_fairness q s) = held B s"
  "held B (s\<lparr>im_next_request := n\<rparr>) = held B s" "held B (s\<lparr>im_next_attempt := n\<rparr>) = held B s"
  "held B (s\<lparr>im_next_request := n, im_next_attempt := m\<rparr>) = held B s"
  "held B (s\<lparr>im_stats := st\<rparr>) = held B s"
  by (simp_all add: held_def fun_eq_iff)

lemma queued_frame [simp]:
  "queued (put_request i r s) = queued s" "queued (put_attempt a y s) = queued s"
  "queued (upd_attempt a h s) = queued s" "queued (inc ff s) = queued s"
  "queued (emit ty rr bb aa tn d s) = queued s" "queued (set_fairness q s) = queued s"
  "queued (upd_batch b g s) = queued s" "queued (put_batch b x s) = queued s"
  "queued (s\<lparr>im_next_request := n\<rparr>) = queued s" "queued (s\<lparr>im_next_attempt := n\<rparr>) = queued s"
  "queued (s\<lparr>im_next_request := n, im_next_attempt := m\<rparr>) = queued s"
  "queued (s\<lparr>im_stats := st\<rparr>) = queued s" "queued (recompute b s) = queued s"
  by (simp_all add: queued_def fun_eq_iff)

lemma unknown_not_held: "struct_inv s \<Longrightarrow> find_request s i = None \<Longrightarrow> \<not> held B s i"
  by (auto simp: held_def cells_def split: option.splits if_splits)
    (metis has_key_def option.distinct(1) struct_members)

lemma place_submit:
  assumes p: "placed {} {} s" and str: "struct_inv s"
  shows "placed {} {} (snd (do_submit meta now s))"
proof -
  let ?i = "Id (im_next_request s)" and ?a = "Id (im_next_attempt s)"
  let ?s = "s\<lparr>im_next_request := im_next_request s + 1, im_next_attempt := im_next_attempt s + 1\<rparr>"
  have new: "find_request ?s ?i = None" using struct_fresh_request [OF str] by simp
  have s: "placed {} {} ?s" using place_prims(10) [OF place_prims(8) [OF p]] by simp
  have free: "\<not> held {} s ?i" using unknown_not_held [OF str] struct_fresh_request [OF str] by blast
  have in_t: "placed {} {?i} (put_attempt ?a a (put_request ?i r ?s))"
    "\<not> queued s ?i" for a r
    using place_put_request [OF s new, of r] by (auto intro: place_prims)
  have ends: "placed {} {} (put_attempt ?a a (put_request ?i r ?s))" if "settled (req_state r)" for a r
    by (rule placed_settle [OF in_t(1)]) (use that in \<open>auto simp: has_home_def\<close>)
  have add: "placed {} {} (set_waiting (index_add k ?i) (put_attempt ?a a (put_request ?i r ?s)))"
    if "req_state r = RS_eligible" "req_in_waiting r" "k = req_key r" for a r k
    using place_index_add [OF in_t(1), where i = ?i and r = r and k = k] that in_t(2) free by simp
  show ?thesis
    using p by (auto simp: do_submit_def nr_def na_def Let_def settled_def intro!: place_prims ends add)
qed

section \<open>Filling\<close>

lemma set_waiting_add_member:
  "set_waiting w (add_member_to_batch b i s) = add_member_to_batch b i (set_waiting w s)"
proof -
  have "set_waiting w (upd_batch b (join_batch i r) s) = upd_batch b (join_batch i r) (set_waiting w s)" for r
    by (simp add: set_waiting_def upd_batch_def)
  moreover have "set_waiting w (upd_request i f t) = upd_request i f (set_waiting w t)" for f t
    by (simp add: set_waiting_def upd_request_def)
  moreover have "set_waiting w (set_fairness q t) = set_fairness q (set_waiting w t)" for q t
    by (simp add: set_waiting_def set_fairness_def)
  moreover have "set_waiting w (inc q t) = inc q (set_waiting w t)" for q t
    by (simp add: set_waiting_def inc_def)
  moreover have "set_waiting w (emit ty rr bb aa tn d t) = emit ty rr bb aa tn d (set_waiting w t)" for ty rr bb aa tn d t
    by (simp add: set_waiting_def emit_def)
  moreover have "at_batch (set_waiting w s) b = at_batch s b" by (simp add: at_batch_def)
  ultimately show ?thesis by (simp add: add_member_to_batch_def split: option.split)
qed

lemma place_join:
  assumes p: "placed {} {} s" and x: "find_batch s b = Some x" "bat_state x = BS_forming"
    and r: "find_request s i = Some r" "i \<in> set (index_ids (im_waiting s) k)"
  shows "placed {} {} (set_waiting (index_remove k i) (add_member_to_batch b i s))"
proof -
  let ?s = "set_waiting (index_remove k i) s"
  let ?t = "upd_request i (\<lambda>r. r\<lparr>req_state := RS_reserved, req_batch := bat_id (at_batch ?s b),
    req_in_waiting := False\<rparr>) (upd_batch b (join_batch i r) ?s)"
  have "req_key r = k" using placed_queued [OF p r(2)] r(1) by auto
  then have s: "placed {} {i} ?s" "\<not> queued ?s i" using place_index_remove [OF p] r(1) by auto
  have "queued s i" using r(2) by (auto simp: queued_def)
  then have free: "\<not> held {} s i" using placed_apart [OF p] by blast
  have mem: "cells {} s b = bat_members x" using x by (simp add: cells_members)
  have not_in: "i \<notin> set (bat_members x)" using free mem cells_held by metis
  let ?D = "insert i (set (bat_members x))"
  have "placed {b} ?D ?s" by (rule place_open [OF s(1)]) (use x in auto)
  then have "placed {b} ?D (upd_batch b (join_batch i r) ?s)" by (rule place_out) simp
  then have out: "placed {b} ?D ?t"
    using place_move_request [of "{b}" ?D _ i] s(2) by (simp add: insert_absorb)
  have tb: "find_batch ?t c = (if c = b then Some (join_batch i r x) else find_batch s c)" for c
    using x by simp
  have cells: "cells {} ?t b = bat_members x @ [i]" by (simp add: cells_def x)
  have others: "\<not> held {b} ?t j" if "j \<in> set (bat_members x @ [i])" for j
  proof -
    have "cells {b} ?t c = cells {b} s c" for c by (simp add: cells_def tb x)
    moreover have "\<not> held {b} s j"
      using that free held_insert [of b "{}" s i] placed_sole [OF p, of j b] mem
      by (auto simp: held_def cells_insert split: if_splits)
    ultimately show ?thesis by (simp add: held_def)
  qed
  have "placed {} ?D ?t"
  proof (rule place_close [OF out])
    show "distinct (cells {} ?t b)" 
      using placed_distinct [OF p, of b] not_in unfolding cells mem by simp
    show "\<not> held (insert b {}) ?t j \<and> \<not> queued ?t j" if "j \<in> set (cells {} ?t b)" for j
      using that others s(2) members_not_queued [OF p x(1)] x(2) \<open>\<not> queued ?s i\<close> mem
        place_index_remove(1) [OF p, of i k] unfolding cells
      by (auto simp: queued_set_waiting ids_index_remove dest: notin_set_remove1 split: if_splits)
        (auto simp: queued_def)
  qed (use x in simp)
  then have "placed {} {} ?t"
  proof (rule placed_settle)
    fix j z
    assume j: "j \<in> ?D" and z: "find_request ?t j = Some z"
    show "has_home {} ?t j (req_state z)"
    proof (cases "j = i")
      case True
      then have "in_stage {} ?t i (req_state z)" using z r(1) by (auto simp: in_stage_def tb x)
      then show ?thesis using True by (simp add: has_home_def)
    next
      case False
      then have "find_request s j = Some z" using z by simp
      then have "has_home {} s j (req_state z)" using placed_home [OF p] by blast
      then show ?thesis
      proof (rule home_mono)
        show "queued s j \<Longrightarrow> queued ?t j" using False j members_not_queued [OF p x(1)] x(2) by auto
        show "\<exists>c y. find_batch ?t c = Some y \<and> c \<notin> {} \<and> j \<in> set (bat_members y) \<and> bat_state y = bat_state w"
          if "find_batch s c = Some w" "j \<in> set (bat_members w)" for c w
          using that x by (auto simp: tb intro!: exI [of _ c])
      qed
    qed
  qed
  then show ?thesis unfolding set_waiting_add_member
    by (simp add: add_member_to_batch_def r(1) place_prims)
qed

lemma place_fill:
  assumes p: "placed {} {} s" and x: "find_batch s b = Some x" "bat_state x = BS_forming"
  shows "placed {} {} (fill_forming P b k now s)"
proof -
  have "placed {} {} (fill_loop P b k now cs s)"
    if "\<forall>i \<in> set cs. i \<in> set (index_ids (im_waiting s) k)" "distinct cs" for cs
  proof (rule fill_loop_rule [where I = "\<lambda>cs t. placed {} {} t \<and> (\<exists>y. find_batch t b = Some y \<and>
      bat_state y = BS_forming) \<and> (\<forall>i \<in> set cs. i \<in> set (index_ids (im_waiting t) k))"])
    fix cs t i r
    assume I: "placed {} {} t \<and> (\<exists>y. find_batch t b = Some y \<and> bat_state y = BS_forming) \<and>
        (\<forall>i \<in> set cs. i \<in> set (index_ids (im_waiting t) k))"
      and i: "i \<in> set cs" "find_request t i = Some r"
    then obtain y where y: "find_batch t b = Some y" "bat_state y = BS_forming" by blast
    have "placed {} {} (set_waiting (index_remove k i) (add_member_to_batch b i t))"
      using I i by (intro place_join [OF _ y i(2)]) auto
    then show "placed {} {} (set_waiting (index_remove k i) (add_member_to_batch b i t)) \<and>
        (\<exists>y. find_batch (set_waiting (index_remove k i) (add_member_to_batch b i t)) b = Some y \<and>
          bat_state y = BS_forming) \<and>
        (\<forall>j \<in> set (removeAll i cs). j \<in> set (index_ids (im_waiting (set_waiting (index_remove k i)
          (add_member_to_batch b i t))) k))"
      using I y i by (auto simp: find_add_member ids_index_remove)
  qed (use p x that in auto)
  moreover have "\<forall>i \<in> set v. i \<in> set (index_ids (im_waiting s) k)" "distinct v"
    if "index_bucket (im_waiting s) k = Some v" for v
    using p that unfolding placed_def queue_ok_def index_ids_def by (auto, metis option.simps(5))
  ultimately show ?thesis using p by (simp add: fill_forming_def split: option.split)
qed

section \<open>Formation and sealing\<close>

lemma place_make_forming:
  assumes p: "placed {} {} s" and str: "struct_inv s"
  shows "placed {} {} (make_forming P k now s)"
proof -
  let ?b = "Id (im_next_batch s)"
  let ?s = "s\<lparr>im_next_batch := im_next_batch s + 1, im_next_generation := im_next_generation s + 1\<rparr>"
  define x where "x = forming_record ?b (Id (im_next_generation s)) k now ?s"
  have new: "find_batch s ?b = None" by (rule struct_fresh_batch [OF str])
  have x: "bat_members x = []" "bat_state x = BS_forming" using new by (simp_all add: x_def)
  have "placed {} {} ?s" using place_prims(11) [OF place_prims(9) [OF p]] by simp
  then have "placed {?b} {} ?s" by (rule place_open) (use new in auto)
  then have out: "placed {?b} {} (set_forming k ?b (put_batch ?b x ?s))" by (intro place_out) auto
  have "placed {} {} (set_forming k ?b (put_batch ?b x ?s))"
    by (rule place_close [OF out]) (simp_all add: x cells_def)
  then have t: "placed {} {} (inc st_forming_now_update (set_forming k ?b (put_batch ?b x ?s)))" by (rule place)
  have "placed {} {} (fill_forming P ?b k now (inc st_forming_now_update (set_forming k ?b (put_batch ?b x ?s))))"
    by (rule place_fill [OF t]) (auto simp: x)
  then show ?thesis
    by (simp add: make_forming_def open_forming_def settle_forming_def nb_def ng_def Let_def x_def place)
qed

text \<open>The members of a batch move on together with it.\<close>

lemma place_advance_batch:
  assumes p: "placed {} {} s" and x: "find_batch s b = Some x" "live (bat_state x)"
    and st: "stage st = Some (bat_state x)" "stage st' = Some bs'" "bs' \<noteq> BS_forming"
    and f: "\<And>x. bat_members (f x) = bat_members x \<and> bat_state (f x) = bs'"
    and ms: "ms = bat_members x"
    and forming: "\<And>k c. map_of (im_forming t) k = Some c \<Longrightarrow> c \<noteq> b \<and> map_of (im_forming s) k = Some c"
    and t: "find_request t = find_request (advance_members st st' ms s)"
      "find_batch t = find_batch (upd_batch b f s)" "im_waiting t = im_waiting s"
  shows "placed {} {} t"
proof -
  let ?u = "upd_batch b f (advance_members st st' ms s)"
  have sub: "placed {b} (set (bat_members x)) s" by (rule place_open [OF p]) (use x in auto)
  have mem: "cells {} s b = bat_members x" using x by (simp add: cells_members)
  have nq: "\<not> queued s m" if "m \<in> set (bat_members x)" for m
    using members_not_queued [OF p x(1)] x(2) that by auto
  have "placed {b} (set (bat_members x)) (advance_members st st' ms s)"
    unfolding advance_members_def using sub nq ms by (intro place_move_requests) auto
  then have u: "placed {b} (set (bat_members x)) ?u" by (rule place_out) simp
  have tb: "find_batch t c = (if c = b then Some (f x) else find_batch s c)" for c by (simp add: t x)
  have live': "live bs'" using stage_live [OF st(2)] .
  have cells: "cells {b} t c = cells {b} s c" "cells {} t b = bat_members x" for c
    using f live' by (auto simp: cells_def tb split: option.split)
  have q: "queued t = queued s" by (simp add: queued_def fun_eq_iff t(3))
  have "placed {b} (set (bat_members x)) t"
    unfolding placed_def
  proof (intro conjI)
    show "homes {b} (set (bat_members x)) t"
      by (rule homes_mono [OF placed_homes [OF u]]) (auto simp: t q queued_def advance_members_def)
    show "sole {b} t" using placed_sole [OF sub] placed_distinct [OF sub] placed_apart [OF sub]
      unfolding sole_def held_def cells q by blast
    show "queue_ok t" using u unfolding placed_def queue_ok_def t(1,3) by (simp add: advance_members_def)
    show "lists_ok {b} t" using placed_forming [OF p] forming unfolding lists_ok_def tb by fastforce
  qed
  moreover have "\<not> held {b} s i" if "i \<in> set (bat_members x)" for i
    using that placed_sole [OF p, of i b] mem by (auto simp: held_def cells_insert split: if_splits)
  ultimately have "placed {} (set (bat_members x)) t"
    using placed_distinct [OF p, of b] mem nq forming [of _ b]
    by (intro place_close [of b "{}"] disjI2) (auto simp: cells q held_def)
  then show ?thesis
  proof (rule placed_settle)
    fix i z
    assume i: "i \<in> set (bat_members x)" and z: "find_request t i = Some z"
    then obtain r where r: "find_request s i = Some r"
      "req_state z = (if req_state r = st then st' else req_state r)"
      by (auto simp: t ms)
    have home: "has_home {} s i (req_state r)" by (rule placed_home [OF p r(1)]) simp
    show "has_home {} t i (req_state z)"
    proof (cases "req_state r = st")
      case True
      then have "in_stage {} t i (req_state z)"
        using i f st(2) by (auto simp: in_stage_def tb r(2))
      then show ?thesis by (simp add: has_home_def)
    next
      case False
      have "\<not> in_stage {} s i (req_state r)"
      proof
        assume "in_stage {} s i (req_state r)"
        then obtain c y where c: "find_batch s c = Some y" "i \<in> set (bat_members y)" "stage (req_state r) = Some (bat_state y)"
          by (auto simp: in_stage_def)
        then have "i \<in> set (cells {} s c)" using stage_live by (simp add: cells_def)
        then have "c = b" using placed_sole [OF p, of i c b] i mem by simp
        then have "stage (req_state r) = stage st" using c x st by simp
        then show False using False st(1) by (cases "req_state r"; cases st) auto
      qed
      then show ?thesis using home False nq [OF i] by (auto simp: has_home_def r(2) q)
    qed
  qed
qed

lemma place_seal:
  assumes p: "placed {} {} s" and str: "struct_inv s"
  shows "placed {} {} (snd (do_seal b reason now s))"
proof (cases "\<exists>x. find_batch s b = Some x \<and> bat_state x = BS_forming")
  case False
  then show ?thesis using p seal_none [of s b reason now] by (cases "find_batch s b") auto
next
  case True
  then obtain x where x: "find_batch s b = Some x" "bat_state x = BS_forming" by blast
  note view = seal_view [OF x, of reason now]
  have key: "k = bat_key x" if "map_of (im_forming s) k = Some b" for k
    using struct_forming [OF str that] x by auto
  show ?thesis
  proof (rule place_advance_batch [OF p x(1), where st = RS_reserved and st' = RS_batched and ms = "bat_members x"
        and f = "\<lambda>x. x\<lparr>bat_state := BS_sealed, bat_seal_reason := reason, bat_sealed_ns := now\<rparr>"])
    fix c k
    assume "map_of (im_forming (snd (do_seal b reason now s))) k = Some c"
    then show "c \<noteq> b \<and> map_of (im_forming s) k = Some c"
      using key by (auto simp: view map_of_std_erase split: if_splits)
  qed (use x in \<open>auto simp: view fun_eq_iff\<close>)
qed

section \<open>Cancellation and expiry\<close>

lemma place_fold: "placed {} {} s \<Longrightarrow> (\<And>x s. placed {} {} s \<Longrightarrow> placed {} {} (f x s)) \<Longrightarrow> placed {} {} (fold f xs s)"
  by (rule fold_invariant_on [where P = "placed {} {}"])

lemma settled_terminal [simp]: "is_request_terminal st \<Longrightarrow> settled st"
  by (simp add: settled_def)

text \<open>A member may leave its batch if it ends.\<close>

lemma place_shrink:
  assumes p: "placed {} {} s" and "\<And>x. find_batch s b = Some x \<Longrightarrow> bat_state (f x) = bat_state x \<and>
      bat_members (f x) = removeAll i (bat_members x)"
  shows "placed {} {i} (upd_batch b f s)"
proof (cases "find_batch s b")
  case (Some x)
  let ?t = "upd_batch b f s"
  have f: "bat_state (f x) = bat_state x" "bat_members (f x) = removeAll i (bat_members x)"
    using assms(2) Some by auto
  have cells: "cells {} ?t c = (if c = b then removeAll i (cells {} s b) else cells {} s c)" for c
    by (simp add: cells_def Some f)
  have tb: "find_batch ?t c = (if c = b then Some (f x) else find_batch s c)" for c by (simp add: Some)
  have "homes {} {i} ?t"
  proof (rule homes_mono [OF placed_homes [OF p]])
    show "\<exists>d y. find_batch ?t d = Some y \<and> d \<notin> {} \<and> j \<in> set (bat_members y) \<and> bat_state y = bat_state w"
      if "j \<notin> {i}" "find_batch s c = Some w" "j \<in> set (bat_members w)" for j c w
      using that by (intro exI [of _ c]) (auto simp: tb Some f)
  qed auto
  moreover have "sole {} ?t"
    using p unfolding placed_def sole_def held_def cells by (auto simp: distinct_removeAll split: if_splits)
  moreover have "lists_ok {} ?t"
    unfolding lists_ok_def
  proof (intro allI impI)
    fix k c
    assume "map_of (im_forming ?t) k = Some c"
    then obtain y where "find_batch s c = Some y" "bat_state y = BS_forming" using placed_forming [OF p] by fastforce
    then show "\<exists>y. find_batch ?t c = Some y \<and> bat_state y = BS_forming"
      using Some f(1) by (cases "c = b") simp_all
  qed
  ultimately show ?thesis using p by (simp add: placed_def queue_ok_def)
next
  case None
  have "placed {} {} (upd_batch b f s)" by (rule placed_frame [OF p]) (auto simp: None option.rel_refl)
  then show ?thesis by (rule placed_more) simp
qed

lemma place_remove_member: "placed {} {} s \<Longrightarrow> placed {} {i} (remove_member i b now s)"
  unfolding remove_member_def Let_def by (intro place place_shrink) simp_all

lemma queued_remove_member [simp]: "queued (remove_member i b now s) = queued s"
  by (simp add: remove_member_def Let_def)

lemma place_end_in:
  assumes "placed B {i} s" and "\<not> queued s i" and "\<And>r. settled (req_state (f r))"
  shows "placed B {} (upd_request i f s)"
  by (rule placed_settle [OF place_end_request [OF assms]]) (auto simp: has_home_def assms(3) split: if_splits)

lemma place_terminal:
  assumes "placed {} {i} s" and "\<not> queued s i" and "is_request_terminal st"
  shows "placed {} {} (complete_request_terminal i oc st now s)"
proof -
  have "placed {} {} s" if "find_request s i = None \<or> (\<exists>r. find_request s i = Some r \<and> is_request_terminal (req_state r))"
    by (rule placed_settle [OF assms(1)]) (use that in \<open>auto simp: has_home_def\<close>)
  then show ?thesis using assms
    by (auto simp: complete_request_terminal_def Let_def intro!: place_prims place_end_in split: option.split)
qed

lemma place_expire_waiting: "placed {} {} s \<Longrightarrow> placed {} {} (expire_waiting now i s)"
  using place_index_remove [of "{}" "{}" s]
  by (auto simp: expire_waiting_def intro!: place_terminal split: option.split)

lemma in_batch_not_queued: "placed B D s \<Longrightarrow> find_request s i = Some r \<Longrightarrow> req_state r \<noteq> RS_eligible \<Longrightarrow> \<not> queued s i"
  using placed_queued_state by blast

lemma place_cancel:
  assumes p: "placed {} {} s"
  shows "placed {} {} (snd (do_cancel i reason now s))"
proof (cases "find_request s i")
  case (Some r)
  have waiting: "placed {} {} (upd_request i (\<lambda>r. r\<lparr>req_state := RS_cancelled, req_in_waiting := False\<rparr>)
      (if req_in_waiting r then set_waiting (index_remove (req_key r) i) s else s))"
    using place_index_remove(1) [OF p, of i "req_key r"] place_index_remove(2) [OF p Some refl] Some placed_queued_state [OF p _ Some] p
    by (auto intro!: place_end_in placed_more [OF p])
  have batch: "placed {} {} (upd_request i (\<lambda>r. r\<lparr>req_state := RS_cancelled, req_batch := null_id\<rparr>)
      (remove_member i (req_batch r) now s))" if "in_batch_state (req_state r)"
    using in_batch_not_queued [OF p Some] that
    by (intro place_end_in place_remove_member p) (auto simp: in_batch_state_def)
  have sealed: "placed {} {} (upd_request i (\<lambda>r. r\<lparr>req_state := RS_cancelled\<rparr>)
      (upd_batch b (\<lambda>b. b\<lparr>bat_outcomes := std_insert i CS_cancelled (bat_outcomes b)\<rparr>) s))"
    if "in_batch_state (req_state r)" for b
    using in_batch_not_queued [OF p Some] that
    by (intro place_end_in place placed_more [OF p]) (auto simp: in_batch_state_def)
  show ?thesis
    using p waiting batch sealed
    by (auto simp: do_cancel_def Some Let_def intro!: place_prims split: option.split)
qed (use p in \<open>simp add: do_cancel_def\<close>)

lemma place_expire: "placed {} {} s \<Longrightarrow> placed {} {} (expire_locked P now s)"
  unfolding expire_locked_def Let_def
  by (intro place_fold) (auto simp: expire_member_def place_cancel place_expire_waiting split: option.split)

end
