(* ===== verification/Place_Split.thy ===== *)
theory Place_Split
  imports Place_Form
begin

text \<open>
  The handlers that rearrange batches keep \<open>placed\<close>: a split deals the members of one batch to two, a
  merge moves them from one batch to the other, the tick forms, splits, seals and merges, and a retry
  puts an ended request back in the waiting index.
\<close>

section \<open>Splitting and merging\<close>

text \<open>Members of live batches are moved between batches in the same state.\<close>

lemma place_redistribute:
  assumes p: "placed {} {} s" and q: "im_waiting t = im_waiting s"
    and r: "\<And>i. rel_option same_home (find_request s i) (find_request t i)"
    and cells: "\<And>c i. i \<in> set (cells {} t c) \<Longrightarrow> held {} s i" "\<And>c. distinct (cells {} t c)"
      "\<And>c d i. i \<in> set (cells {} t c) \<Longrightarrow> i \<in> set (cells {} t d) \<Longrightarrow> c = d"
    and b: "\<And>i b x. find_batch s b = Some x \<Longrightarrow> i \<in> set (bat_members x) \<Longrightarrow> live (bat_state x) \<Longrightarrow>
      \<exists>c y. find_batch t c = Some y \<and> i \<in> set (bat_members y) \<and> bat_state y = bat_state x"
    and f: "lists_ok {} t"
  shows "placed {} {} t"
proof -
  have req: "\<exists>z. find_request t i = Some z \<and> same_home r z" if "find_request s i = Some r" for i r
    using r [of i] that by (auto simp: option_rel_Some1)
  have req': "\<exists>z. find_request s i = Some z \<and> same_home z r" if "find_request t i = Some r" for i r
    using r [of i] that by (auto simp: option_rel_Some2)
  have queued: "queued t = queued s" by (simp add: queued_def fun_eq_iff q)
  have "homes {} {} t"
  proof (rule homes_mono [OF placed_homes [OF p]])
    show "(\<exists>z. find_request s i = Some z \<and> req_state z = req_state r) \<and> (queued s i \<longrightarrow> queued t i)"
      if "find_request t i = Some r" for i r
      using req' [OF that] by (auto simp: same_home_def queued)
    show "\<exists>c y. find_batch t c = Some y \<and> c \<notin> {} \<and> i \<in> set (bat_members y) \<and> bat_state y = bat_state x"
      if "find_batch s b = Some x" "i \<in> set (bat_members x)" "live (bat_state x)" for i b x
      using b [OF that] by auto
  qed simp
  moreover have "sole {} t"
    using cells placed_apart [OF p] unfolding sole_def queued held_def by blast
  moreover have "queue_ok t" unfolding queue_ok_def q
  proof (intro allI conjI ballI)
    show "distinct (index_ids (im_waiting s) k)" for k using p by (simp add: placed_def queue_ok_def)
    fix k i
    assume "i \<in> set (index_ids (im_waiting s) k)"
    then obtain r where "find_request s i = Some r" "req_key r = k" "req_state r = RS_eligible" "req_in_waiting r"
      using placed_queued [OF p] by blast
    with req show "\<exists>r. find_request t i = Some r \<and> req_key r = k \<and> req_state r = RS_eligible \<and> req_in_waiting r"
      by (force simp: same_home_def)
  qed
  ultimately show ?thesis using f by (simp add: placed_def)
qed

text \<open>The cells after a split: the second half in \<open>c\<close>, the first in \<open>f\<close>, which is new or \<open>b\<close> itself.\<close>

lemma split_cells:
  assumes p: "placed {} {} s" and new: "cells {} s c = []" "f = b \<or> cells {} s f = []" "c \<noteq> f" "c \<noteq> b"
    and t: "\<And>d. cells {} t d = (if d = c then drop h (cells {} s b) else if d = f then take h (cells {} s b)
      else if d = b then [] else cells {} s d)"
  shows "i \<in> set (cells {} t d) \<Longrightarrow> held {} s i" "distinct (cells {} t d)"
    "i \<in> set (cells {} t d) \<Longrightarrow> i \<in> set (cells {} t e) \<Longrightarrow> d = e"
proof -
  have from_b: "i \<in> set (cells {} s b)" if "d = c \<or> d = f" "i \<in> set (cells {} t d)" for i d
    using that by (auto simp: t dest: in_set_takeD in_set_dropD split: if_splits)
  show "i \<in> set (cells {} t d) \<Longrightarrow> held {} s i"
    using from_b cells_held [of i "{}" s] by (auto simp: t [of d] split: if_splits dest: in_set_takeD in_set_dropD)
  show "distinct (cells {} t d)" using placed_distinct [OF p] by (simp add: t)
  assume i: "i \<in> set (cells {} t d)" "i \<in> set (cells {} t e)"
  have halves: "\<not> (i \<in> set (take h (cells {} s b)) \<and> i \<in> set (drop h (cells {} s b)))"
    using set_take_disj_set_drop_if_distinct [OF placed_distinct [OF p], of h h b] by auto
  show "d = e"
  proof (cases "(d = c \<or> d = f) \<and> (e = c \<or> e = f)")
    case True
    then show ?thesis using i halves new(3) by (auto simp: t split: if_splits)
  next
    case False
    then show ?thesis
      using i from_b [of d i] from_b [of e i] placed_sole [OF p, of i] by (auto simp: t split: if_splits)
  qed
qed

lemma cells_none: "find_batch s b = None \<Longrightarrow> cells B s b = []"
  by (simp add: cells_def)

lemma take_drop_cases: "i \<in> set xs \<Longrightarrow> i \<in> set (take h xs) \<or> i \<in> set (drop h xs)"
  by (metis Un_iff append_take_drop_id set_append)

lemma split_child_requests:
  "rel_option same_home (find_request s i) (find_request (snd (split_child b x s)) i)"
  by (simp add: split_child_def nb_def Let_def same_home_def option.rel_map option.rel_refl)

lemma place_split_forming:
  assumes p: "placed {} {} s" and str: "struct_inv s" and x: "find_batch s b = Some x" "bat_state x = BS_forming"
  shows "placed {} {} (set_forming (bat_key x) b (snd (split_child b x s)))"
proof -
  define t where "t = snd (split_child b x s)"
  let ?c = "Id (im_next_batch s)" and ?h = "length (bat_members x) div 2"
  note view = split_child_view [OF str x(1), folded t_def]
  have new: "find_batch s ?c = None" by (rule struct_fresh_batch [OF str])
  then have ne: "?c \<noteq> b" using x by auto
  have mem: "cells {} s b = bat_members x" using x by (simp add: cells_members)
  obtain y where y: "find_batch t b = Some y" "bat_state y = BS_forming" "bat_members y = take ?h (bat_members x)"
    using view(1) x(2) by auto
  obtain z where z: "find_batch t ?c = Some z" "bat_state z = BS_forming" "bat_members z = drop ?h (bat_members x)"
    using view(2) x(2) by auto
  have cells: "cells {} t d = (if d = ?c then drop ?h (cells {} s b) else if d = b then take ?h (cells {} s b)
      else if d = b then [] else cells {} s d)" for d
    unfolding mem using y z view(3) [of d] by (auto simp: cells_def)
  note split = split_cells [OF p cells_none [OF new] _ ne ne cells, simplified]
  have "placed {} {} t"
  proof (rule place_redistribute [OF p])
    show "\<exists>c y. find_batch t c = Some y \<and> i \<in> set (bat_members y) \<and> bat_state y = bat_state w"
      if "find_batch s d = Some w" "i \<in> set (bat_members w)" for i d w
    proof (cases "d = b")
      case True
      then have "i \<in> set (take ?h (bat_members x)) \<or> i \<in> set (drop ?h (bat_members x))"
        using take_drop_cases that x by fastforce
      then show ?thesis using y z True that(1) x by (metis option.inject)
    next
      case False
      moreover have "d \<noteq> ?c" using that(1) new by (metis option.distinct(1))
      ultimately show ?thesis using view(3) [of d] that by (intro exI [of _ d]) auto
    qed
    show "lists_ok {} t" unfolding lists_ok_def view(5)
    proof (intro allI impI)
      fix k d
      assume "map_of (im_forming s) k = Some d"
      then obtain w where "find_batch s d = Some w" "bat_state w = BS_forming" using placed_forming [OF p] by fastforce
      then show "\<exists>w. find_batch t d = Some w \<and> bat_state w = BS_forming"
        using y view(3) [of d] new by (cases "d = b"; cases "d = ?c") auto
    qed
  qed (use split view(8) split_child_requests [of s _ b x] in \<open>auto simp: t_def [symmetric]\<close>)
  moreover have "lists_ok {} (set_forming (bat_key x) b t)"
    using calculation y by (auto simp: placed_def lists_ok_def map_of_std_insert)
  ultimately show ?thesis
    by (simp add: t_def [symmetric] placed_def homes_def sole_def queue_ok_def has_home_def in_stage_def
        held_def cells_def queued_def)
qed

lemma resealed_view:
  fixes why :: SplitReason and ms :: "RequestId list"
  assumes str: "struct_inv t" and y: "find_batch t b = Some y" and z: "find_batch t c = Some z" and ne: "b \<noteq> c"
  defines "f \<equiv> Id (im_next_batch t)" and "u \<equiv> split_resealed b c ms why t"
  shows "\<exists>y'. find_batch u b = Some y' \<and> bat_state y' = BS_superseded"
    "\<exists>z'. find_batch u c = Some z' \<and> bat_state z' = bat_state z \<and> bat_members z' = bat_members z"
    "\<exists>w. find_batch u f = Some w \<and> bat_state w = BS_sealed \<and> bat_members w = ms"
    "d \<noteq> b \<Longrightarrow> d \<noteq> c \<Longrightarrow> d \<noteq> f \<Longrightarrow> find_batch u d = find_batch t d"
    "find_request u = find_request t" "im_waiting u = im_waiting t" "im_forming u = im_forming t"
proof -
  have new: "find_batch t f = None" using struct_fresh_batch [OF str] by (simp add: f_def)
  then have nf: "b \<noteq> f" "c \<noteq> f" using y z by auto
  show "\<exists>y'. find_batch u b = Some y' \<and> bat_state y' = BS_superseded"
    "\<exists>z'. find_batch u c = Some z' \<and> bat_state z' = bat_state z \<and> bat_members z' = bat_members z"
    "\<exists>w. find_batch u f = Some w \<and> bat_state w = BS_sealed \<and> bat_members w = ms"
    "d \<noteq> b \<Longrightarrow> d \<noteq> c \<Longrightarrow> d \<noteq> f \<Longrightarrow> find_batch u d = find_batch t d"
    "find_request u = find_request t" "im_waiting u = im_waiting t" "im_forming u = im_forming t"
    using y z ne nf by (simp_all add: u_def split_resealed_def nb_def Let_def f_def [symmetric])
qed

lemma place_split_sealed:
  assumes p: "placed {} {} s" and str: "struct_inv s" and x: "find_batch s b = Some x" "bat_state x = BS_sealed"
    and t: "split_child b x s = (c, t)" and st: "struct_inv t"
  shows "placed {} {} (split_resealed b c (take (length (bat_members x) div 2) (bat_members x)) why t)"
    (is "placed {} {} ?u")
proof -
  let ?h = "length (bat_members x) div 2" and ?f = "Id (im_next_batch t)"
  note view = split_child_view [OF str x(1), unfolded t snd_conv]
  have c: "c = Id (im_next_batch s)" using split_child_fst [of b x s] by (simp add: t)
  have new: "find_batch s c = None" using struct_fresh_batch [OF str] by (simp add: c)
  have mem: "cells {} s b = bat_members x" using x by (simp add: cells_members)
  obtain y where y: "find_batch t b = Some y" using view(1) by blast
  obtain z where z: "find_batch t c = Some z" "bat_state z = BS_sealed" "bat_members z = drop ?h (bat_members x)"
    using view(2) x(2) c by auto
  have ne: "b \<noteq> c" using new x by auto
  have newf: "find_batch t ?f = None" by (rule struct_fresh_batch [OF st])
  then have nf: "?f \<noteq> b" "?f \<noteq> c" using y z by auto
  have newf': "find_batch s ?f = None" using view(3) [of ?f] newf nf c by simp
  note rv = resealed_view [OF st y z(1) ne, where ms = "take ?h (bat_members x)" and why = why]
  obtain y' where y': "find_batch ?u b = Some y'" "bat_state y' = BS_superseded" using rv(1) by blast
  obtain z' where z': "find_batch ?u c = Some z'" "bat_state z' = BS_sealed" "bat_members z' = drop ?h (bat_members x)"
    using rv(2) z by auto
  obtain w where w: "find_batch ?u ?f = Some w" "bat_state w = BS_sealed" "bat_members w = take ?h (bat_members x)"
    using rv(3) by blast
  have other: "find_batch ?u d = find_batch s d" if "d \<noteq> b" "d \<noteq> c" "d \<noteq> ?f" for d
    using rv(4) [of d] view(3) [of d] that c by simp
  have cells: "cells {} ?u d = (if d = c then drop ?h (cells {} s b) else if d = ?f then take ?h (cells {} s b)
      else if d = b then [] else cells {} s d)" for d
    unfolding mem using y' z' w other [of d] by (auto simp: cells_def)
  note split = split_cells [OF p cells_none [OF new] disjI2 [OF cells_none [OF newf']] nf(2) [symmetric] ne [symmetric] cells]
  show ?thesis
  proof (rule place_redistribute [OF p])
    show "\<exists>c y. find_batch ?u c = Some y \<and> i \<in> set (bat_members y) \<and> bat_state y = bat_state v"
      if "find_batch s d = Some v" "i \<in> set (bat_members v)" for i d v
    proof (cases "d = b")
      case True
      then have "i \<in> set (take ?h (bat_members x)) \<or> i \<in> set (drop ?h (bat_members x))"
        using take_drop_cases that x by fastforce
      then show ?thesis using w z' True that(1) x by (metis option.inject)
    next
      case False
      moreover have "d \<noteq> c" "d \<noteq> ?f" using that(1) new newf' by (metis option.distinct(1))+
      ultimately have "find_batch ?u d = Some v" using other [of d] that(1) by simp
      then show ?thesis using that by blast
    qed
    show "lists_ok {} ?u" unfolding lists_ok_def rv(7) view(5)
    proof (intro allI impI)
      fix k d
      assume "map_of (im_forming s) k = Some d"
      then obtain v where "find_batch s d = Some v" "bat_state v = BS_forming" using placed_forming [OF p] by fastforce
      then show "\<exists>v. find_batch ?u d = Some v \<and> bat_state v = BS_forming"
        using other [of d] x new newf' by (cases "d = b"; cases "d = c"; cases "d = ?f") auto
    qed
  qed (use split rv(5,6) view(8) split_child_requests [of s _ b x] t in auto)
qed

lemma place_split:
  assumes p: "placed {} {} s" and str: "struct_inv s" and sp: "spare (snd (do_split b reason s))"
    and ok: "\<And>x. find_batch s b = Some x \<Longrightarrow> bat_state x = BS_forming \<or> bat_state x = BS_sealed \<or>
      bat_state x = BS_dispatched \<or> bat_state x = BS_running \<or> is_batch_terminal (bat_state x)"
  shows "placed {} {} (snd (do_split b reason s))"
proof (cases "\<exists>x. find_batch s b = Some x \<and> (bat_state x = BS_forming \<or> bat_state x = BS_sealed) \<and>
    length (bat_members x) div 2 \<noteq> 0")
  case False
  then have "snd (do_split b reason s) = s" using ok by (auto simp: do_split_def split: option.split)
  with p show ?thesis by simp
next
  case True
  then obtain x where x: "find_batch s b = Some x" "bat_state x = BS_forming \<or> bat_state x = BS_sealed"
    "length (bat_members x) div 2 \<noteq> 0" by blast
  obtain c t where t: "split_child b x s = (c, t)" by force
  note view = split_child_view [OF str x(1), unfolded t snd_conv]
  obtain y where y: "find_batch t b = Some y" "bat_state y = bat_state x" "bat_key y = bat_key x"
    using view(1) by blast
  have split: "snd (do_split b reason s) = inc st_batches_split_update
     (if bat_state x = BS_sealed then split_resealed b c (take (length (bat_members x) div 2) (bat_members x)) reason t
      else emit ET_split null_id c null_id null_id (SplitReason_to_string reason)
        (inc st_forming_now_update (set_forming (bat_key x) b t)))" (is "_ = inc _ ?u")
    using x y by (auto simp: do_split_def t at_find is_batch_terminal_def)
  have "spare ?u" using sp unfolding split by (rule spare_grows) (intro grow grows_refl)
  moreover have "grows t ?u" by (auto intro!: grow)
  ultimately have "spare t" using spare_grows by blast
  then have "struct_inv t" using keep_split_child [OF str x(1)] by (simp add: t)
  then show ?thesis
    using place_split_sealed [OF p str x(1) _ t] place_split_forming [OF p str x(1)] x(2)
    unfolding split by (auto simp: t intro!: place_prims)
qed

text \<open>A merge moves the members of \<open>b\<close> to \<open>a\<close>.\<close>

lemma merge_view:
  assumes "do_merge a b s = Some (c, t)" and x: "find_batch s a = Some x" and y: "find_batch s b = Some y"
    and "can_merge (im_policy s) x y"
  shows "a \<noteq> b" "\<exists>z. find_batch t a = Some z \<and> bat_state z = bat_state x \<and> bat_members z = bat_members x @ bat_members y"
    "\<exists>z. find_batch t b = Some z \<and> bat_state z = BS_superseded"
    "d \<noteq> a \<Longrightarrow> d \<noteq> b \<Longrightarrow> find_batch t d = find_batch s d"
    "rel_option same_home (find_request s i) (find_request t i)" "im_waiting t = im_waiting s"
    "im_forming t = (if map_of (im_forming s) (bat_key y) = Some b then std_insert (bat_key y) a (im_forming s) else im_forming s)"
  using assms
  by (auto simp: do_merge_def Let_def same_home_def option.rel_map option.rel_refl split: if_splits)

lemma place_merge:
  assumes p: "placed {} {} s" and str: "struct_inv s" and merge: "do_merge a b s = Some (c, t)"
  shows "placed {} {} t"
proof (cases "\<exists>x y. find_batch s a = Some x \<and> find_batch s b = Some y \<and> can_merge (im_policy s) x y")
  case False
  with merge have "t = s" by (auto simp: do_merge_def split: option.splits if_splits)
  with p show ?thesis by simp
next
  case True
  then obtain x y where x: "find_batch s a = Some x" and y: "find_batch s b = Some y"
    and can: "can_merge (im_policy s) x y" by blast
  note same = can_merge_same [OF can] and view = merge_view [OF merge x y can]
  obtain z where z: "find_batch t a = Some z" "bat_state z = bat_state x" "bat_members z = bat_members x @ bat_members y"
    using view(2) by blast
  obtain z' where z': "find_batch t b = Some z'" "bat_state z' = BS_superseded" using view(3) by blast
  have live: "live (bat_state x)" "live (bat_state y)" using same by (auto simp: live_def)
  have mem: "cells {} s a = bat_members x" "cells {} s b = bat_members y" using x y live by (simp_all add: cells_members)
  have cells: "cells {} t d = (if d = a then cells {} s a @ cells {} s b else if d = b then [] else cells {} s d)" for d
    unfolding mem using z z' view(4) [of d] live by (auto simp: cells_def)
  show ?thesis
  proof (rule place_redistribute [OF p view(6,5)])
    show "held {} s i" if "i \<in> set (cells {} t d)" for d i
      using that cells_held [of i "{}" s] by (auto simp: cells split: if_splits)
    show "distinct (cells {} t d)" for d
      using placed_distinct [OF p] placed_sole [OF p, of _ a b] view(1) by (auto simp: cells)
    show "d = e" if "i \<in> set (cells {} t d)" "i \<in> set (cells {} t e)" for d e i
      using that placed_sole [OF p, of i] unfolding cells by (auto split: if_splits)
    show "\<exists>c w. find_batch t c = Some w \<and> i \<in> set (bat_members w) \<and> bat_state w = bat_state v"
      if "find_batch s d = Some v" "i \<in> set (bat_members v)" for i d v
    proof (cases "d = a \<or> d = b")
      case True
      then have "i \<in> set (bat_members z) \<and> bat_state z = bat_state v" using that x y z same by auto
      then show ?thesis using z(1) by blast
    next
      case False
      then show ?thesis using view(4) [of d] that by (intro exI [of _ d]) auto
    qed
    show "lists_ok {} t" unfolding lists_ok_def
    proof (intro allI impI)
      fix k d
      assume d: "map_of (im_forming t) k = Some d"
      have key: "k = bat_key y" if "map_of (im_forming s) k = Some b" using struct_forming [OF str that] y by auto
      show "\<exists>w. find_batch t d = Some w \<and> bat_state w = BS_forming"
      proof (cases "d = a")
        case True
        have "bat_state x = BS_forming"
          using d placed_forming [OF p, of _ a] placed_forming [OF p, of _ b] x y same True
          by (fastforce simp: view(7) map_of_std_insert split: if_splits)
        then show ?thesis using z True by simp
      next
        case False
        then have d': "map_of (im_forming s) k = Some d" "d \<noteq> b"
          using d key by (auto simp: view(7) map_of_std_insert split: if_splits)
        then show ?thesis using placed_forming [OF p d'(1)] view(4) [OF False d'(2)] by auto
      qed
    qed
  qed
qed

section \<open>The tick\<close>

text \<open>The forming table has one entry for a key.\<close>

interpretation forming: assignment_inv "\<lambda>s. std_ok (im_forming s)"
  by unfold_locales (auto simp: std_ok_insert std_ok_erase upd_request_def upd_batch_def upd_attempt_def
      put_request_def put_batch_def put_attempt_def inc_def emit_def flush_def)

lemma place_merge_neighbours:
  "merge_neighbours v s = Some t \<Longrightarrow> struct_inv s \<Longrightarrow> placed {} {} s \<Longrightarrow> placed {} {} t"
proof (induction v s rule: merge_neighbours.induct)
  case (1 x y v s)
  show ?case
  proof (cases "st_batches_merged (im_stats s) < ucast (max_merges_per_cycle (pol_merge (im_policy s)))")
    case True
    then obtain c u where "do_merge x y s = Some (c, u)" "merge_neighbours (y # v) u = Some t"
      using "1.prems"(1) by (auto split: option.splits)
    then show ?thesis
      using "1.IH" [OF True _ refl] place_merge [OF "1.prems"(3,2)] keep_merge [OF "1.prems"(2)] by auto
  qed (use "1.prems" in auto)
qed auto

lemma place_merge_groups: "merge_groups vs s = Some t \<Longrightarrow> struct_inv s \<and> placed {} {} s \<Longrightarrow> placed {} {} t"
proof (induction vs arbitrary: s)
  case (Cons v vs)
  then obtain u where u: "merge_neighbours v s = Some u" "merge_groups vs u = Some t" by (auto split: option.splits)
  have "struct_inv s' \<Longrightarrow> merge_neighbours v s' = Some u' \<Longrightarrow> struct_inv u'" for v s' u'
    by (induction v s' rule: merge_neighbours.induct) (auto split: if_splits option.splits dest: keep_merge)
  then show ?case using Cons u place_merge_neighbours [OF u(1)] by blast
qed simp

text \<open>The batches being filled stay forming while others are filled.\<close>

definition all_forming :: "BatchId list \<Rightarrow> Impl \<Rightarrow> bool" where
  "all_forming bs s \<longleftrightarrow> (\<forall>b \<in> set bs. \<forall>x. find_batch s b = Some x \<longrightarrow> bat_state x = BS_forming)"

lemma place_tick_fill:
  assumes "placed {} {} (snd ts)" and "all_forming bs (snd ts)" and "b \<in> set bs"
  shows "placed {} {} (snd (tick_fill P now b ts)) \<and> all_forming bs (snd (tick_fill P now b ts))"
proof -
  obtain to_seal s where ts: "ts = (to_seal, s)" by force
  show ?thesis
  proof (cases "find_batch s b")
    case None
    then show ?thesis using assms by (simp add: ts tick_fill_def)
  next
    case (Some x)
    then have st: "bat_state x = BS_forming" using assms by (auto simp: ts all_forming_def)
    have f: "placed {} {} (fill_forming P b (bat_key x) now s)"
      using place_fill [OF _ Some st] assms(1) by (simp add: ts)
    obtain y where y: "find_batch (fill_forming P b (bat_key x) now s) b = Some y" "bat_state y = BS_forming"
      using fill_batch [OF Some, of P "bat_key x" now] st by auto
    have "all_forming bs (fill_forming P b (bat_key x) now s)"
      unfolding all_forming_def
    proof (intro ballI allI impI)
      fix c z
      assume c: "c \<in> set bs" "find_batch (fill_forming P b (bat_key x) now s) c = Some z"
      then show "bat_state z = BS_forming"
        using y assms(2) by (cases "c = b") (auto simp: ts all_forming_def)
    qed
    then show ?thesis
      using f by (auto simp: ts tick_fill_def Some Let_def all_forming_def intro!: place_upd_batch split: if_splits)
  qed
qed

lemma place_tick_fills:
  assumes "placed {} {} s" and "all_forming bs s"
  shows "placed {} {} (snd (fold (tick_fill P now) bs (l, s)))"
proof -
  have "set cs \<subseteq> set bs \<Longrightarrow> placed {} {} (snd ts) \<and> all_forming bs (snd ts) \<Longrightarrow>
      placed {} {} (snd (fold (tick_fill P now) cs ts))" for cs ts
  proof (induction cs arbitrary: ts)
    case (Cons c cs)
    then have "placed {} {} (snd (tick_fill P now c ts)) \<and> all_forming bs (snd (tick_fill P now c ts))"
      by (intro place_tick_fill) auto
    with Cons show ?case by simp
  qed simp
  from this [of bs "(l, s)"] show ?thesis using assms by simp
qed

lemma place_until_merge:
  assumes p: "placed {} {} s" and str: "struct_inv s" and sp: "spare (tick_until_merge P now s)"
    and ok: "std_ok (im_forming s)"
  shows "placed {} {} (tick_until_merge P now s)"
proof -
  define s1 where "s1 = expire_locked P now s"
  define s2 where "s2 = fold (tick_form P now) (map fst (plat_bucket_iter P (im_waiting s1))) s1"
  obtain bs s3 where s3: "fold (tick_fill P now) (map snd (im_forming s2)) ([], s2) = (bs, s3)" by force
  have def: "tick_until_merge P now s = fold (tick_seal now) bs s3"
    by (simp add: tick_until_merge_def s1_def [symmetric] s2_def [symmetric] s3)
  have "grows s2 (fold (tick_seal now) bs s3)"
    using grow_tick_fills [of "([], s2)" P now "map snd (im_forming s2)"]
      grow_fold [of "tick_seal now" s3 bs] grow_tick_seal s3 grows_trans by fastforce
  then have sp2: "spare s2" using sp spare_grows def by simp
  have placed2: "struct_inv s2 \<and> placed {} {} s2" unfolding s2_def
  proof (rule fold_spare_rule)
    show "placed {} {} (tick_form P now k t)" if "struct_inv t" "placed {} {} t" for k t
      using that by (simp add: tick_form_def place_make_forming)
  qed (use sp2 in \<open>auto simp: s2_def s1_def str p keep_expire place_expire keep_tick_form grow_tick_form\<close>)
  have forming2: "all_forming (map snd (im_forming s2)) s2" unfolding all_forming_def
  proof (intro ballI allI impI)
    fix b x
    assume "b \<in> set (map snd (im_forming s2))" and x: "find_batch s2 b = Some x"
    moreover have "std_ok (im_forming s2)" unfolding s2_def s1_def
      by (intro forming.i_fold forming.i_expire ok) (simp add: tick_form_def forming.i_make_forming)
    ultimately obtain k where "map_of (im_forming s2) k = Some b" by (auto simp: in_set_map_of)
    then show "bat_state x = BS_forming" using placed_forming placed2 x by fastforce
  qed
  have "placed {} {} s3" and "struct_inv s3"
    using placed2 forming2 place_tick_fills [of s2 "map snd (im_forming s2)" P now "[]"]
      keep_tick_fills [of "([], s2)" P now "map snd (im_forming s2)"] s3 by simp_all
  moreover have "placed {} {} (tick_seal now b t)" if "struct_inv t" "placed {} {} t" for b t
    using that by (simp add: tick_seal_def place_seal split: option.split)
  ultimately have "struct_inv (fold (tick_seal now) bs s3) \<and> placed {} {} (fold (tick_seal now) bs s3)"
    using sp unfolding def by (intro fold_spare_rule) (auto simp: keep_tick_seal grow_tick_seal)
  then show ?thesis by (simp add: def)
qed

lemma place_tick_split:
  assumes "placed {} {} s" and "struct_inv s" and "spare (tick_split i s)"
  shows "placed {} {} (tick_split i s)"
proof (cases "\<exists>x. find_batch s (im_sealed_order s ! i) = Some x \<and> bat_state x = BS_sealed")
  case True
  then obtain x where x: "find_batch s (im_sealed_order s ! i) = Some x" "bat_state x = BS_sealed" by blast
  have "bat_id x = im_sealed_order s ! i" by (rule struct_bat_id [OF assms(2) x(1)])
  then show ?thesis
    using assms x by (auto simp: tick_split_def Let_def intro!: place_split split: if_splits)
qed (use assms(1) in \<open>auto simp: tick_split_def split: option.split\<close>)

lemma place_tick:
  assumes p: "placed {} {} s" and str: "struct_inv s" and ok: "std_ok (im_forming s)"
    and t: "do_tick P now s = Some t" and sp: "spare t"
  shows "placed {} {} t"
proof -
  let ?u = "tick_until_merge P now s"
  have "spare ?u" using spare_grows [OF sp grow_after_merge [OF t]] .
  then have u: "placed {} {} ?u" "struct_inv ?u" using place_until_merge [OF p str _ ok] tick_until_merge_run [OF str] by auto
  obtain v where v: "tick_merge ?u = Some v" "struct_inv v" using tick_merge_run [OF u(2)] by blast
  have "placed {} {} v"
    using v(1) u place_merge_groups by (auto simp: tick_merge_def split: if_splits)
  moreover have "t = fold tick_split [0..<length (im_sealed_order v)] v"
    using t v split_loop_total [OF own_ids_struct, of v 0] by (simp add: do_tick_def)
  moreover have "struct_inv (tick_split i w)" if "struct_inv w" "spare (tick_split i w)" for i w
    using that by (rule keep_tick_split)
  moreover have "struct_inv w \<Longrightarrow> placed {} {} w \<Longrightarrow> spare (fold tick_split is w) \<Longrightarrow> placed {} {} (fold tick_split is w)" for "is" w
  proof (induction "is" arbitrary: w)
    case (Cons i "is")
    then have "spare (tick_split i w)" using grow_fold [of tick_split] grow_tick_split spare_grows by auto
    then show ?case using Cons keep_tick_split place_tick_split by simp
  qed simp
  ultimately show ?thesis using v(2) sp by blast
qed

section \<open>Retry\<close>

lemma place_queue:
  assumes p: "placed {} {} s" and r: "find_request s i = Some r" "req_state r \<noteq> RS_eligible" and "\<not> held {} s i"
  shows "placed {} {} (snd (queue_retry i r num s))"
proof -
  let ?a = "Id (im_next_attempt s)" and ?s = "s\<lparr>im_next_attempt := im_next_attempt s + 1\<rparr>"
  let ?f = "\<lambda>r. r\<lparr>req_current_attempt := ?a, req_attempts := req_attempts r @ [?a], req_state := RS_eligible,
    req_batch := null_id, req_in_waiting := True\<rparr>"
  have nq: "\<not> queued s i" by (rule in_batch_not_queued [OF p r])
  have "placed {} {} (put_attempt ?a y ?s)" for y by (intro place_prims p)
  then have m: "placed {} {i} (upd_request i ?f (put_attempt ?a y ?s))" for y
    using nq by (intro place_move_request) auto
  have "placed {} {} (set_waiting (index_add (req_key r) i) (upd_request i ?f (put_attempt ?a y ?s)))" for y
    using place_index_add [OF m, where i = i and r = "?f r" and k = "req_key r"] r nq assms(4) by simp
  then show ?thesis by (simp add: queue_retry_def na_def Let_def place_prims)
qed

lemma place_retry:
  assumes p: "placed {} {} s" and str: "struct_inv s" and ok: "std_ok (im_forming s)"
    and t: "do_retry P i now s = Some (res, t)" and sp: "spare t"
    and free: "\<not> held {} s i" "\<And>r. find_request s i = Some r \<Longrightarrow> req_state r \<noteq> RS_eligible"
  shows "placed {} {} t"
  using t
proof (cases rule: retry_cases)
  case (2 r num)
  let ?u = "snd (queue_retry i r num s)"
  have "struct_inv ?u" by (rule keep_queue [OF str 2(1) spare_grows [OF sp grow_tick [OF 2(2)]]])
  moreover have "placed {} {} ?u" by (rule place_queue [OF p 2(1) free(2) free(1)]) (rule 2(1))
  moreover have "std_ok (im_forming ?u)" using ok by (simp add: queue_retry_def na_def Let_def)
  ultimately show ?thesis using place_tick [OF _ _ _ 2(2) sp] by blast
qed (use p in simp)

end
