(* ===== verification/Place_Report.thy ===== *)
theory Place_Report
  imports Place_Form
begin

text \<open>
  The handlers that answer for a dispatched batch keep \<open>placed\<close>, if the report answers for each member:
  every outcome ends its request, sends it back to the waiting index or fails it, so that the batch
  can be closed with nobody left in it.
\<close>

section \<open>Completion\<close>

text \<open>A report is decisive if it ends the attempt.\<close>

definition decisive :: "CompletionStatus \<Rightarrow> bool" where
  "decisive st \<longleftrightarrow> st = CS_success \<or> st = CS_retryable_failure \<or> st = CS_non_retryable_failure \<or>
     st = CS_cancelled \<or> st = CS_expired"

definition at_rest :: "Impl \<Rightarrow> RequestId \<Rightarrow> bool" where
  "at_rest s i \<longleftrightarrow> (\<forall>r. find_request s i = Some r \<longrightarrow> is_request_terminal (req_state r) \<or>
     req_state r = RS_eligible \<and> queued s i)"

lemma place_move_in: "placed B D s \<Longrightarrow> \<not> queued s i \<Longrightarrow> i \<in> D \<Longrightarrow> placed B D (upd_request i f s)"
  using place_move_request [of B D s i f] by (simp add: insert_absorb)

lemma place_records [place]:
  "placed B D s \<Longrightarrow> placed B D (record_outcome b i oc s)" "placed B D s \<Longrightarrow> placed B D (record_result b i txt s)"
  unfolding record_outcome_def record_result_def by (auto intro!: place_upd_batch)

lemma queued_records [simp]:
  "queued (record_outcome b i oc s) = queued s" "queued (record_result b i txt s) = queued s"
  by (simp_all add: record_outcome_def record_result_def)

lemma cells_upd_same:
  "(\<And>x. bat_state (f x) = bat_state x \<and> bat_members (f x) = bat_members x) \<Longrightarrow> cells B (upd_batch b f s) = cells B s"
  by (auto simp: cells_def fun_eq_iff split: option.split)

lemma held_records [simp]:
  "held B (record_outcome b i oc s) = held B s" "held B (record_result b i txt s) = held B s"
  by (simp_all add: record_outcome_def record_result_def held_def fun_eq_iff cells_upd_same)

lemma apply_failure_held [simp]:
  "queued (apply_failure i r aid mc now s) = queued s" "held B (apply_failure i r aid mc now s) = held B s"
  by (simp_all add: apply_failure_def set_state_def Let_def)

lemma place_requeue:
  assumes p: "placed B D s" and r: "find_request s i = Some r0" "req_key r = req_key r0" "req_id r = i"
    and "\<not> queued s i" "\<not> held B s i" "i \<in> D"
  shows "placed B D (requeue i r num s)"
proof -
  let ?a = "Id (im_next_attempt s)" and ?s = "s\<lparr>im_next_attempt := im_next_attempt s + 1\<rparr>"
  let ?f = "\<lambda>r. r\<lparr>req_current_attempt := ?a, req_attempts := req_attempts r @ [?a], req_state := RS_eligible,
    req_batch := null_id, req_in_waiting := True\<rparr>"
  have "placed B D (upd_attempt ?a h (upd_request i ?f (put_attempt ?a y ?s)))" for y h
    using assms by (intro place_prims place_move_in) auto
  then have "placed B (D - {i}) (set_waiting (index_add (req_key r) i)
      (upd_attempt ?a h (upd_request i ?f (put_attempt ?a y ?s))))" for y h
    by (rule place_index_add [where r = "?f r0"]) (use assms in auto)
  then have "placed B D (set_waiting (index_add (req_key r) i)
      (upd_attempt ?a h (upd_request i ?f (put_attempt ?a y ?s))))" for y h
    by (rule placed_more) blast
  then show ?thesis by (simp add: requeue_def na_def Let_def r(3) place_prims)
qed

lemma place_outcome:
  assumes p: "placed B D s" and r: "find_request s i = Some r" "req_id r = i"
    and free: "\<not> queued s i" "\<not> held B s i" "i \<in> D"
  shows "placed B D (apply_member_outcome i r aid a mc now s)"
proof -
  have parts: "placed B D (apply_success i r aid a mc now s)" "placed B D (apply_failure i r aid mc now s)"
    "placed B D (apply_terminal i r aid mc st now s)" for st
    using free by (auto simp: apply_success_def apply_failure_def apply_terminal_def set_state_def Let_def
        intro!: place_prims place_records place_move_in p)
  have "placed B D (requeue i r num (inc st_retryable_failures_update (apply_failure i r aid mc now s)))" for num
    using r free by (intro place_requeue [where ?r0.0 = "r\<lparr>req_state := RS_failed\<rparr>"] place_prims parts) auto
  then show ?thesis using p parts
    by (auto simp: apply_member_outcome_def Let_def intro!: place_prims split: CompletionStatus.split)
qed

text \<open>What an outcome does to its request, and that it leaves the others alone.\<close>

lemma queued_index_add [simp]: "queued (set_waiting (index_add k i) s) j \<longleftrightarrow> queued s j \<or> j = i"
  by (auto simp: queued_set_waiting queued_def widx.in_ids_add)

lemma outcome_others:
  assumes "req_id r = i" and "j \<noteq> i"
  shows "find_request (apply_member_outcome i r aid a mc now s) j = find_request s j"
    and "queued (apply_member_outcome i r aid a mc now s) j = queued s j"
  using assms
  by (auto simp: apply_member_outcome_def apply_success_def apply_failure_def apply_terminal_def requeue_def
      record_outcome_def record_result_def set_state_def na_def Let_def
      split: CompletionStatus.splits)

lemma outcome_self:
  fixes now :: TimePoint and mc :: MemberCompletion and a :: AttemptRec and aid :: AttemptId
  assumes r: "find_request s i = Some r" "req_id r = i"
  defines "t \<equiv> apply_member_outcome i r aid a mc now s"
  shows "\<exists>z. find_request t i = Some z \<and>
     (req_current_attempt z = req_current_attempt r \<and> queued t i = queued s i \<and>
        (is_request_terminal (req_state z) \<or> z = r \<and> \<not> decisive (mc_status mc)) \<or>
      req_current_attempt z = Id (im_next_attempt s) \<and> req_state z = RS_eligible \<and> queued t i)"
  using r unfolding t_def
  by (auto simp: apply_member_outcome_def apply_success_def apply_failure_def apply_terminal_def requeue_def
      record_outcome_def record_result_def set_state_def na_def Let_def decisive_def
      split: CompletionStatus.splits)

lemma same_batches_cells: "same_batches s t \<Longrightarrow> cells B t = cells B s"
proof
  fix b
  assume "same_batches s t"
  then have "rel_option same_batch (find_batch s b) (find_batch t b)" by (simp add: same_batches_def)
  then show "cells B t b = cells B s b"
    by (cases "find_batch s b"; cases "find_batch t b") (auto simp: cells_def same_batch_def)
qed

text \<open>The members of a batch while its report is applied.\<close>

definition reporting :: "BatchId \<Rightarrow> RequestId set \<Rightarrow> (RequestId \<Rightarrow> AttemptId) \<Rightarrow> Impl \<Rightarrow> bool" where
  "reporting b M cur s \<longleftrightarrow> placed {b} M s \<and> att_inv s \<and>
     (\<forall>m \<in> M. \<not> held {b} s m \<and> cur m \<in> dom (find_attempt s) \<and>
        (\<forall>r. find_request s m = Some r \<longrightarrow>
           req_current_attempt r = cur m \<and> \<not> queued s m \<or>
           req_current_attempt r \<noteq> cur m \<and> req_state r = RS_eligible \<and> queued s m))"

lemma reporting_frame:
  assumes "reporting b M cur s"
  shows "reporting b M cur (emit ty rr bb aa tn d s)" "reporting b M cur (inc ff s)"
  using assms by (auto simp: reporting_def place_prims att_prims)

lemma at_rest_frame [simp]:
  "at_rest (emit ty rr bb aa tn d s) = at_rest s" "at_rest (inc ff s) = at_rest s"
  by (simp_all add: at_rest_def fun_eq_iff)

lemma reporting_outcome:
  fixes now :: TimePoint and mc :: MemberCompletion and a :: AttemptRec
  assumes J: "reporting b M cur s" and str: "struct_inv s" and m: "m \<in> M"
    and r: "find_request s m = Some r" "req_current_attempt r = cur m"
  defines "t \<equiv> apply_member_outcome m r (cur m) a mc now s"
  shows "reporting b M cur t" "i \<in> M \<Longrightarrow> at_rest s i \<or> i = m \<and> decisive (mc_status mc) \<Longrightarrow> at_rest t i"
proof -
  have id: "req_id r = m" by (rule struct_req_id [OF str r(1)])
  have free: "\<not> queued s m" "\<not> held {b} s m" using J m r by (auto simp: reporting_def)
  have cells: "held {b} t = held {b} s"
    using same_batches_cells [OF same_batches_outcome] by (simp add: t_def held_def fun_eq_iff)
  note others = outcome_others [OF id, of _ "cur m" a mc now s, folded t_def]
  obtain z where z: "find_request t m = Some z"
    "req_current_attempt z = cur m \<and> \<not> queued t m \<and> (is_request_terminal (req_state z) \<or> z = r \<and> \<not> decisive (mc_status mc)) \<or>
      req_current_attempt z = Id (im_next_attempt s) \<and> req_state z = RS_eligible \<and> queued t m"
    using outcome_self [OF r(1) id, of "cur m" a mc now, folded t_def] r(2) free(1) by auto
  have fresh: "Id (im_next_attempt s) \<notin> dom (find_attempt s)"
    using str by (simp add: struct_inv_def ids_inv_def dense_fresh)
  have dom: "dom (find_attempt s) \<subseteq> dom (find_attempt t)"
    using grow_outcome [OF grows_refl, of s m r "cur m" a mc now] by (simp add: t_def grows_def)
  have "placed {b} M t" unfolding t_def
    by (rule place_outcome) (use J free m r id in \<open>auto simp: reporting_def\<close>)
  moreover have "att_inv t" unfolding t_def
    using J att_outcome [OF _ r struct_attempt_free [OF str]] by (simp add: reporting_def)
  moreover have "\<not> held {b} t i \<and> cur i \<in> dom (find_attempt t) \<and> (\<forall>r. find_request t i = Some r \<longrightarrow>
      req_current_attempt r = cur i \<and> \<not> queued t i \<or>
      req_current_attempt r \<noteq> cur i \<and> req_state r = RS_eligible \<and> queued t i)" if i: "i \<in> M" for i
  proof (cases "i = m")
    case True
    have "cur m \<in> dom (find_attempt s)" using J m by (simp add: reporting_def)
    then show ?thesis using z fresh dom free(2) unfolding True cells by auto
  next
    case False
    then show ?thesis using J i others subsetD [OF dom, of "cur i"] unfolding cells by (auto simp: reporting_def)
  qed
  ultimately show "reporting b M cur t" by (simp add: reporting_def)
  show "at_rest t i" if "i \<in> M" "at_rest s i \<or> i = m \<and> decisive (mc_status mc)"
  proof (cases "i = m")
    case True
    then show ?thesis using z that r free(1) by (auto simp: at_rest_def)
  qed (use that others in \<open>auto simp: at_rest_def\<close>)
qed

lemma reporting_step:
  assumes J: "reporting b M cur s" and str: "struct_inv s" and m: "mc_request mc \<in> M" "mc_attempt mc = cur (mc_request mc)"
  shows "reporting b M cur (complete_member b now mc s)"
    and "i \<in> M \<Longrightarrow> at_rest s i \<or> i = mc_request mc \<and> decisive (mc_status mc) \<Longrightarrow> at_rest (complete_member b now mc s) i"
proof -
  let ?m = "mc_request mc"
  have "reporting b M cur (complete_member b now mc s) \<and> (i \<in> M \<longrightarrow> at_rest s i \<or> i = ?m \<and> decisive (mc_status mc) \<longrightarrow>
      at_rest (complete_member b now mc s) i)"
  proof (cases "find_request s ?m")
    case None
    then show ?thesis using J by (auto simp: complete_member_def reporting_frame) (simp add: at_rest_def)
  next
    case (Some r)
    show ?thesis
    proof (cases "req_current_attempt r = cur ?m")
      case False
      then have "at_rest s ?m" using J m Some by (auto simp: reporting_def at_rest_def)
      then show ?thesis using False J m Some by (auto simp: complete_member_def reporting_frame)
    next
      case True
      obtain a where a: "find_attempt s (cur ?m) = Some a" using J m by (auto simp: reporting_def)
      show ?thesis
      proof (cases "ended (att_state a)")
        case e: True
        have "is_request_terminal (req_state r)"
          using J att_ended [OF _ Some _ e] a True by (simp add: reporting_def)
        then have "at_rest s ?m" using Some by (auto simp: at_rest_def)
        then show ?thesis using J e a True Some m by (auto simp: complete_member_def ended_def)
      next
        case e: False
        then have "complete_member b now mc s = apply_member_outcome ?m r (cur ?m) a mc now s"
          using a True Some m by (auto simp: complete_member_def ended_def)
        then show ?thesis using reporting_outcome [OF J str m(1) Some True] by simp
      qed
    qed
  qed
  then show "reporting b M cur (complete_member b now mc s)"
    and "i \<in> M \<Longrightarrow> at_rest s i \<or> i = mc_request mc \<and> decisive (mc_status mc) \<Longrightarrow> at_rest (complete_member b now mc s) i"
    by blast+
qed

lemma reporting_fold:
  assumes "reporting b M cur s" and "struct_inv s" and "spare (fold (complete_member b now) mcs s)"
    and "\<forall>mc \<in> set mcs. mc_request mc \<in> M \<and> mc_attempt mc = cur (mc_request mc)"
  shows "reporting b M cur (fold (complete_member b now) mcs s) \<and>
    (\<forall>i \<in> M. at_rest s i \<or> (\<exists>mc \<in> set mcs. mc_request mc = i \<and> decisive (mc_status mc)) \<longrightarrow>
       at_rest (fold (complete_member b now) mcs s) i)"
  using assms
proof (induction mcs arbitrary: s)
  case (Cons mc mcs)
  let ?t = "complete_member b now mc s"
  have "spare ?t" using Cons.prems(3) grow_fold [of "complete_member b now" ?t mcs] grow_complete_member spare_grows by auto
  then have "struct_inv ?t" using keep_complete_member [OF Cons.prems(2)] by blast
  moreover have "reporting b M cur ?t" using reporting_step(1) [OF Cons.prems(1,2)] Cons.prems(4) by simp
  moreover have "i \<in> M \<Longrightarrow> at_rest s i \<or> i = mc_request mc \<and> decisive (mc_status mc) \<Longrightarrow> at_rest ?t i" for i
    using reporting_step(2) [OF Cons.prems(1,2)] Cons.prems(4) by simp
  ultimately show ?case using Cons.IH [of ?t] Cons.prems(3,4) by auto
qed simp

text \<open>A complete report: it answers for members only, under their current attempts, and for each of them.\<close>

definition full_report :: "Impl \<Rightarrow> RequestId list \<Rightarrow> MemberCompletion list \<Rightarrow> bool" where
  "full_report s ms mcs \<longleftrightarrow>
     (\<forall>mc \<in> set mcs. mc_request mc \<in> set ms \<and>
        (\<exists>r. find_request s (mc_request mc) = Some r \<and> req_current_attempt r = mc_attempt mc)) \<and>
     (\<forall>m \<in> set ms. \<exists>mc \<in> set mcs. mc_request mc = m \<and> decisive (mc_status mc))"

text \<open>The batch that is reported is out of the account; all its members find a place.\<close>

lemma at_rest_home: "at_rest s i \<Longrightarrow> find_request s i = Some r \<Longrightarrow> has_home B s i (req_state r)"
  by (auto simp: at_rest_def has_home_def)

lemma place_closed:
  assumes p: "placed {b} M s" and rest: "\<forall>i \<in> M. at_rest s i" and "\<And>k. map_of (im_forming s) k \<noteq> Some b"
    and "\<And>x. \<not> live (bat_state (f x))"
  shows "placed {} {} (upd_batch b f s)"
proof (rule placed_settle)
  have "placed {b} M (upd_batch b f s)" using p by (rule place_out) simp
  then show "placed {} M (upd_batch b f s)"
    by (rule place_close_dead) (use assms(3,4) in auto)
  fix i r
  assume "i \<in> M" "find_request (upd_batch b f s) i = Some r"
  moreover have "at_rest (upd_batch b f s) i = at_rest s i" by (simp add: at_rest_def)
  ultimately show "has_home {} (upd_batch b f s) i (req_state r)" using rest at_rest_home by blast
qed

lemma place_complete_out:
  assumes p: "placed {b} (set ms) s" and att: "att_inv s" and str: "struct_inv s" and cur: "completion_current s cmp"
    and b: "b = comp_batch cmp" and full: "full_report s ms (comp_members cmp)"
    and free: "\<forall>m \<in> set ms. \<not> held {b} s m \<and> \<not> queued s m" and sp: "spare (snd (do_complete cmp now s))"
  shows "placed {} {} (snd (do_complete cmp now s))"
proof -
  let ?u = "fold (complete_member b now) (comp_members cmp) s"
  define c where "c = (\<lambda>m. case find_request s m of None \<Rightarrow> null_id | Some r \<Rightarrow> req_current_attempt r)"
  have gr: "grows ?u (snd (do_complete cmp now s))" by (simp add: complete_current [OF cur] b grow)
  then have spu: "spare ?u" using spare_grows [OF sp] by blast
  obtain x where x: "find_batch s b = Some x" "bat_state x = BS_dispatched \<or> bat_state x = BS_running"
    using cur b by (auto simp: completion_current_def)
  have known: "\<exists>r. find_request s m = Some r" if "m \<in> set ms" for m
    using full that unfolding full_report_def by metis
  have "reporting b (set ms) c s"
    unfolding reporting_def
  proof (intro conjI ballI p att)
    fix m
    assume m: "m \<in> set ms"
    then obtain r where "find_request s m = Some r" using known by blast
    then show "c m \<in> dom (find_attempt s)" using struct_attempt [OF str] by (simp add: c_def)
    show "\<forall>r. find_request s m = Some r \<longrightarrow> req_current_attempt r = c m \<and> \<not> queued s m \<or>
        req_current_attempt r \<noteq> c m \<and> req_state r = RS_eligible \<and> queued s m"
      using m free by (simp add: c_def)
  qed (use free in auto)
  moreover have "\<forall>mc \<in> set (comp_members cmp). mc_request mc \<in> set ms \<and> mc_attempt mc = c (mc_request mc)"
    using full by (fastforce simp: full_report_def c_def)
  ultimately have u: "reporting b (set ms) c ?u" and rest: "\<forall>i \<in> set ms. at_rest ?u i"
    using reporting_fold [OF _ str spu] full unfolding full_report_def by blast+
  have stru: "struct_inv ?u"
    using spu by (intro keep_fold_spare keep_complete_member grow_complete_member str)
  obtain y where y: "find_batch ?u b = Some y" "bat_state y = bat_state x"
    using same_batches_find [OF same_batches_members x(1)] by (metis same_batch_def)
  have "map_of (im_forming ?u) k \<noteq> Some b" for k
    by (rule struct_not_filling [OF stru y(1)]) (use x(2) y(2) in \<open>auto simp: fillable_def\<close>)
  then have "placed {} {} (close_batch b now ?u)"
    using u rest unfolding close_batch_def reporting_def
    by (auto intro!: place_prims place_closed [where M = "set ms"])
  then show ?thesis by (simp add: complete_current [OF cur] b place_prims)
qed

lemma place_complete:
  assumes p: "placed {} {} s" and att: "att_inv s" and str: "struct_inv s" and sp: "spare (snd (do_complete cmp now s))"
    and ok: "\<And>x. find_batch s (comp_batch cmp) = Some x \<Longrightarrow> bat_state x \<noteq> BS_running \<and>
      (bat_state x = BS_dispatched \<longrightarrow> full_report s (bat_members x) (comp_members cmp))"
  shows "placed {} {} (snd (do_complete cmp now s))"
proof (cases "completion_current s cmp")
  case False
  then show ?thesis using complete_stale(2) [OF False, of now] p by (auto simp: place_prims)
next
  case True
  let ?b = "comp_batch cmp"
  obtain x where x: "find_batch s ?b = Some x" "bat_state x = BS_dispatched"
    using True ok by (fastforce simp: completion_current_def)
  have mem: "cells {} s ?b = bat_members x" using x by (simp add: cells_members)
  have "placed {?b} (set (bat_members x)) s" by (rule place_open [OF p]) (use x in auto)
  moreover have "\<not> held {?b} s m \<and> \<not> queued s m" if "m \<in> set (bat_members x)" for m
    using that placed_sole [OF p, of m ?b] mem members_not_queued [OF p x(1)] x(2)
    by (auto simp: held_def cells_insert split: if_splits)
  ultimately show ?thesis
    using ok [OF x(1)] x(2) by (intro place_complete_out [OF _ att str True refl _ _ sp]) auto
qed

section \<open>Dispatch\<close>

lemma place_mark_dispatched:
  assumes p: "placed {} {} s" and str: "struct_inv s" and x: "find_batch s b = Some x" "bat_state x = BS_sealed"
  shows "placed {} {} (mark_dispatched b w boot now s)"
proof (rule place_advance_batch [OF p x(1), where st = RS_batched and st' = RS_dispatched and ms = "bat_members x"
      and f = "\<lambda>x. x\<lparr>bat_state := BS_dispatched, bat_dispatched_ns := now, bat_worker := w, bat_boot := boot\<rparr>"])
  have "map_of (im_forming s) k \<noteq> Some b" for k
    by (rule struct_not_filling [OF str x(1)]) (simp add: x(2) fillable_def)
  then show "c \<noteq> b \<and> map_of (im_forming s) k = Some c"
    if "map_of (im_forming (mark_dispatched b w boot now s)) k = Some c" for k c
    using that by (auto simp: mark_dispatched_def Let_def)
qed (use x in \<open>auto simp: mark_dispatched_view fun_eq_iff mark_dispatched_def Let_def at_find\<close>)

lemma place_prepare:
  "placed {} {} s \<Longrightarrow> struct_inv s \<Longrightarrow> placed {} {} (snd (do_prepare_dispatch b w boot now s))"
  by (auto simp: do_prepare_dispatch_def Let_def intro!: place_prims place_mark_dispatched split: option.split)

text \<open>The batch that runs in process is out of the account.\<close>

lemma place_running:
  fixes now :: TimePoint and ex :: IExecutor
  assumes p: "placed {} {} s" and str: "struct_inv s" and x: "find_batch s b = Some x" "bat_state x = BS_sealed"
  defines "t \<equiv> running_state b ex now s"
  shows "placed {b} (set (bat_members x)) t" "m \<in> set (bat_members x) \<Longrightarrow> \<not> held {b} t m \<and> \<not> queued t m"
proof -
  define u where "u = begin_dispatch b ex now s"
  have u: "placed {} {} u" unfolding u_def begin_dispatch_def Let_def
    by (intro place_prims place_mark_dispatched [OF p str x])
  obtain y where y: "find_batch u b = Some y" "bat_state y = BS_dispatched" "bat_members y = bat_members x"
    using begin_dispatch_batch(1) [OF x(1), of ex now] by (auto simp: u_def)
  have mem: "cells {} u b = bat_members x" using y by (simp add: cells_members)
  have free: "\<not> held {b} u m \<and> \<not> queued u m" if "m \<in> set (bat_members x)" for m
    using that placed_sole [OF u, of m b] mem members_not_queued [OF u y(1)] y
    by (auto simp: held_def cells_insert split: if_splits)
  have "placed {b} (set (bat_members x)) u" by (rule place_open [OF u]) (use y in auto)
  then have "placed {b} (set (bat_members x)) (upd_batch b (\<lambda>b. b\<lparr>bat_state := BS_running\<rparr>) u)" by (rule place_out) simp
  moreover have "t = advance_members RS_dispatched RS_running (bat_members x)
      (upd_batch b (\<lambda>b. b\<lparr>bat_state := BS_running\<rparr>) u)"
    using y by (simp add: t_def running_state_def mark_running_def Let_def u_def [symmetric] at_find)
  ultimately show "placed {b} (set (bat_members x)) t"
    using free by (simp add: advance_members_def place_move_requests)
  have "queued t = queued u" "cells {b} t = cells {b} u"
    using y
    by (auto simp: t_def running_state_def mark_running_def Let_def u_def [symmetric] queued_def cells_def fun_eq_iff)
  then show "m \<in> set (bat_members x) \<Longrightarrow> \<not> held {b} t m \<and> \<not> queued t m" using free by (simp add: held_def)
qed

text \<open>An executor that answers for each member, with the attempt it was handed.\<close>

definition answers_all :: "IExecutor \<Rightarrow> bool" where
  "answers_all ex \<longleftrightarrow> (\<forall>bx rs. exec_execute ex bx = Inr rs \<longrightarrow>
     map (\<lambda>r. (mr_request r, mr_attempt r)) rs = map (\<lambda>m. (mw_request m, mw_attempt m)) (ex_members bx))"

lemma CpuExecutor_answers_all: "answers_all (CpuExecutor c)"
  by (auto simp: answers_all_def CpuExecutor_def cpu_execute_def)

text \<open>Failing all members of a batch that is out of the account.\<close>

lemma failed_report_fields [simp]:
  "mc_status (failed_report e m aid) = CS_retryable_failure" "mc_request (failed_report e m aid) = m"
  by (simp_all add: failed_report_def)

lemma place_fail_members:
  assumes "fail_members e now ms s = Some t" and "struct_inv s" and "spare t" and "placed {b} M s"
    and "distinct ms" and "set ms \<subseteq> M" and "\<forall>m \<in> M. \<not> held {b} s m" and "\<forall>m \<in> set ms. \<not> queued s m"
    and "\<forall>m \<in> M - set ms. at_rest s m"
  shows "placed {b} M t \<and> (\<forall>m \<in> M. at_rest t m) \<and> im_forming t = im_forming s \<and> same_batches s t"
proof -
  define J where "J = (\<lambda>ms u. placed {b} M u \<and> distinct ms \<and> set ms \<subseteq> M \<and> (\<forall>m \<in> M. \<not> held {b} u m) \<and>
    (\<forall>m \<in> set ms. \<not> queued u m) \<and> (\<forall>m \<in> M - set ms. at_rest u m) \<and> im_forming u = im_forming s \<and> same_batches s u)"
  have "J [] t"
  proof (rule fail_members_rule [OF _ _ assms(1-3)])
    show "J ms s" using assms(4-9) by (simp add: J_def)
    show "J ms u" if "find_request u m = None" "J (m # ms) u" for m ms u
    proof -
      have "at_rest u m" using that(1) by (simp add: at_rest_def)
      then have "\<forall>i \<in> M - set ms. at_rest u i" using that(2) by (auto simp: J_def)
      then show ?thesis using that(2) by (simp add: J_def)
    qed
    fix m ms u r a
    assume str: "struct_inv u" and J: "J (m # ms) u" and r: "find_request u m = Some r"
    define v where "v = apply_member_outcome m r (req_current_attempt r) a
      (failed_report e m (req_current_attempt r)) now u"
    have id: "req_id r = m" by (rule struct_req_id [OF str r])
    note others = outcome_others [OF id, of _ "req_current_attempt r" a "failed_report e m (req_current_attempt r)" now u,
        folded v_def]
    obtain z where z: "find_request v m = Some z" "is_request_terminal (req_state z) \<or> req_state z = RS_eligible \<and> queued v m"
      using outcome_self [OF r id, of "req_current_attempt r" a "failed_report e m (req_current_attempt r)" now, folded v_def]
      by (auto simp: decisive_def)
    have "held {b} v = held {b} u"
      using same_batches_cells [OF same_batches_outcome] by (simp add: v_def held_def fun_eq_iff)
    moreover have "placed {b} M v" unfolding v_def
      by (rule place_outcome) (use J r id in \<open>auto simp: J_def\<close>)
    moreover have "at_rest v i" if "i = m \<or> at_rest u i" for i
      using that z others [of i] by (cases "i = m") (auto simp: at_rest_def)
    moreover have "im_forming v = im_forming u"
      by (auto simp: v_def apply_member_outcome_def apply_success_def apply_failure_def apply_terminal_def requeue_def
          record_outcome_def record_result_def set_state_def na_def Let_def split: CompletionStatus.split)
    moreover have "same_batches u v" by (simp add: v_def same_batches_outcome)
    moreover have "\<forall>i \<in> set ms. \<not> queued v i"
      using J others(2) unfolding J_def by (metis distinct.simps(2) list.set_intros(2))
    moreover have "\<forall>i \<in> M - set ms. i = m \<or> at_rest u i" using J by (auto simp: J_def)
    ultimately show "J ms v" using J unfolding J_def by (auto intro: same_batches_trans)
  qed
  then show ?thesis by (simp add: J_def)
qed

lemma member_work_ids:
  "\<forall>m \<in> set ms. find_request v m \<noteq> None \<Longrightarrow>
     map (\<lambda>m. (mw_request m, mw_attempt m)) (List.map_filter (member_work v) ms) =
     map (\<lambda>m. (m, case find_request v m of None \<Rightarrow> null_id | Some r \<Rightarrow> req_current_attempt r)) ms"
  by (induction ms) (auto simp: List.map_filter_simps member_work_def)

text \<open>The report of an in-process run is complete and current.\<close>

lemma running_report:
  fixes now :: TimePoint
  assumes str: "struct_inv s" and x: "find_batch s b = Some x" "bat_state x = BS_sealed" and ans: "answers_all ex"
    and rs: "exec_execute ex (build_execution (begin_dispatch b ex now s) (at_batch (begin_dispatch b ex now s) b)) = Inr rs"
    and ok: "bat_epoch x = im_epoch s \<and> (\<exists>rec. map_of (im_workers s) (cap_worker (exec_capability ex)) = Some rec \<and> wk_live rec)"
  defines "u \<equiv> running_state b ex now s"
  shows "completion_current u (run_completion (at_batch u b) rs)"
    "full_report u (bat_members x) (comp_members (run_completion (at_batch u b) rs))"
    "comp_batch (run_completion (at_batch u b) rs) = b"
proof -
  define v where "v = begin_dispatch b ex now s"
  obtain rec where rec: "map_of (im_workers s) (cap_worker (exec_capability ex)) = Some rec" "wk_live rec" using ok by blast
  have vb: "find_batch v b = Some (x\<lparr>bat_state := BS_dispatched, bat_dispatched_ns := now,
      bat_worker := cap_worker (exec_capability ex), bat_boot := wk_boot rec\<rparr>)"
    by (simp add: v_def begin_dispatch_def Let_def rec mark_dispatched_view [OF x(1)])
  then have ub: "find_batch u b = Some (x\<lparr>bat_dispatched_ns := now,
      bat_worker := cap_worker (exec_capability ex), bat_boot := wk_boot rec, bat_state := BS_running\<rparr>)"
    by (simp add: u_def running_state_def v_def [symmetric] mark_running_view [OF vb])
  have id: "bat_id x = b" by (rule struct_bat_id [OF str x(1)])
  show batch: "comp_batch (run_completion (at_batch u b) rs) = b" by (simp add: run_completion_def at_find ub id)
  have "im_epoch u = im_epoch s" "im_workers u = im_workers s"
    by (simp_all add: u_def running_state_def mark_running_def begin_dispatch_def mark_dispatched_def Let_def)
  then show "completion_current u (run_completion (at_batch u b) rs)"
    using ok rec by (simp add: completion_current_def run_completion_def at_find ub id worker_current_def)
  have vm: "find_request v m \<noteq> None" if "m \<in> set (bat_members x)" for m
    using struct_members [OF str x(1) that]
    by (auto simp: has_key_def v_def begin_dispatch_def Let_def mark_dispatched_view [OF x(1)])
  have um: "map_option req_current_attempt (find_request u m) = map_option req_current_attempt (find_request v m)" for m
    by (simp add: u_def running_state_def v_def [symmetric] mark_running_view [OF vb] option.map_comp comp_def)
      (auto intro!: option.map_cong0)
  define c where "c = (\<lambda>m. case find_request v m of None \<Rightarrow> null_id | Some r \<Rightarrow> req_current_attempt r)"
  have "map (\<lambda>m. (mw_request m, mw_attempt m)) (ex_members (build_execution v (at_batch v b))) =
      map (\<lambda>m. (m, c m)) (bat_members x)"
    using member_work_ids [of "bat_members x" v] vm by (simp add: build_execution_def at_find vb c_def)
  then have ids: "map (\<lambda>r. (mr_request r, mr_attempt r)) rs = map (\<lambda>m. (m, c m)) (bat_members x)"
    using ans rs by (simp add: answers_all_def v_def)
  then have set: "(\<lambda>r. (mr_request r, mr_attempt r)) ` set rs = (\<lambda>m. (m, c m)) ` set (bat_members x)"
    by (metis list.set_map)
  have cur: "\<exists>r. find_request u m = Some r \<and> req_current_attempt r = c m" if "m \<in> set (bat_members x)" for m
    using um [of m] vm [OF that] by (cases "find_request u m") (auto simp: c_def)
  show "full_report u (bat_members x) (comp_members (run_completion (at_batch u b) rs))"
    unfolding full_report_def
  proof (intro conjI ballI)
    fix mc
    assume "mc \<in> set (comp_members (run_completion (at_batch u b) rs))"
    then obtain r where r: "r \<in> set rs" "mc = success_completion r" by (auto simp: run_completion_def)
    have "(mr_request r, mr_attempt r) \<in> (\<lambda>m. (m, c m)) ` set (bat_members x)"
      unfolding set [symmetric] using r(1) by (rule imageI)
    then obtain m where "m \<in> set (bat_members x)" "mr_request r = m" "mr_attempt r = c m" by auto
    then show "mc_request mc \<in> set (bat_members x)"
      "\<exists>r. find_request u (mc_request mc) = Some r \<and> req_current_attempt r = mc_attempt mc"
      using cur r by (auto simp: success_completion_def)
  next
    fix m
    assume "m \<in> set (bat_members x)"
    then have "(m, c m) \<in> (\<lambda>r. (mr_request r, mr_attempt r)) ` set rs" unfolding set by (rule imageI)
    then obtain r where "r \<in> set rs" "mr_request r = m" by auto
    then show "\<exists>mc \<in> set (comp_members (run_completion (at_batch u b) rs)). mc_request mc = m \<and> decisive (mc_status mc)"
      by (auto simp: run_completion_def success_completion_def decisive_def intro!: bexI [of _ r])
  qed
qed

text \<open>
  A batch whose run failed stays running; all its members were failed or queued again, so it is
  taken out of the account for good.
\<close>

lemma place_dispatch_run:
  assumes p: "placed {} {} s" and att: "att_inv s" and str: "struct_inv s"
    and run: "do_dispatch_and_run b ex now s = Some (res, t)" and sp: "spare t" and ans: "answers_all ex"
    and ok: "\<And>x. find_batch s b = Some x \<Longrightarrow> bat_epoch x = im_epoch s \<and>
      (\<exists>rec. map_of (im_workers s) (cap_worker (exec_capability ex)) = Some rec \<and> wk_live rec)"
  shows "placed {} {} t"
proof (cases "\<exists>x. find_batch s b = Some x \<and> bat_state x = BS_sealed")
  case False
  then have "t = s" using run by (auto simp: do_dispatch_and_run_def split: option.splits if_splits)
  with p show ?thesis by simp
next
  case True
  then obtain x where x: "find_batch s b = Some x" "bat_state x = BS_sealed" by blast
  define u where "u = running_state b ex now s"
  note place = place_running [OF p str x, where ex = ex and now = now, folded u_def]
  have stru: "struct_inv u" unfolding u_def by (rule keep_running_state [OF str x])
  have attu: "att_inv u" unfolding u_def by (rule att_running_state [OF att])
  have dist: "distinct (bat_members x)" using placed_distinct [OF p, of b] x by (simp add: cells_members)
  obtain y where y: "find_batch u b = Some y" "bat_state y = BS_running"
    using running_state_batch(1) [OF x(1), of ex now] by (auto simp: u_def)
  have nof: "map_of (im_forming u) k \<noteq> Some b" for k
    by (rule struct_not_filling [OF stru y(1)]) (simp add: y(2) fillable_def)
  show ?thesis
  proof (cases "\<exists>e. exec_execute ex (build_execution (begin_dispatch b ex now s) (at_batch (begin_dispatch b ex now s) b)) = Inl e")
    case True
    then obtain e where "fail_members e now (bat_members (at_batch u b)) u = Some t"
      using run x by (auto simp: do_dispatch_and_run_def u_def running_state_def Let_def split: sum.splits)
    moreover have "bat_members (at_batch u b) = bat_members x"
      using running_state_batch(1) [OF x(1), of ex now] by (auto simp: u_def at_find)
    ultimately have "fail_members e now (bat_members x) u = Some t" by simp
    from place_fail_members [OF this stru sp place(1) dist] place(2)
    have t: "placed {b} (set (bat_members x)) t" "\<forall>m \<in> set (bat_members x). at_rest t m"
      "im_forming t = im_forming u" "same_batches u t" by auto
    obtain w where "find_batch t b = Some w" "bat_state w = BS_running"
      using same_batches_find [OF t(4) y(1)] y(2) by (metis same_batch_def)
    then have "placed {} (set (bat_members x)) t"
      using t nof by (intro place_close_dead [of b "{}"]) auto
    then show ?thesis by (rule placed_settle) (use t(2) at_rest_home in blast)
  next
    case False
    then obtain rs where rs: "exec_execute ex (build_execution (begin_dispatch b ex now s)
        (at_batch (begin_dispatch b ex now s) b)) = Inr rs"
      by (metis sumE)
    have t: "t = snd (do_complete (run_completion (at_batch u b) rs) now u)"
      using run x rs by (auto simp: do_dispatch_and_run_def u_def running_state_def Let_def split: prod.splits sum.splits)
    note rep = running_report [OF str x ans rs ok [OF x(1)], folded u_def]
    show ?thesis unfolding t
      by (rule place_complete_out [OF place(1) attu stru rep(1) _ rep(2)]) (use place(2) sp t rep(3) in auto)
  qed
qed

end
