(* ===== verification/Place_Props.thy ===== *)
theory Place_Props
  imports Place_Split Place_Report Sched_Props
begin

text \<open>
  No request is lost and none is in two places, as long as the callers are orderly; and what a report
  that leaves a member out does to it.
\<close>

section \<open>Orderly callers\<close>

text \<open>
  A report answers for exactly the members of a dispatched batch; an executor answers for the whole
  batch, which must still be current; only a request that is neither waiting nor in a live batch is
  submitted again; a partially completed batch is not split.
\<close>

definition orderly :: "Call \<Rightarrow> Impl \<Rightarrow> bool" where
  "orderly c s \<longleftrightarrow> (case c of
      Call_complete cmp _ \<Rightarrow> \<forall>x. find_batch s (comp_batch cmp) = Some x \<longrightarrow> bat_state x \<noteq> BS_running \<and>
        (bat_state x = BS_dispatched \<longrightarrow> full_report s (bat_members x) (comp_members cmp))
    | Call_dispatch_and_run b ex _ \<Rightarrow> answers_all ex \<and> (\<forall>x. find_batch s b = Some x \<longrightarrow> bat_epoch x = im_epoch s \<and>
        (\<exists>rec. map_of (im_workers s) (cap_worker (exec_capability ex)) = Some rec \<and> wk_live rec))
    | Call_retry i _ \<Rightarrow> \<not> held {} s i \<and> (\<forall>r. find_request s i = Some r \<longrightarrow> req_state r \<noteq> RS_eligible)
    | Call_split b _ _ \<Rightarrow> \<forall>x. find_batch s b = Some x \<longrightarrow> bat_state x = BS_forming \<or> bat_state x = BS_sealed \<or>
        bat_state x = BS_dispatched \<or> bat_state x = BS_running \<or> is_batch_terminal (bat_state x)
    | _ \<Rightarrow> True)"

lemma place_call:
  assumes p: "placed {} {} s" and att: "att_inv s" and ok: "std_ok (im_forming s)" and str: "struct_inv s"
    and ord: "orderly c s" and run: "run_call P c s = Some t" and sp: "spare t"
  shows "placed {} {} t"
proof (cases c)
  case (Call_merge a b reason now)
  then show ?thesis using run by (auto dest!: merge_state intro: place_prims place_merge [OF p str])
next
  case (Call_retry i now)
  then obtain r u where "do_retry P i (resolve_now s now) s = Some (r, u)" "t = flush u"
    using run by (auto dest!: retry_state)
  then show ?thesis using place_retry [OF p str ok] ord sp Call_retry by (simp add: orderly_def place_prims)
next
  case (Call_tick now)
  then show ?thesis using run sp by (auto dest!: tick_state intro!: place_prims place_tick [OF p str ok])
next
  case (Call_dispatch_and_run b ex now)
  then obtain r u where "do_dispatch_and_run b ex (resolve_now s now) s = Some (r, u)" "t = flush u"
    using run by (auto dest!: dispatch_state)
  then show ?thesis using place_dispatch_run [OF p att str] ord sp Call_dispatch_and_run
    by (simp add: orderly_def place_prims)
next
  case (Call_complete cmp now)
  then show ?thesis using run sp ord place_complete [OF p att str, of cmp]
    by (auto simp: complete_def orderly_def intro!: place_prims)
next
  case (Call_split b reason now)
  then show ?thesis using run sp ord place_split [OF p str, of b reason]
    by (auto simp: split_state orderly_def intro!: place_prims)
next
  case (Call_submit meta now)
  then show ?thesis using run by (auto simp: submit_def intro!: place_prims place_submit [OF p str])
next
  case (Call_seal b reason now)
  then show ?thesis using run by (auto simp: seal_state intro!: place_prims place_seal [OF p str])
next
  case (Call_prepare_dispatch b w boot now)
  then show ?thesis using run by (auto simp: prepare_dispatch_def intro!: place_prims place_prepare [OF p str])
qed (use run p in \<open>auto simp: register_worker_def roll_epoch_def cancel_def expire_def Let_def
    intro!: place_prims place_cancel place_expire\<close>)

lemma place_init: "placed {} {} (Impl_init p clk sink)"
  by (simp add: placed_def homes_def sole_def queue_ok_def lists_ok_def held_def cells_def queued_def Impl_init_def
      find_request_def find_batch_def index_ids_def index_bucket_def)

lemma reachable_placed:
  assumes "reachable P orderly p s"
  shows "placed {} {} s"
proof -
  have "placed {} {} s \<and> att_inv s \<and> std_ok (im_forming s)" using assms
  proof (rule reachable_invariant)
    show "placed {} {} (Impl_init p clk sink) \<and> att_inv (Impl_init p clk sink) \<and> std_ok (im_forming (Impl_init p clk sink))"
      for clk sink by (simp add: place_init att_init) (simp add: Impl_init_def)
    show "placed {} {} t \<and> att_inv t \<and> std_ok (im_forming t)"
      if "struct_inv s" "placed {} {} s \<and> att_inv s \<and> std_ok (im_forming s)" "orderly c s"
        "run_call P c s = Some t" "spare t" for s c t
      using that place_call att_call forming.i_call by blast
  qed
  then show ?thesis by blast
qed

section \<open>Properties\<close>

definition in_batch :: "Impl \<Rightarrow> BatchState \<Rightarrow> RequestId \<Rightarrow> BatchId \<Rightarrow> bool" where
  "in_batch s st i b \<longleftrightarrow> (\<exists>x. find_batch s b = Some x \<and> bat_state x = st \<and> i \<in> set (bat_members x))"

lemma in_batch_cells: "in_batch s st i b \<Longrightarrow> live st \<Longrightarrow> i \<in> set (cells {} s b)"
  by (auto simp: in_batch_def cells_def)

lemma placed_one_place:
  assumes "placed {} {} s" and "find_request s i = Some r"
  shows "(\<forall>k. i \<in> set (index_ids (im_waiting s) k) \<longleftrightarrow> req_state r = RS_eligible \<and> k = req_key r) \<and>
    (\<forall>st. stage (req_state r) = Some st \<longrightarrow> (\<exists>!b. in_batch s st i b)) \<and>
    (\<forall>st st' b c. live st \<and> live st' \<and> in_batch s st i b \<and> in_batch s st' i c \<longrightarrow>
       b = c \<and> req_state r \<noteq> RS_eligible) \<and>
    (req_state r = RS_eligible \<or> req_state r = RS_waiting \<or> is_request_terminal (req_state r) \<or>
     stage (req_state r) \<noteq> None)"
proof -
  note p = assms(1)
  have home: "has_home {} s i (req_state r)" by (rule placed_home [OF p assms(2)]) simp
  have stage: "in_stage {} s i (req_state r) \<longleftrightarrow> (\<exists>b st. stage (req_state r) = Some st \<and> in_batch s st i b)"
    by (auto simp: in_stage_def in_batch_def)
  have eligible: "queued s i" if "req_state r = RS_eligible"
    using home that by (auto simp: has_home_def settled_def in_stage_def)
  have queue: "i \<in> set (index_ids (im_waiting s) k) \<longleftrightarrow> req_state r = RS_eligible \<and> k = req_key r" for k
    using placed_queued [OF p, of i k] placed_queued_state [OF p _ assms(2)] eligible assms(2) by auto
  have one: "b = c" if "in_batch s st i b" "in_batch s st' i c" "live st" "live st'" for b c st st'
    using placed_sole [OF p] in_batch_cells that by blast
  have "\<exists>!b. in_batch s st i b" if st: "stage (req_state r) = Some st" for st
  proof -
    have "\<not> settled (req_state r) \<and> req_state r \<noteq> RS_eligible"
      using st by (cases "req_state r") (auto simp: settled_def)
    then show ?thesis using home st stage one stage_live [OF st] by (auto simp: has_home_def)
  qed
  moreover have "req_state r \<noteq> RS_eligible" if "in_batch s st i b" "live st" for st b
    using eligible placed_apart [OF p] cells_held in_batch_cells [OF that] by blast
  ultimately show ?thesis using queue one home stage by (auto simp: has_home_def settled_def)
qed

text \<open>
  C6: with orderly callers no request is lost and none is in two places. In every reachable state a
  request is in the waiting index exactly while it is eligible, and then in the bucket of its key; a
  reserved, batched or dispatched request is a member of exactly one forming, sealed or dispatched
  batch; two live batches never share a member, nor a live batch and the waiting index; and every
  other request has ended or was deferred.
\<close>

theorem every_request_has_one_place:
  assumes "reachable P orderly p s" and "find_request s i = Some r"
  shows "(\<forall>k. i \<in> set (index_ids (im_waiting s) k) \<longleftrightarrow> req_state r = RS_eligible \<and> k = req_key r) \<and>
    (\<forall>st. stage (req_state r) = Some st \<longrightarrow> (\<exists>!b. in_batch s st i b)) \<and>
    (\<forall>st st' b c. live st \<and> live st' \<and> in_batch s st i b \<and> in_batch s st' i c \<longrightarrow>
       b = c \<and> req_state r \<noteq> RS_eligible) \<and>
    (req_state r = RS_eligible \<or> req_state r = RS_waiting \<or> is_request_terminal (req_state r) \<or>
     stage (req_state r) \<noteq> None)"
  by (rule placed_one_place [OF reachable_placed [OF assms(1)] assms(2)])

theorem every_request_has_one_place_witness:
  "(\<exists>!b. in_batch sample2 BS_sealed (Id 1) b) \<and> (\<forall>k. Id 1 \<notin> set (index_ids (im_waiting sample2) k))"
proof -
  have "reachable plain_platform orderly default_policy sample2"
    by (rule sample_reachable(2)) (simp_all add: orderly_def)
  from every_request_has_one_place [OF this, of "Id 1" "sample_member\<lparr>req_state := RS_batched\<rparr>"]
  show ?thesis by (simp add: find_request_def)
qed

text \<open>
  C16: a member that a report leaves out is stranded. The report is accepted and the batch becomes
  partially completed, the member stays dispatched, it can no longer be cancelled, and no further
  report for the batch is accepted.
\<close>

theorem unreported_member_is_stranded:
  assumes "struct_inv s" and "completion_current s cmp" and "find_batch s (comp_batch cmp) = Some x"
    and "m \<in> set (bat_members x)" and "find_request s m = Some r"
    and "req_state r = RS_dispatched" and "req_batch r = comp_batch cmp"
    and "\<forall>mc \<in> set (comp_members cmp). mc_request mc \<noteq> m" and "spare (snd (do_complete cmp now s))"
  shows "\<exists>t y. do_complete cmp now s = (Inr (), t) \<and> find_request t m = Some r \<and>
    find_batch t (comp_batch cmp) = Some y \<and> bat_state y = BS_partially_completed \<and>
    do_cancel m reason later t = (Result_err EC_invalid_state ''cannot cancel request in this state'', t) \<and>
    (comp_batch again = comp_batch cmp \<longrightarrow> (\<exists>e. fst (do_complete again later t) = Inl e))"
proof -
  let ?b = "comp_batch cmp" let ?f = "complete_member ?b now"
  let ?u = "fold ?f (comp_members cmp) s"
  note accepted = complete_current [OF assms(2), of now]
  have other: "find_request (?f mc v) m = find_request v m" if "struct_inv v" "mc_request mc \<noteq> m" for mc v
    using that outcome_others(1) [OF struct_req_id, of v] by (auto simp: complete_member_def split: option.split)
  have "grows ?u (snd (do_complete cmp now s))" by (simp add: accepted grow)
  then have "spare ?u" using spare_grows [OF assms(9)] by blast
  then have "struct_inv ?u \<and> find_request ?u m = Some r" using assms(1,5)
    by (intro fold_spare_rule)
      (use assms(8) in \<open>auto simp: other intro: keep_complete_member grow_complete_member\<close>)
  moreover obtain y where y: "find_batch ?u ?b = Some y" "bat_members y = bat_members x"
    using same_batches_find [OF same_batches_members assms(3)] by (metis same_batch_def)
  ultimately have left: "\<not> all_terminal ?u (bat_members (at_batch ?u ?b))" and r: "find_request ?u m = Some r"
    using assms(4,6) by (force simp: all_terminal_def list_all_iff at_find y is_request_terminal_def)+
  let ?t = "snd (do_complete cmp now s)"
  have t: "find_request ?t m = Some r" "find_batch ?t ?b = Some (y\<lparr>bat_state := BS_partially_completed\<rparr>)"
    using left r y by (simp_all add: accepted close_batch_def)
  have "\<not> completion_current ?t again" if "comp_batch again = ?b"
    using t(2) that by (auto simp: completion_current_def)
  then have "\<exists>e. fst (do_complete again later ?t) = Inl e" if "comp_batch again = ?b"
    using complete_stale(1) that by (metis Result_err_def)
  moreover have "do_complete cmp now s = (Inr (), ?t)" by (simp add: accepted)
  moreover have "do_cancel m reason later ?t = (Result_err EC_invalid_state ''cannot cancel request in this state'', ?t)"
    using t assms(6,7) by (simp add: do_cancel_def is_request_terminal_def in_batch_state_def)
  ultimately show ?thesis using t by (intro exI [of _ ?t] exI [of _ "y\<lparr>bat_state := BS_partially_completed\<rparr>"]) simp
qed

theorem unreported_member_is_stranded_witness:
  "\<exists>t. do_complete (sample_report\<lparr>comp_members := []\<rparr>) 8 sample3 = (Inr (), t) \<and>
     do_cancel (Id 1) CR_client_request 9 t = (Result_err EC_invalid_state ''cannot cancel request in this state'', t)"
proof -
  let ?c = "sample_report\<lparr>comp_members := []\<rparr>"
  have cur: "completion_current sample3 ?c"
    by (simp add: completion_current_def sample_report_def sample_worker_current find_batch_def)
  have spare: "spare (snd (do_complete ?c 8 sample3))"
    unfolding complete_current [OF cur]
    by (rule spare_small) (auto simp: close_batch_def eval_prims sample_report_def)
  let ?x = "sample_batch\<lparr>bat_state := BS_dispatched, bat_sealed_ns := 6, bat_dispatched_ns := 7,
    bat_worker := Id 0, bat_boot := Id 0\<rparr>"
  have "find_batch sample3 (comp_batch ?c) = Some ?x"
    "find_request sample3 (Id 1) = Some (sample_member\<lparr>req_state := RS_dispatched\<rparr>)"
    by (simp_all add: find_batch_def find_request_def sample_report_def)
  from unreported_member_is_stranded [OF reachable_struct [OF sample34_reachable(1)] cur this(1) _ this(2) _ _ _ spare]
  show ?thesis by (simp add: sample_report_def sample_member_def) blast
qed

text \<open>
  Why \<open>orderly\<close> asks for a current epoch: an executor runs a batch of an earlier epoch, but its
  report is stale, so the results are lost and the batch and its members stay running.
\<close>

lemma run_of_an_old_batch_is_lost:
  assumes "struct_inv s" and x: "find_batch s b = Some x" "bat_state x = BS_sealed" and "bat_epoch x \<noteq> im_epoch s"
    and run: "do_dispatch_and_run b ex now s = Some (res, t)" and "\<And>bx. \<exists>rs. exec_execute ex bx = Inr rs"
    and m: "m \<in> set (bat_members x)" "find_request s m = Some r" "req_state r = RS_batched"
  shows "\<exists>e. res = Inl e" and "\<exists>y. find_batch t b = Some y \<and> bat_state y = BS_running"
    and "find_request t m = Some (r\<lparr>req_state := RS_running\<rparr>)"
proof -
  define v u where "v = begin_dispatch b ex now s" and "u = running_state b ex now s"
  obtain rs where rs: "exec_execute ex (build_execution v (at_batch v b)) = Inr rs" using assms(6) by blast
  let ?c = "run_completion (at_batch u b) rs"
  define w where "w = cap_worker (exec_capability ex)"
  define boot where "boot = (case map_of (im_workers s) w of None \<Rightarrow> Id 0 | Some rec \<Rightarrow> wk_boot rec)"
  have vb: "find_batch v b = Some (x\<lparr>bat_state := BS_dispatched, bat_dispatched_ns := now,
      bat_worker := w, bat_boot := boot\<rparr>)" and vm: "find_request v m = Some (r\<lparr>req_state := RS_dispatched\<rparr>)"
    using m by (simp_all add: v_def begin_dispatch_def Let_def w_def boot_def mark_dispatched_view [OF x(1)])
  then have ub: "find_batch u b = Some (x\<lparr>bat_dispatched_ns := now, bat_worker := w, bat_boot := boot,
      bat_state := BS_running\<rparr>)" and um: "find_request u m = Some (r\<lparr>req_state := RS_running\<rparr>)"
    using m(1) by (simp_all add: u_def running_state_def v_def [symmetric] mark_running_view [OF vb])
  have "im_epoch u = im_epoch s"
    by (simp add: u_def running_state_def mark_running_def begin_dispatch_def mark_dispatched_def Let_def)
  then have "\<not> completion_current u ?c"
    using assms(4) by (simp add: completion_current_def run_completion_def at_find ub)
  note stale = complete_stale [OF this, of now]
  have "do_dispatch_and_run b ex now s = (let (cret, t) = do_complete ?c now u in
      Some (case cret of Inl e \<Rightarrow> (Result_err (err_code e) (err_message e), t)
        | Inr _ \<Rightarrow> (Inr (bat_id (at_batch t b)), t)))"
    using x rs by (simp add: do_dispatch_and_run_def u_def v_def running_state_def Let_def at_find)
  moreover obtain c msg where "fst (do_complete ?c now u) = Result_err c msg" using stale(1) by blast
  ultimately have res: "res = Result_err c msg" and t: "t = snd (do_complete ?c now u)"
    using run by (auto simp: split_beta Result_err_def)
  show "\<exists>e. res = Inl e" by (simp add: res Result_err_def)
  show "\<exists>y. find_batch t b = Some y \<and> bat_state y = BS_running" "find_request t m = Some (r\<lparr>req_state := RS_running\<rparr>)"
    using stale(2) ub um unfolding t by auto
qed

end
