(* ===== verification/Handed.thy ===== *)
theory Handed
  imports Place_Split Sched_Live
begin

text \<open>
  Work that has been handed to a worker stays as it was handed out: no operation but a report
  changes the members of a dispatched batch or their attempts, and a batch that has been dispatched
  never becomes anything but partially completed or completed.
\<close>

section \<open>The relation\<close>

definition handed_state :: "BatchState \<Rightarrow> bool" where
  "handed_state st \<longleftrightarrow> st = BS_dispatched \<or> st = BS_partially_completed \<or> st = BS_completed"

definition same_work :: "BatchRec \<Rightarrow> BatchRec \<Rightarrow> bool" where
  "same_work x y \<longleftrightarrow> handed_state (bat_state y) \<and>
     (bat_state y = BS_dispatched \<longrightarrow> bat_state x = BS_dispatched \<and> bat_members y = bat_members x)"

text \<open>The requests in \<open>D\<close> may get a new attempt.\<close>

definition rests :: "RequestId set \<Rightarrow> Impl \<Rightarrow> Impl \<Rightarrow> bool" where
  "rests D s t \<longleftrightarrow>
     (\<forall>i r. find_request s i = Some r \<longrightarrow> (\<exists>r'. find_request t i = Some r' \<and>
        (i \<notin> D \<longrightarrow> req_current_attempt r' = req_current_attempt r))) \<and>
     (\<forall>b x. find_batch s b = Some x \<longrightarrow> handed_state (bat_state x) \<longrightarrow>
        (\<exists>y. find_batch t b = Some y \<and> same_work x y))"

lemma rests_refl [simp]: "rests D s s"
  by (simp add: rests_def same_work_def)

lemma rests_trans:
  assumes "rests D s t" and "rests D t u"
  shows "rests D s u"
  unfolding rests_def
proof (intro conjI allI impI)
  fix i r
  assume "find_request s i = Some r"
  then show "\<exists>r'. find_request u i = Some r' \<and> (i \<notin> D \<longrightarrow> req_current_attempt r' = req_current_attempt r)"
    using assms unfolding rests_def by metis
next
  fix b x
  assume "find_batch s b = Some x" "handed_state (bat_state x)"
  then obtain y where "find_batch t b = Some y" "same_work x y" using assms(1) unfolding rests_def by blast
  moreover from this obtain z where "find_batch u b = Some z" "same_work y z"
    using assms(2) unfolding rests_def same_work_def by blast
  ultimately show "\<exists>z. find_batch u b = Some z \<and> same_work x z" by (auto simp: same_work_def)
qed

lemma rests_mono: "rests D s t \<Longrightarrow> D \<subseteq> E \<Longrightarrow> rests E s t"
  unfolding rests_def by blast

lemma rests_fold:
  assumes "\<And>x s. x \<in> set xs \<Longrightarrow> rests D s (f x s)"
  shows "rests D s (fold f xs s)"
  using assms by (induction xs arbitrary: s) (auto intro: rests_trans)

named_theorems rest \<comment> \<open>assignments that leave what was handed out\<close>

lemma rest_frames [rest]:
  "rests D s t \<Longrightarrow> rests D s (upd_attempt a h t)"
  "rests D s t \<Longrightarrow> rests D s (put_attempt a y t)"
  "rests D s t \<Longrightarrow> rests D s (inc k t)"
  "rests D s t \<Longrightarrow> rests D s (emit ty rr bb aa tn d t)"
  "rests D s t \<Longrightarrow> rests D s (flush t)"
  "rests D s t \<Longrightarrow> rests D s (set_forming ky b t)"
  "rests D s t \<Longrightarrow> rests D s (set_waiting w t)"
  "rests D s t \<Longrightarrow> rests D s (set_fairness q t)"
  "rests D s t \<Longrightarrow> rests D s (dec_forming_now t)"
  "rests D s t \<Longrightarrow> rests D s (t\<lparr>im_next_request := n\<rparr>)"
  "rests D s t \<Longrightarrow> rests D s (t\<lparr>im_next_batch := n\<rparr>)"
  "rests D s t \<Longrightarrow> rests D s (t\<lparr>im_next_attempt := n\<rparr>)"
  "rests D s t \<Longrightarrow> rests D s (t\<lparr>im_next_generation := n\<rparr>)"
  "rests D s t \<Longrightarrow> rests D s (t\<lparr>im_sealed_order := ord\<rparr>)"
  "rests D s t \<Longrightarrow> rests D s (t\<lparr>im_forming := fm\<rparr>)"
  "rests D s t \<Longrightarrow> rests D s (t\<lparr>im_stats := st\<rparr>)"
  "rests D s t \<Longrightarrow> rests D s (t\<lparr>im_workers := ws\<rparr>)"
  "rests D s t \<Longrightarrow> rests D s (t\<lparr>im_epoch := ep\<rparr>)"
  "rests D s t \<Longrightarrow> rests D s (t\<lparr>im_clock_now := clk\<rparr>)"
  by (simp_all add: rests_def)

lemma rest_request [rest]:
  assumes "rests D s t" and "\<And>r. i \<in> D \<or> req_current_attempt (f r) = req_current_attempt r"
  shows "rests D s (upd_request i f t)"
  unfolding rests_def
proof (intro conjI allI impI)
  fix j r
  assume "find_request s j = Some r"
  then obtain r' where "find_request t j = Some r'" "j \<notin> D \<longrightarrow> req_current_attempt r' = req_current_attempt r"
    using assms(1) unfolding rests_def by blast
  then show "\<exists>r'. find_request (upd_request i f t) j = Some r' \<and>
      (j \<notin> D \<longrightarrow> req_current_attempt r' = req_current_attempt r)"
    using assms(2) [of r'] by (cases "j = i") auto
qed (use assms(1) in \<open>simp add: rests_def\<close>)

lemma rest_new_request [rest]:
  "rests D s t \<Longrightarrow> find_request s i = None \<Longrightarrow> rests D s (put_request i r t)"
  unfolding rests_def by auto

lemma rest_batch:
  assumes "rests D s t"
    and "\<And>x y. find_batch s b = Some x \<Longrightarrow> handed_state (bat_state x) \<Longrightarrow> find_batch t b = Some y \<Longrightarrow>
      same_work x y \<Longrightarrow> same_work x (f y)"
  shows "rests D s (upd_batch b f t)"
  unfolding rests_def
proof (intro conjI allI impI)
  fix c x
  assume x: "find_batch s c = Some x" "handed_state (bat_state x)"
  then obtain y where "find_batch t c = Some y" "same_work x y"
    using assms(1) unfolding rests_def by blast
  then show "\<exists>y. find_batch (upd_batch b f t) c = Some y \<and> same_work x y"
    using assms(2) [of x y] x by (cases "c = b") auto
qed (use assms(1) in \<open>simp add: rests_def\<close>)

lemma rest_batch_same [rest]:
  "rests D s t \<Longrightarrow> (\<And>y. bat_state (f y) = bat_state y \<and> bat_members (f y) = bat_members y) \<Longrightarrow>
     rests D s (upd_batch b f t)"
  by (rule rest_batch) (simp_all add: same_work_def)

lemma rest_new_batch:
  "rests D s t \<Longrightarrow> (\<And>x. find_batch s b = Some x \<Longrightarrow> \<not> handed_state (bat_state x)) \<Longrightarrow> rests D s (put_batch b y t)"
  unfolding rests_def by auto

lemma rest_open_batch:
  "rests D s t \<Longrightarrow> (\<And>x. find_batch s b = Some x \<Longrightarrow> \<not> handed_state (bat_state x)) \<Longrightarrow> rests D s (upd_batch b f t)"
  by (rule rest_batch) auto

text \<open>A batch that is not dispatched any more may be filled further.\<close>

lemma rest_batch_members:
  "rests D s t \<Longrightarrow> (\<And>x. find_batch s b = Some x \<Longrightarrow> bat_state x \<noteq> BS_dispatched) \<Longrightarrow>
     (\<And>y. bat_state (f y) = bat_state y) \<Longrightarrow> rests D s (upd_batch b f t)"
  by (rule rest_batch) (auto simp: same_work_def)

lemma rest_requests [rest]:
  "rests D s t \<Longrightarrow> (\<And>i r. i \<in> D \<or> req_current_attempt (f r) = req_current_attempt r) \<Longrightarrow>
     rests D s (upd_requests ms f t)"
  unfolding upd_requests_def by (rule rests_trans [OF _ rests_fold]) (auto intro!: rest_request)

lemma rest_groups [rest]:
  "rests D s t \<Longrightarrow> rests D s (assign_batch b ms t)"
  "rests D s t \<Longrightarrow> rests D s (advance_members st st' ms t)"
  "rests D s t \<Longrightarrow> rests D s (recompute b t)"
  "rests D s t \<Longrightarrow> rests D s (settle_forming b now t)"
  by (auto simp: assign_batch_def advance_members_def recompute_def settle_forming_def Let_def
      intro!: rest split: if_splits)

section \<open>The handlers\<close>

lemma rest_submit: "struct_inv s \<Longrightarrow> rests {} s (snd (do_submit meta now s))"
  by (auto simp: do_submit_def nr_def na_def Let_def struct_fresh_request intro!: rest)

lemma rest_terminal [rest]: "rests D s t \<Longrightarrow> rests D s (complete_request_terminal i oc st now t)"
  by (auto simp: complete_request_terminal_def Let_def intro!: rest split: option.split)

lemma rest_remove_member:
  "rests D s t \<Longrightarrow> (\<And>x. find_batch s b = Some x \<Longrightarrow> bat_state x \<noteq> BS_dispatched) \<Longrightarrow>
     rests D s (remove_member i b now t)"
  unfolding remove_member_def Let_def by (intro rest_groups rest_batch_members) simp_all

lemma rest_cancel: "rests {} s (snd (do_cancel i reason now s))"
  by (auto simp: do_cancel_def Let_def intro!: rest rest_remove_member split: option.split)

lemma rest_expire: "rests {} s (expire_locked P now s)"
proof -
  have "rests {} s (expire_waiting now i s)" "rests {} s (expire_member now i s)" for i s
    by (auto simp: expire_waiting_def expire_member_def intro!: rest rest_cancel split: option.split)
  then show ?thesis
    unfolding expire_locked_def Let_def by (intro rests_trans [OF rests_fold rests_fold])
qed

lemma rest_add_member:
  "rests D s t \<Longrightarrow> (\<And>x. find_batch s b = Some x \<Longrightarrow> bat_state x \<noteq> BS_dispatched) \<Longrightarrow>
     rests D s (add_member_to_batch b i t)"
  by (auto simp: add_member_to_batch_def join_batch_def Let_def intro!: rest_frames rest_request rest_batch_members split: option.split)

lemma rest_fill:
  assumes "\<And>x. find_batch s b = Some x \<Longrightarrow> bat_state x \<noteq> BS_dispatched"
  shows "rests {} s (fill_forming P b k now s)"
proof -
  have "rests {} s (fill_loop P b k now cs s)" for cs
    by (rule fill_loop_rule [where I = "\<lambda>_. rests {} s"]) (auto intro!: rest_frames rest_add_member assms)
  then show ?thesis by (auto simp: fill_forming_def split: option.split)
qed

lemma rest_make_forming: "struct_inv s \<Longrightarrow> rests {} s (make_forming P k now s)"
proof -
  assume str: "struct_inv s"
  obtain b t where o: "open_forming k now s = (b, t)" by force
  have "rests {} s t"
    using o struct_fresh_batch [OF str] by (auto simp: open_forming_def nb_def ng_def intro!: rest rest_new_batch)
  moreover have "rests {} t (fill_forming P b k now t)"
    using open_forming_batch [of k now s] o by (intro rest_fill) simp
  ultimately show ?thesis by (auto simp: make_forming_def o intro!: rest_groups intro: rests_trans)
qed

lemma rest_seal: "rests {} s (snd (do_seal b reason now s))"
  by (auto simp: do_seal_def Let_def handed_state_def intro!: rest rest_open_batch split: option.split)

lemma rest_merge:
  assumes "do_merge a b s = Some (c, t)"
  shows "rests {} s t"
  using assms
  by (auto simp: do_merge_def Let_def can_merge_def handed_state_def intro!: rest rest_open_batch
      split: option.splits if_splits)

lemma rest_prepare: "rests {} s (snd (do_prepare_dispatch b w boot now s))"
  by (auto simp: do_prepare_dispatch_def mark_dispatched_def Let_def handed_state_def
      intro!: rest rest_open_batch split: option.split)

section \<open>Splits and the tick\<close>

lemma rest_split_child:
  assumes str: "struct_inv s" and x: "find_batch s b = Some x" "bat_state x \<noteq> BS_dispatched"
  shows "rests {} s (snd (split_child b x s))"
proof -
  have new: "find_batch s (Id (im_next_batch s)) = None" by (rule struct_fresh_batch [OF str])
  let ?c = "Id (im_next_batch s)" let ?n = "s\<lparr>im_next_batch := im_next_batch s + 1\<rparr>"
  have "rests {} s (upd_batch ?c f (assign_batch ?c ms (put_batch ?c y ?n)))" for f ms y
    using new by (intro rest_open_batch rest_new_batch rest_groups(1) rest_frames rests_refl) auto
  then show ?thesis
    unfolding split_child_def Let_def nb_def prod.case snd_conv
    by (intro rest_groups rest_batch_members [where b = b]) (use x in auto)
qed

lemma rest_resealed:
  assumes "find_batch s b = Some x" and "bat_state x = BS_sealed" and "find_batch s (Id (im_next_batch s)) = None"
  shows "rests {} s (split_resealed b c ms reason s)"
  unfolding split_resealed_def Let_def nb_def prod.case
  using assms
  by (intro rest_frames rest_groups(3) rest_batch_same [where b = b] rest_batch_same [where b = c] rest_new_batch
      rest_open_batch [where b = b] rests_refl) (auto simp: handed_state_def)

lemma rest_split:
  assumes str: "struct_inv s" and sp: "spare (snd (do_split b reason s))"
  shows "rests {} s (snd (do_split b reason s))"
proof (cases "\<exists>x. find_batch s b = Some x \<and> bat_state x \<noteq> BS_dispatched \<and> bat_state x \<noteq> BS_running \<and>
    \<not> is_batch_terminal (bat_state x) \<and> length (bat_members x) div 2 \<noteq> 0")
  case True
  then obtain x where x: "find_batch s b = Some x" "bat_state x \<noteq> BS_dispatched" and go: "bat_state x \<noteq> BS_running \<and>
      \<not> is_batch_terminal (bat_state x) \<and> length (bat_members x) div 2 \<noteq> 0" by blast
  define c t where "c = fst (split_child b x s)" and "t = snd (split_child b x s)"
  obtain y where y: "find_batch t b = Some y" "bat_state y = bat_state x"
    using split_child_view(1) [OF str x(1)] by (auto simp: t_def)
  let ?ms = "take (length (bat_members x) div 2) (bat_members x)"
  have split: "snd (do_split b reason s) = inc st_batches_split_update
     (if bat_state x = BS_sealed then split_resealed b c ?ms reason t
      else emit ET_split null_id c null_id null_id (SplitReason_to_string reason)
        (inc st_forming_now_update (set_forming (bat_key (at_batch t b)) b t)))"
    using x go y by (simp add: do_split_def c_def t_def split_beta at_find)
  have "grows t (snd (do_split b reason s))" unfolding split by (auto intro!: grow)
  then have "struct_inv t" using keep_split_child [OF str x(1)] spare_grows [OF sp] by (simp add: t_def)
  then have "rests {} t (split_resealed b c ?ms reason t)" if "bat_state x = BS_sealed"
    using rest_resealed [OF y(1)] y(2) that struct_fresh_batch by simp
  moreover have "rests {} s t" unfolding t_def by (rule rest_split_child [OF str x])
  ultimately show ?thesis unfolding split by (auto intro!: rest_frames intro: rests_trans)
next
  case False
  then have "snd (do_split b reason s) = s" by (auto simp: do_split_def split: option.split)
  then show ?thesis by simp
qed

text \<open>A loop of steps that allocate ids, if ids are left at its end.\<close>

lemma rest_fold_spare:
  assumes "\<And>x s. struct_inv s \<Longrightarrow> spare (f x s) \<Longrightarrow> rests {} s (f x s) \<and> struct_inv (f x s)"
    and "\<And>x s. grows s (f x s)"
  shows "struct_inv s \<Longrightarrow> spare (fold f xs s) \<Longrightarrow> rests {} s (fold f xs s)"
proof (induction xs arbitrary: s)
  case (Cons x xs)
  then have "spare (f x s)" using grow_fold [of f] assms(2) spare_grows by auto
  with Cons assms(1) [of s x] show ?case using rests_trans by auto
qed simp

lemma rest_tick_fill:
  assumes "struct_inv (snd ts)" and "map_of (im_forming (snd ts)) k = Some b"
  shows "rests {} (snd ts) (snd (tick_fill P now b ts))"
proof -
  have "bat_state x \<noteq> BS_dispatched" if "find_batch (snd ts) b = Some x" for x
    using struct_forming [OF assms] that by (auto simp: fillable_def)
  then show ?thesis
    by (cases ts) (auto simp: tick_fill_def Let_def intro!: rest_batch_same rest_fill split: option.split)
qed

lemma rest_tick_fills:
  "struct_inv (snd ts) \<Longrightarrow> set bs \<subseteq> ran (map_of (im_forming (snd ts))) \<Longrightarrow>
     rests {} (snd ts) (snd (fold (tick_fill P now) bs ts))"
proof (induction bs arbitrary: ts)
  case (Cons b bs)
  then obtain k where "map_of (im_forming (snd ts)) k = Some b" by (auto simp: ran_def)
  with Cons.prems(1) have "rests {} (snd ts) (snd (tick_fill P now b ts))" by (rule rest_tick_fill)
  moreover have "rests {} (snd (tick_fill P now b ts)) (snd (fold (tick_fill P now) bs (tick_fill P now b ts)))"
    using Cons by (intro Cons.IH) (simp_all add: keep_tick_fill tick_fill_frame(1))
  ultimately show ?case using rests_trans by auto
qed simp

lemma rest_until_merge:
  assumes str: "struct_inv s" and ok: "std_ok (im_forming s)" and sp: "spare (tick_until_merge P now s)"
  shows "rests {} s (tick_until_merge P now s)"
proof -
  define s1 where "s1 = expire_locked P now s"
  define s2 where "s2 = fold (tick_form P now) (map fst (plat_bucket_iter P (im_waiting s1))) s1"
  obtain bs s3 where s3: "fold (tick_fill P now) (map snd (im_forming s2)) ([], s2) = (bs, s3)" by force
  have def: "tick_until_merge P now s = fold (tick_seal now) bs s3"
    by (simp add: tick_until_merge_def s1_def [symmetric] s2_def [symmetric] s3)
  have "grows s2 s3" using grow_tick_fills [of "([], s2)" P now "map snd (im_forming s2)"] s3 by simp
  then have "grows s2 (tick_until_merge P now s)"
    unfolding def by (rule grows_trans) (rule grow_fold [OF grow_tick_seal])
  then have sp2: "spare s2" by (rule spare_grows [OF sp])
  have str1: "struct_inv s1" unfolding s1_def by (rule keep_expire [OF str])
  then have str2: "struct_inv s2" using sp2 unfolding s2_def
    by (intro keep_fold_spare keep_tick_form grow_tick_form)
  have "std_ok (im_forming s2)" unfolding s2_def s1_def
    by (intro forming.i_fold forming.i_expire ok) (simp add: tick_form_def forming.i_make_forming)
  then have ran2: "set (map snd (im_forming s2)) \<subseteq> ran (map_of (im_forming s2))"
    by (auto simp: in_set_map_of ran_def)
  have "rests {} s s1" unfolding s1_def by (rule rest_expire)
  moreover have "rests {} s1 s2" using str1 sp2 unfolding s2_def
    by (intro rest_fold_spare grow_tick_form)
      (auto simp: tick_form_def rest_make_forming keep_make_forming split: if_splits)
  moreover have "rests {} s2 s3"
    using rest_tick_fills [of "([], s2)" "map snd (im_forming s2)" P now] str2 s3 ran2 by simp
  moreover have "rests {} s3 (tick_until_merge P now s)" unfolding def
    by (rule rests_fold) (auto simp: tick_seal_def rest_seal split: option.split)
  ultimately show ?thesis using rests_trans by blast
qed

lemma rest_merge_neighbours: "merge_neighbours v s = Some t \<Longrightarrow> rests {} s t"
proof (induction v s rule: merge_neighbours.induct)
  case (1 x y v s)
  then show ?case
    by (fastforce split: if_splits option.splits intro: rests_trans dest: rest_merge)
qed auto

lemma rest_merge_groups: "merge_groups vs s = Some t \<Longrightarrow> rests {} s t"
  by (induction vs arbitrary: s)
    (auto split: option.splits intro: rests_trans dest: rest_merge_neighbours)

lemma rest_tick_split: "struct_inv s \<Longrightarrow> spare (tick_split i s) \<Longrightarrow> rests {} s (tick_split i s)"
  by (auto simp: tick_split_def Let_def intro!: rest_split split: option.splits if_splits)

lemma rest_tick:
  assumes str: "struct_inv s" and ok: "std_ok (im_forming s)" and t: "do_tick P now s = Some t" and sp: "spare t"
  shows "rests {} s t"
proof -
  let ?u = "tick_until_merge P now s"
  have spu: "spare ?u" by (rule spare_grows [OF sp grow_after_merge [OF t]])
  then have u: "rests {} s ?u" "struct_inv ?u" using rest_until_merge [OF str ok] tick_until_merge_run [OF str] by auto
  obtain v where v: "tick_merge ?u = Some v" "struct_inv v" using tick_merge_run [OF u(2)] by blast
  have "rests {} ?u v" using v(1) rest_merge_groups by (auto simp: tick_merge_def split: if_splits)
  moreover have tf: "t = fold tick_split [0..<length (im_sealed_order v)] v"
    using t v split_loop_total [OF own_ids_struct, of v 0] by (simp add: do_tick_def)
  have "rests {} v t" unfolding tf
    by (rule rest_fold_spare) (use sp tf v(2) in \<open>auto simp: rest_tick_split keep_tick_split grow_tick_split\<close>)
  ultimately show ?thesis using u(1) rests_trans by blast
qed

section \<open>Reports\<close>

lemma rest_outcome: "i \<in> D \<Longrightarrow> rests D s (apply_member_outcome i r aid a mc now s)"
  by (auto simp: apply_member_outcome_def apply_success_def apply_failure_def apply_terminal_def requeue_def
      record_outcome_def record_result_def set_state_def na_def Let_def
      intro!: rest split: CompletionStatus.splits)

lemma rest_complete: "rests (mc_request ` set (comp_members cmp)) s (snd (do_complete cmp now s))"
proof -
  let ?D = "mc_request ` set (comp_members cmp)"
  have "rests ?D u (complete_member b now mc u)" if "mc \<in> set (comp_members cmp)" for b mc u
    using that by (auto simp: complete_member_def intro!: rest_frames rest_outcome split: option.split)
  then have "rests ?D s (fold (complete_member b now) (comp_members cmp) s)" for b by (rule rests_fold)
  then show ?thesis
    by (auto simp: do_complete_def close_batch_def same_work_def handed_state_def Let_def
        intro!: rest_frames rest_batch split: option.split)
qed

section \<open>Calls\<close>

fun reported :: "Call \<Rightarrow> RequestId set" where
  "reported (Call_complete cmp _) = mc_request ` set (comp_members cmp)"
| "reported _ = {}"

lemma rest_call:
  assumes str: "struct_inv s" and ok: "std_ok (im_forming s)" and run: "run_call P c s = Some t" and sp: "spare t"
    and "\<And>i now. c \<noteq> Call_retry i now" and "\<And>b ex now. c \<noteq> Call_dispatch_and_run b ex now"
  shows "rests (reported c) s t"
proof (cases c)
  case (Call_tick now)
  then show ?thesis using run sp by (auto dest!: tick_state intro!: rest_frames rest_tick [OF str ok])
next
  case (Call_merge a b reason now)
  then show ?thesis using run by (auto dest!: merge_state intro: rest_frames(5) [OF rest_merge])
next
  case (Call_split b reason now)
  then show ?thesis using run sp by (auto simp: split_state intro!: rest_frames rest_split [OF str])
qed (use run str assms(5,6) in \<open>auto simp: register_worker_def roll_epoch_def cancel_def expire_def submit_def
    seal_state prepare_dispatch_def complete_def Let_def
    intro!: rest_frames rest_cancel rest_expire rest_submit rest_seal rest_prepare rest_complete\<close>)

end
