(* ===== verification/Sched_Budget.thy ===== *)
theory Sched_Budget
  imports Sched_Store Scenario_Wait "HOL-Library.Multiset"
begin

text \<open>
  No batch outgrows the budget. The accumulators of a batch are 64-bit sums that may wrap; the invariant
  ties them to the exact sums over the members. Whether a request joins, and whether two batches are
  merged, is decided on the wrapped sums, which is right as long as limits and amounts stay in the
  lower half of the range.
\<close>

section \<open>Resources\<close>

datatype Resource = Res_input | Res_output | Res_work | Res_memory

fun amount :: "Resource \<Rightarrow> RequestMetadata \<Rightarrow> u64" where
  "amount Res_input m = tok_input (m_tokens m)"
| "amount Res_output m = tok_output (m_tokens m)"
| "amount Res_work m = work_value (m_work m)"
| "amount Res_memory m = m_memory_bytes m"

fun used :: "Resource \<Rightarrow> BatchAccum \<Rightarrow> u64" where
  "used Res_input a = acc_input_tokens a"
| "used Res_output a = acc_output_tokens a"
| "used Res_work a = acc_work a"
| "used Res_memory a = acc_memory a"

fun limit_of :: "Resource \<Rightarrow> BatchBudget \<Rightarrow> u64" where
  "limit_of Res_input B = max_input_tokens B"
| "limit_of Res_output B = max_output_tokens B"
| "limit_of Res_work B = max_work B"
| "limit_of Res_memory B = max_memory_bytes B"

definition budget_of :: "BatchPolicy \<Rightarrow> BatchBudget" where
  "budget_of p = budget (pol_constraints p)"

definition safe_limits :: "BatchBudget \<Rightarrow> bool" where
  "safe_limits B \<longleftrightarrow> unat (max_requests B) < 2 ^ 31 \<and> (\<forall>d. half_range (limit_of d B))"

text \<open>What the members use, exactly.\<close>

definition amount_in :: "Impl \<Rightarrow> Resource \<Rightarrow> RequestId \<Rightarrow> nat" where
  "amount_in s d m = (case find_request s m of None \<Rightarrow> 0 | Some r \<Rightarrow> unat (amount d (req_meta r)))"

definition usage :: "Impl \<Rightarrow> Resource \<Rightarrow> RequestId list \<Rightarrow> nat" where
  "usage s d ms = sum_list (map (amount_in s d) ms)"

lemma usage_simps [simp]:
  "usage s d [] = 0" "usage s d (m # ms) = amount_in s d m + usage s d ms"
  "usage s d (ms @ ns) = usage s d ms + usage s d ns"
  by (simp_all add: usage_def)

definition within_budget :: "BatchBudget \<Rightarrow> Impl \<Rightarrow> RequestId list \<Rightarrow> bool" where
  "within_budget B s ms \<longleftrightarrow> (\<forall>m \<in> set ms. find_request s m \<noteq> None) \<and>
     below_lim (max_requests B) (length ms) \<and> (\<forall>d. below_lim (limit_of d B) (usage s d ms))"

definition accum_exact :: "Impl \<Rightarrow> BatchRec \<Rightarrow> bool" where
  "accum_exact s x \<longleftrightarrow> acc_count (bat_accum x) = of_nat (length (bat_members x)) \<and>
     (\<forall>d. used d (bat_accum x) = of_nat (usage s d (bat_members x)))"

definition batch_in_budget :: "BatchBudget \<Rightarrow> Impl \<Rightarrow> BatchRec \<Rightarrow> bool" where
  "batch_in_budget B s x \<longleftrightarrow> within_budget B s (bat_members x) \<and> accum_exact s x"

definition budget_inv :: "BatchPolicy \<Rightarrow> Impl \<Rightarrow> bool" where
  "budget_inv p s \<longleftrightarrow> im_policy s = p \<and>
     (\<forall>i r d. find_request s i = Some r \<longrightarrow> half_range (amount d (req_meta r))) \<and>
     (\<forall>b x. find_batch s b = Some x \<longrightarrow> batch_in_budget (budget_of p) s x)"

section \<open>What the invariant looks at\<close>

definition same_metas :: "Impl \<Rightarrow> Impl \<Rightarrow> bool" where
  "same_metas s t \<longleftrightarrow> (\<forall>i. map_option req_meta (find_request t i) = map_option req_meta (find_request s i))"

lemma amount_in_map: "amount_in s d m = (case map_option req_meta (find_request s m) of None \<Rightarrow> 0
    | Some mt \<Rightarrow> unat (amount d mt))"
  by (simp add: amount_in_def split: option.split)

lemma known_map: "find_request s m \<noteq> None \<longleftrightarrow> map_option req_meta (find_request s m) \<noteq> None"
  by simp

lemma same_metas_cong:
  assumes "same_metas s t"
  shows "amount_in t = amount_in s" "usage t = usage s" "within_budget B t = within_budget B s"
    "accum_exact t = accum_exact s" "batch_in_budget B t = batch_in_budget B s"
proof -
  show a: "amount_in t = amount_in s" using assms by (simp add: fun_eq_iff amount_in_map same_metas_def)
  then show u: "usage t = usage s" by (intro ext) (simp add: usage_def)
  show w: "within_budget B t = within_budget B s"
    using assms unfolding fun_eq_iff within_budget_def known_map same_metas_def by (simp add: u)
  show e: "accum_exact t = accum_exact s" by (simp add: fun_eq_iff accum_exact_def u)
  show "batch_in_budget B t = batch_in_budget B s" by (simp add: fun_eq_iff batch_in_budget_def w e)
qed

lemma same_metas_small:
  assumes "same_metas s t" and "\<forall>i r d. find_request s i = Some r \<longrightarrow> half_range (amount d (req_meta r))"
    and "find_request t i = Some r"
  shows "half_range (amount d (req_meta r))"
proof -
  have "map_option req_meta (find_request s i) = Some (req_meta r)"
    using assms(1,3) by (metis same_metas_def option.simps(9))
  then obtain z where "find_request s i = Some z" "req_meta z = req_meta r" by auto
  then show ?thesis using assms(2) by metis
qed

lemma budget_frame:
  assumes "budget_inv p s" and "im_policy t = im_policy s" and "same_metas s t"
    and "\<And>b x. find_batch t b = Some x \<Longrightarrow> batch_in_budget (budget_of p) s x"
  shows "budget_inv p t"
  unfolding budget_inv_def
proof (intro conjI allI impI)
  show "im_policy t = p" using assms(1,2) by (simp add: budget_inv_def)
  show "half_range (amount d (req_meta r))" if "find_request t i = Some r" for i r d
    using same_metas_small [OF assms(3) _ that] assms(1) by (simp add: budget_inv_def)
  show "batch_in_budget (budget_of p) t x" if "find_batch t b = Some x" for b x
    using assms(4) [OF that] same_metas_cong(5) [OF assms(3)] by simp
qed

lemma budget_same:
  assumes "budget_inv p s" and "im_policy t = im_policy s" and "find_request t = find_request s"
    and "find_batch t = find_batch s"
  shows "budget_inv p t"
  using assms by (intro budget_frame [OF assms(1)]) (auto simp: same_metas_def budget_inv_def)

lemma budget_batch: "budget_inv p s \<Longrightarrow> find_batch s b = Some x \<Longrightarrow> batch_in_budget (budget_of p) s x"
  by (simp add: budget_inv_def)

named_theorems budget \<comment> \<open>assignments that keep \<open>budget_inv\<close>\<close>

lemma budget_upd_request [budget]:
  assumes "budget_inv p s" and "\<And>r. req_meta (f r) = req_meta r"
  shows "budget_inv p (upd_request i f s)"
proof (rule budget_frame [OF assms(1)])
  show "same_metas s (upd_request i f s)"
    by (simp add: same_metas_def option.map_comp comp_def assms(2))
qed (use assms(1) in \<open>auto simp: budget_inv_def\<close>)

lemma budget_upd_requests [budget]:
  assumes "budget_inv p s" and "\<And>r. req_meta (f r) = req_meta r"
  shows "budget_inv p (upd_requests ms f s)"
  unfolding upd_requests_def by (rule fold_invariant_on [where P = "budget_inv p"]) (simp_all add: assms budget_upd_request)

lemma budget_upd_batch:
  assumes "budget_inv p s" and "\<And>x. find_batch s b = Some x \<Longrightarrow> batch_in_budget (budget_of p) s (f x)"
  shows "budget_inv p (upd_batch b f s)"
  using assms by (intro budget_frame [OF assms(1)]) (auto simp: same_metas_def budget_inv_def split: if_splits)

lemma budget_upd_batch_same [budget]:
  assumes "budget_inv p s" and "\<And>x. bat_members (f x) = bat_members x \<and> bat_accum (f x) = bat_accum x"
  shows "budget_inv p (upd_batch b f s)"
proof (rule budget_upd_batch [OF assms(1)])
  fix x
  assume "find_batch s b = Some x"
  then show "batch_in_budget (budget_of p) s (f x)"
    using budget_batch [OF assms(1)] assms(2) by (simp add: batch_in_budget_def accum_exact_def)
qed

lemma budget_put_batch:
  assumes "budget_inv p s" and "batch_in_budget (budget_of p) s x"
  shows "budget_inv p (put_batch b x s)"
  using assms by (intro budget_frame [OF assms(1)]) (auto simp: same_metas_def budget_inv_def split: if_splits)

lemma budget_prims [budget]:
  assumes "budget_inv p s"
  shows "budget_inv p (upd_attempt a h s)" "budget_inv p (put_attempt a y s)" "budget_inv p (inc ff s)"
    "budget_inv p (emit ty rr bb aa tn d s)" "budget_inv p (flush s)" "budget_inv p (set_forming k b s)"
    "budget_inv p (set_waiting w s)" "budget_inv p (set_fairness q s)" "budget_inv p (dec_forming_now s)"
    "budget_inv p (s\<lparr>im_next_request := n\<rparr>)" "budget_inv p (s\<lparr>im_next_batch := n\<rparr>)"
    "budget_inv p (s\<lparr>im_next_attempt := n\<rparr>)" "budget_inv p (s\<lparr>im_next_generation := n\<rparr>)"
    "budget_inv p (s\<lparr>im_sealed_order := ord\<rparr>)" "budget_inv p (s\<lparr>im_stats := st\<rparr>)"
    "budget_inv p (s\<lparr>im_workers := ws\<rparr>)" "budget_inv p (s\<lparr>im_epoch := ep\<rparr>)"
    "budget_inv p (s\<lparr>im_clock_now := clk\<rparr>)" "budget_inv p (s\<lparr>im_forming := fm, im_sealed_order := ord\<rparr>)"
  by (rule budget_same [OF assms], simp_all)+

section \<open>Accumulators\<close>

lemma used_add_usage: "used d (add_usage r a) = used d a + amount d (req_meta r)"
  by (cases d) (simp_all add: add_usage_def)

lemma used_count [simp]: "used d (a\<lparr>acc_count := n\<rparr>) = used d a"
  by (cases d) simp_all

lemma used_empty [simp]: "used d empty_accum = 0" "acc_count empty_accum = 0"
  by (cases d) (simp_all add: empty_accum_def)

lemma add_usage_count [simp]: "acc_count (add_usage r a) = acc_count a"
  by (simp add: add_usage_def)

lemma accum_fold:
  assumes "\<forall>m \<in> set ms. find_request s m \<noteq> None"
  defines "acc \<equiv> \<lambda>a. fold (\<lambda>m a. case find_request s m of None \<Rightarrow> a
    | Some r \<Rightarrow> add_usage r (a\<lparr>acc_count := acc_count a + 1\<rparr>)) ms a"
  shows "acc_count (acc a) = acc_count a + of_nat (length ms) \<and>
    used d (acc a) = used d a + of_nat (usage s d ms)"
  using assms(1) unfolding acc_def
  by (induction ms arbitrary: a) (auto simp: used_add_usage amount_in_def ac_simps)

lemma recompute_in_budget:
  assumes "within_budget B s (bat_members x)"
  shows "batch_in_budget B s (recompute_accum s x)"
proof -
  have "bat_accum (recompute_accum s x) = fold (\<lambda>m a. case find_request s m of None \<Rightarrow> a
      | Some r \<Rightarrow> add_usage r (a\<lparr>acc_count := acc_count a + 1\<rparr>)) (bat_members x) empty_accum"
    by (simp add: recompute_accum_def Let_def split: option.split)
  then show ?thesis
    using assms accum_fold [of "bat_members x" s empty_accum]
    by (auto simp: batch_in_budget_def accum_exact_def within_budget_def)
qed

lemma below_lim_le: "below_lim mx n \<Longrightarrow> m \<le> n \<Longrightarrow> below_lim mx m"
  by (rule below_lim_mono)

lemma usage_mono: "mset ms \<subseteq># mset ns \<Longrightarrow> usage s d ms \<le> usage s d ns"
  unfolding usage_def sum_mset_sum_list [symmetric] mset_map
  by (metis image_mset_subseteq_mono le_iff_add subset_mset.add_diff_inverse sum_mset.union)

lemma within_sub:
  assumes "within_budget B s ns" and "mset ms \<subseteq># mset ns"
  shows "within_budget B s ms"
proof -
  have "set ms \<subseteq> set ns" "length ms \<le> length ns"
    using assms(2) set_mset_mono [OF assms(2)] size_mset_mono [OF assms(2)] by simp_all
  then show ?thesis
    using assms(1) usage_mono [OF assms(2)] by (auto simp: within_budget_def intro: below_lim_le)
qed

lemma within_parts:
  "within_budget B s ms \<Longrightarrow> within_budget B s (take n ms)" "within_budget B s ms \<Longrightarrow> within_budget B s (drop n ms)"
  "within_budget B s ms \<Longrightarrow> within_budget B s (removeAll i ms)"
proof -
  have "mset (take n ms) + mset (drop n ms) = mset ms" by (metis append_take_drop_id mset_append)
  then have "mset (take n ms) \<subseteq># mset ms" "mset (drop n ms) \<subseteq># mset ms"
    by (metis mset_subset_eq_add_left, metis mset_subset_eq_add_right)
  moreover have "mset (removeAll i ms) \<subseteq># mset ms" by (simp add: removeAll_filter_not_eq)
  ultimately show "within_budget B s ms \<Longrightarrow> within_budget B s (take n ms)"
    "within_budget B s ms \<Longrightarrow> within_budget B s (drop n ms)"
    "within_budget B s ms \<Longrightarrow> within_budget B s (removeAll i ms)" by (auto intro: within_sub)
qed

text \<open>The tests on wrapped sums are right.\<close>

lemma used_below:
  assumes "batch_in_budget B s x" and "safe_limits B" and "limit_of d B \<noteq> 0"
  shows "unat (used d (bat_accum x)) = usage s d (bat_members x)" "usage s d (bat_members x) < 2 ^ 63"
proof -
  have "usage s d (bat_members x) \<le> unat (limit_of d B)"
    using assms by (auto simp: batch_in_budget_def within_budget_def below_lim_def)
  then show le: "usage s d (bat_members x) < 2 ^ 63"
    using assms(2) by (auto simp: safe_limits_def half_range_def intro: le_less_trans)
  then show "unat (used d (bat_accum x)) = usage s d (bat_members x)"
    using assms(1) by (simp add: batch_in_budget_def accum_exact_def unat_of_nat)
qed

lemma count_below:
  assumes "batch_in_budget B s x" and "safe_limits B" and "max_requests B \<noteq> 0"
  shows "unat (acc_count (bat_accum x)) = length (bat_members x)" "length (bat_members x) < 2 ^ 31"
proof -
  have "length (bat_members x) \<le> unat (max_requests B)"
    using assms by (auto simp: batch_in_budget_def within_budget_def below_lim_def)
  then show le: "length (bat_members x) < 2 ^ 31"
    using assms(2) by (auto simp: safe_limits_def intro: le_less_trans)
  then show "unat (acc_count (bat_accum x)) = length (bat_members x)"
    using assms(1) by (simp add: batch_in_budget_def accum_exact_def unat_of_nat)
qed

lemma allows_add_dims:
  "allows_add B cc (used Res_input a) (used Res_output a) (used Res_work a) (used Res_memory a)
     ac (f Res_input) (f Res_output) (f Res_work) (f Res_memory) \<longleftrightarrow>
   below_lim (max_requests B) (unat cc + unat ac) \<and>
   (\<forall>d. limit_of d B = 0 \<or> used d a + f d \<le> limit_of d B)"
proof -
  have dims: "(\<forall>d. Q d) \<longleftrightarrow> Q Res_input \<and> Q Res_output \<and> Q Res_work \<and> Q Res_memory" for Q
    by (metis Resource.exhaust)
  show ?thesis
    unfolding dims allows_add_def Let_def count_exceeded_iff by (auto simp: not_less)
qed

text \<open>A sum that passes the wrapped test is below the limit.\<close>

lemma sum_below:
  fixes a b l :: u64
  assumes "l = 0 \<or> a + b \<le> l" and "l \<noteq> 0 \<Longrightarrow> unat a + unat b < 2 ^ 64"
  shows "below_lim l (unat a + unat b)"
proof (cases "l = 0")
  case False
  then have "unat (a + b) = unat a + unat b" using assms(2) by (simp add: unat_add_lem [THEN iffD1])
  then show ?thesis using assms(1) False by (simp add: below_lim_def word_le_nat_alt)
qed (simp add: below_lim_def)

section \<open>A member joins\<close>

lemma join_in_budget:
  assumes x: "batch_in_budget B s x" and lim: "safe_limits B" and r: "find_request s i = Some r"
    and small: "\<forall>d. half_range (amount d (req_meta r))"
    and fits: "fits (to_former_batch x) (to_candidate i r) B"
  shows "batch_in_budget B s (join_batch i r x)"
proof -
  have "allows_add B (acc_count (bat_accum x)) (used Res_input (bat_accum x)) (used Res_output (bat_accum x))
      (used Res_work (bat_accum x)) (used Res_memory (bat_accum x)) 1 (amount Res_input (req_meta r))
      (amount Res_output (req_meta r)) (amount Res_work (req_meta r)) (amount Res_memory (req_meta r))"
    using fits by (simp add: fits_def to_former_batch_def to_candidate_def)
  then have ok: "below_lim (max_requests B) (unat (acc_count (bat_accum x)) + 1)"
    "\<And>d. limit_of d B = 0 \<or> used d (bat_accum x) + amount d (req_meta r) \<le> limit_of d B"
    using allows_add_dims [of B "acc_count (bat_accum x)" "bat_accum x" 1 "\<lambda>d. amount d (req_meta r)"] by auto
  have len: "below_lim (max_requests B) (length (bat_members x) + 1)"
  proof (cases "max_requests B = 0")
    case False
    then show ?thesis using ok(1) count_below(1) [OF x lim] by simp
  qed (simp add: below_lim_def)
  have use: "below_lim (limit_of d B) (usage s d (bat_members x) + amount_in s d i)" for d
  proof (cases "limit_of d B = 0")
    case False
    have "unat (used d (bat_accum x)) + unat (amount d (req_meta r)) < 2 ^ 64"
      using used_below [OF x lim False] small by (simp add: half_range_def) (metis add_less_mono numeral_Bit0)
    then have "below_lim (limit_of d B) (unat (used d (bat_accum x)) + unat (amount d (req_meta r)))"
      using sum_below [OF ok(2)] by blast
    then show ?thesis using used_below(1) [OF x lim False] r by (simp add: amount_in_def)
  qed (simp add: below_lim_def)
  have "bat_accum (join_batch i r x) = (add_usage r (bat_accum x))\<lparr>acc_count := of_nat (length (bat_members x @ [i]))\<rparr>"
    by (simp add: join_batch_def Let_def)
  then show ?thesis
    using x r len use
    by (auto simp: batch_in_budget_def within_budget_def accum_exact_def used_add_usage amount_in_def)
qed

lemma budget_add_member:
  assumes "budget_inv p s" and "safe_limits (budget_of p)" and "may_join s (at_batch s b) now i r"
    and "find_request s i = Some r"
  shows "budget_inv p (add_member_to_batch b i s)"
proof -
  have "fits (to_former_batch (at_batch s b)) (to_candidate i r) (budget_of p)"
    using assms(1,3) by (simp add: may_join_def budget_inv_def budget_of_def)
  then have "budget_inv p (upd_batch b (join_batch i r) s)"
    using join_in_budget [OF budget_batch [OF assms(1)] assms(2,4)] assms(1,4)
    by (intro budget_upd_batch [OF assms(1)]) (auto simp: at_find budget_inv_def)
  then show ?thesis by (simp add: add_member_to_batch_def assms(4) budget)
qed

lemma budget_fill:
  assumes "budget_inv p s" and "safe_limits (budget_of p)"
  shows "budget_inv p (fill_forming P b k now s)"
proof -
  have "budget_inv p (fill_loop P b k now cs s)" for cs
    by (rule fill_loop_rule [where I = "\<lambda>_. budget_inv p"])
      (auto intro: assms budget_prims budget_add_member [OF _ assms(2)])
  then show ?thesis using assms(1) by (simp add: fill_forming_def split: option.split)
qed

section \<open>The handlers\<close>

lemma forming_record_budget [simp]:
  "bat_members (forming_record b g k now s) = bat_members (at_batch s b)"
  "bat_accum (forming_record b g k now s) = bat_accum (at_batch s b)"
  by (auto simp: forming_record_def Let_def split: option.split list.split)

lemma default_in_budget: "batch_in_budget B s default_batch"
  by (simp add: batch_in_budget_def within_budget_def accum_exact_def below_lim_def)

lemma at_batch_in_budget: "budget_inv p s \<Longrightarrow> batch_in_budget (budget_of p) s (at_batch s b)"
  using budget_batch default_in_budget by (cases "find_batch s b") (auto simp: at_find)

lemma in_budget_cong:
  "bat_members y = bat_members x \<Longrightarrow> bat_accum y = bat_accum x \<Longrightarrow> batch_in_budget B s y = batch_in_budget B s x"
  by (simp add: batch_in_budget_def accum_exact_def)

lemma budget_make_forming:
  assumes "budget_inv p s" and "safe_limits (budget_of p)"
  shows "budget_inv p (make_forming P k now s)"
proof -
  obtain b t where t: "open_forming k now s = (b, t)" by force
  let ?s = "s\<lparr>im_next_batch := im_next_batch s + 1, im_next_generation := im_next_generation s + 1\<rparr>"
  have s: "budget_inv p ?s" using budget_prims(13) [OF budget_prims(11) [OF assms(1)]] by simp
  have "budget_inv p (put_batch (Id (im_next_batch s)) (forming_record (Id (im_next_batch s)) g k now ?s) ?s)" for g
    using at_batch_in_budget [OF s] by (intro budget_put_batch s) (simp add: in_budget_cong [of "forming_record b g k now u" "at_batch u b" for b g u])
  then have "budget_inv p t"
    using t by (auto simp: open_forming_def nb_def ng_def Let_def intro!: budget_prims)
  then have "budget_inv p (fill_forming P b k now t)" by (rule budget_fill [OF _ assms(2)])
  then show ?thesis
    by (auto simp: make_forming_def t settle_forming_def Let_def intro!: budget_upd_batch_same)
qed

lemma budget_advance [budget]: "budget_inv p s \<Longrightarrow> budget_inv p (advance_members st st' ms s)"
  unfolding advance_members_def by (rule budget_upd_requests) simp_all

lemma budget_assign [budget]: "budget_inv p s \<Longrightarrow> budget_inv p (assign_batch b ms s)"
  unfolding assign_batch_def by (rule budget_upd_requests) simp_all

lemma budget_seal: "budget_inv p s \<Longrightarrow> budget_inv p (snd (do_seal b why now s))"
  by (auto simp: do_seal_def Let_def intro!: budget split: option.split)

lemma budget_terminal: "budget_inv p s \<Longrightarrow> budget_inv p (complete_request_terminal i oc st now s)"
  by (auto simp: complete_request_terminal_def Let_def intro!: budget split: option.split)

text \<open>Members are exchanged for others within the budget, and the sums are formed anew.\<close>

lemma budget_regroup:
  assumes "budget_inv p s" and "\<And>x. find_batch s b = Some x \<Longrightarrow> within_budget (budget_of p) s (bat_members (f x))"
  shows "budget_inv p (recompute b (upd_batch b f s))"
proof (rule budget_frame [OF assms(1)])
  show "same_metas s (recompute b (upd_batch b f s))" by (simp add: same_metas_def recompute_def)
  have r: "recompute_accum (upd_batch b f s) = recompute_accum s"
    by (intro ext) (simp add: recompute_accum_def Let_def)
  show "batch_in_budget (budget_of p) s x" if "find_batch (recompute b (upd_batch b f s)) c = Some x" for c x
    using that assms recompute_in_budget budget_batch [OF assms(1)]
    by (auto simp: recompute_def r split: if_splits)
qed (simp add: recompute_def)

lemma budget_remove_member: "budget_inv p s \<Longrightarrow> budget_inv p (remove_member i b now s)"
  unfolding remove_member_def Let_def
  by (intro budget_upd_batch_same budget_regroup)
    (auto dest: budget_batch simp: batch_in_budget_def within_parts)

lemma budget_cancel: "budget_inv p s \<Longrightarrow> budget_inv p (snd (do_cancel i reason now s))"
  by (auto simp: do_cancel_def Let_def intro!: budget budget_remove_member split: option.split)

lemma budget_fold: "budget_inv p s \<Longrightarrow> (\<And>x s. budget_inv p s \<Longrightarrow> budget_inv p (f x s)) \<Longrightarrow> budget_inv p (fold f xs s)"
  by (rule fold_invariant_on [where P = "budget_inv p"])

lemma budget_expire: "budget_inv p s \<Longrightarrow> budget_inv p (expire_locked P now s)"
  unfolding expire_locked_def Let_def
  by (intro budget_fold)
    (auto simp: expire_waiting_def expire_member_def intro!: budget_terminal budget_cancel budget split: option.split)

lemma merged_within:
  assumes x: "batch_in_budget B s x" and y: "batch_in_budget B s y" and lim: "safe_limits B"
    and "can_merge p x y" and "budget_of p = B"
  shows "within_budget B s (bat_members x @ bat_members y)"
proof -
  let ?a = "bat_accum x" and ?b = "bat_accum y"
  have "allows_add B 0 (used Res_input empty_accum) (used Res_output empty_accum) (used Res_work empty_accum)
      (used Res_memory empty_accum) (acc_count ?a + acc_count ?b) (used Res_input ?a + used Res_input ?b)
      (used Res_output ?a + used Res_output ?b) (used Res_work ?a + used Res_work ?b) (used Res_memory ?a + used Res_memory ?b)"
    using assms(4,5) by (simp add: can_merge_def budget_of_def empty_accum_def split: if_splits)
  then have ok: "below_lim (max_requests B) (unat (acc_count ?a + acc_count ?b))"
    "\<And>d. limit_of d B = 0 \<or> used d ?a + used d ?b \<le> limit_of d B"
    using allows_add_dims [of B 0 empty_accum "acc_count ?a + acc_count ?b" "\<lambda>d. used d ?a + used d ?b"] by auto
  have len: "below_lim (max_requests B) (length (bat_members x) + length (bat_members y))"
  proof (cases "max_requests B = 0")
    case False
    note c = count_below [OF x lim False] count_below [OF y lim False]
    then have "unat (acc_count ?a + acc_count ?b) = unat (acc_count ?a) + unat (acc_count ?b)"
      by (intro unat_add_lem [THEN iffD1]) simp
    then show ?thesis using ok(1) c by simp
  qed (simp add: below_lim_def)
  have use: "below_lim (limit_of d B) (usage s d (bat_members x) + usage s d (bat_members y))" for d
  proof (cases "limit_of d B = 0")
    case False
    note u = used_below [OF x lim False] used_below [OF y lim False]
    have "below_lim (limit_of d B) (unat (used d ?a) + unat (used d ?b))"
      by (rule sum_below [OF ok(2)]) (use u in simp)
    then show ?thesis using u by simp
  qed (simp add: below_lim_def)
  show ?thesis using x y len use by (auto simp: batch_in_budget_def within_budget_def)
qed

lemma budget_merge:
  assumes inv: "budget_inv p s" and lim: "safe_limits (budget_of p)" and "do_merge a b s = Some (c, t)"
  shows "budget_inv p t"
proof (cases "\<exists>x y. find_batch s a = Some x \<and> find_batch s b = Some y \<and> can_merge (im_policy s) x y")
  case False
  with assms(3) have "t = s" by (auto simp: do_merge_def split: option.splits if_splits)
  with inv show ?thesis by simp
next
  case True
  then obtain x y where xy: "find_batch s a = Some x" "find_batch s b = Some y" "can_merge (im_policy s) x y" by blast
  let ?s = "assign_batch a (bat_members y) s"
  have pol: "im_policy s = p" using inv by (simp add: budget_inv_def)
  have w: "within_budget (budget_of p) ?s (bat_members x @ bat_members y)"
    using merged_within [OF budget_batch [OF budget_assign [OF inv]] budget_batch [OF budget_assign [OF inv]] lim] xy pol
    by simp
  have "budget_inv p (recompute a (upd_batch a (\<lambda>a. a\<lparr>bat_members := bat_members a @ bat_members y,
      bat_parents := bat_parents a @ bat_parents y @ [b], bat_children := bat_children a @ bat_children y\<rparr>) ?s))"
    using w xy(1) by (intro budget_regroup budget_assign inv) simp
  then show ?thesis
    using assms(3) xy by (auto simp: do_merge_def Let_def intro!: budget split: if_splits)
qed

section \<open>Splitting\<close>

lemma recompute_in_budget_of:
  assumes "same_metas s u" and "within_budget B s (bat_members x)"
  shows "batch_in_budget B s (recompute_accum u x)"
  using recompute_in_budget [of B u x] assms(2) same_metas_cong(3,5) [OF assms(1)] by simp

lemma within_find: "find_request t = find_request s \<Longrightarrow> within_budget B t = within_budget B s"
  by (rule same_metas_cong(3)) (simp add: same_metas_def)

lemma budget_put_recompute:
  assumes "budget_inv p s" and "within_budget (budget_of p) s (bat_members x)"
  shows "budget_inv p (recompute b (put_batch b x s))"
proof (rule budget_frame [OF assms(1)])
  show "batch_in_budget (budget_of p) s y" if "find_batch (recompute b (put_batch b x s)) c = Some y" for c y
    using that assms budget_batch [OF assms(1)]
    by (auto intro!: recompute_in_budget_of simp: same_metas_def split: if_splits)
qed (simp_all add: recompute_def same_metas_def)

lemma budget_split_child:
  assumes inv: "budget_inv p s" and str: "struct_inv s" and x: "find_batch s b = Some x"
  shows "budget_inv p (snd (split_child b x s))"
proof (rule budget_frame [OF inv])
  have new: "find_batch s (Id (im_next_batch s)) = None" by (rule struct_fresh_batch [OF str])
  have w: "within_budget (budget_of p) s (bat_members x)"
    using budget_batch [OF inv x] by (simp add: batch_in_budget_def)
  show "batch_in_budget (budget_of p) s y" if "find_batch (snd (split_child b x s)) c = Some y" for c y
    using that new x within_parts [OF w] budget_batch [OF inv]
    by (auto simp: split_child_def nb_def Let_def at_find same_metas_def option.map_comp comp_def
        intro!: recompute_in_budget_of split: if_splits)
  show "same_metas s (snd (split_child b x s))"
    by (simp add: same_metas_def split_child_def nb_def Let_def option.map_comp comp_def)
qed (simp add: split_child_def nb_def Let_def recompute_def)

lemma budget_resealed:
  assumes inv: "budget_inv p s" and w: "within_budget (budget_of p) s ms"
  shows "budget_inv p (split_resealed b c ms why s)"
proof -
  have put: "budget_inv p (recompute f (put_batch f x u))"
    if "budget_inv p u" "find_request u = find_request s" "bat_members x = ms" for f x u
    using that(3) w within_find [OF that(2)] by (intro budget_put_recompute that(1)) simp
  show ?thesis
    unfolding split_resealed_def nb_def Let_def prod.case
    by (rule budget_prims(4), rule budget_prims(4), rule budget_upd_batch_same, rule budget_upd_batch_same, rule budget_prims(14),
      rule put, rule budget_prims(11), rule budget_upd_batch_same, rule budget_prims(14), rule inv) simp_all
qed

lemma budget_split:
  assumes inv: "budget_inv p s" and str: "struct_inv s"
  shows "budget_inv p (snd (do_split b why s))"
proof (cases "find_batch s b")
  case (Some x)
  obtain c t where t: "split_child b x s = (c, t)" by force
  have bt: "budget_inv p t" using budget_split_child [OF inv str Some] t by simp
  have "same_metas s (snd (split_child b x s))"
    by (simp add: same_metas_def split_child_def nb_def Let_def option.map_comp comp_def)
  then have "within_budget (budget_of p) t (take n (bat_members x))" for n
    using budget_batch [OF inv Some] within_parts same_metas_cong(3) t by (simp add: batch_in_budget_def)
  then show ?thesis
    using inv bt by (auto simp: do_split_def Some t Let_def intro!: budget_prims budget_resealed)
qed (use inv in \<open>simp add: do_split_def\<close>)

section \<open>The tick and the calls\<close>

lemma budget_tick_split: "budget_inv p s \<Longrightarrow> struct_inv s \<Longrightarrow> budget_inv p (tick_split i s)"
  by (simp add: tick_split_def Let_def budget_split split: option.split)

lemma budget_tick_splits:
  "struct_inv s \<Longrightarrow> spare (fold tick_split is s) \<Longrightarrow> budget_inv p s \<Longrightarrow> budget_inv p (fold tick_split is s)"
proof (induction "is" arbitrary: s)
  case (Cons i "is")
  then have "spare (tick_split i s)" using grow_fold [of tick_split] grow_tick_split spare_grows by auto
  then show ?case using Cons keep_tick_split budget_tick_split by simp
qed simp

lemma budget_merge_neighbours:
  "merge_neighbours v s = Some t \<Longrightarrow> budget_inv p s \<Longrightarrow> safe_limits (budget_of p) \<Longrightarrow> budget_inv p t"
proof (induction v s rule: merge_neighbours.induct)
  case (1 x y v s)
  then show ?case by (auto split: if_splits option.splits dest: budget_merge)
qed auto

lemma budget_merge_groups:
  "merge_groups vs s = Some t \<Longrightarrow> budget_inv p s \<Longrightarrow> safe_limits (budget_of p) \<Longrightarrow> budget_inv p t"
  by (induction vs arbitrary: s) (auto split: option.splits dest: budget_merge_neighbours)

lemma budget_tick_fills:
  assumes "safe_limits (budget_of p)"
  shows "budget_inv p (snd ts) \<Longrightarrow> budget_inv p (snd (fold (tick_fill P now) bs ts))"
proof (rule fold_invariant_on [where P = "\<lambda>ts. budget_inv p (snd ts)"])
  fix b and ts :: "BatchId list \<times> Impl"
  assume "budget_inv p (snd ts)"
  then show "budget_inv p (snd (tick_fill P now b ts))"
    by (cases ts) (auto simp: tick_fill_def Let_def intro!: budget_upd_batch_same budget_fill assms split: option.split)
qed

lemma budget_until_merge:
  assumes "budget_inv p s" and "safe_limits (budget_of p)"
  shows "budget_inv p (tick_until_merge P now s)"
proof -
  define s1 where "s1 = expire_locked P now s"
  define s2 where "s2 = fold (tick_form P now) (map fst (plat_bucket_iter P (im_waiting s1))) s1"
  obtain bs s3 where s3: "fold (tick_fill P now) (map snd (im_forming s2)) ([], s2) = (bs, s3)" by force
  have "budget_inv p s2" unfolding s2_def s1_def
    by (intro budget_fold budget_expire assms(1)) (simp add: tick_form_def budget_make_forming assms(2))
  then have "budget_inv p s3"
    using budget_tick_fills [OF assms(2), of "([], s2)" P now "map snd (im_forming s2)"] s3 by simp
  then have "budget_inv p (fold (tick_seal now) bs s3)"
    by (rule budget_fold) (simp add: tick_seal_def budget_seal split: option.split)
  then show ?thesis by (simp add: tick_until_merge_def s1_def [symmetric] s2_def [symmetric] s3)
qed

lemma budget_tick:
  assumes inv: "budget_inv p s" and lim: "safe_limits (budget_of p)" and str: "struct_inv s"
    and "do_tick P now s = Some t" and "spare t"
  shows "budget_inv p t"
proof -
  let ?u = "tick_until_merge P now s"
  have "spare ?u" using spare_grows [OF assms(5) grow_after_merge [OF assms(4)]] .
  then obtain v where v: "tick_merge ?u = Some v" "struct_inv v"
    using tick_merge_run [OF tick_until_merge_run [OF str]] by blast
  have "budget_inv p v"
    using v(1) budget_until_merge [OF inv lim] lim by (auto simp: tick_merge_def dest: budget_merge_groups split: if_splits)
  moreover have "t = fold tick_split [0..<length (im_sealed_order v)] v"
    using assms(4) v split_loop_total [OF own_ids_struct, of v 0] by (simp add: do_tick_def)
  ultimately show ?thesis using budget_tick_splits v(2) assms(5) by simp
qed

lemma budget_outcome: "budget_inv p s \<Longrightarrow> budget_inv p (apply_member_outcome i r aid a mc now s)"
  by (auto simp: apply_member_outcome_def apply_success_def apply_failure_def apply_terminal_def
      requeue_def record_outcome_def record_result_def set_state_def na_def Let_def
      intro!: budget split: CompletionStatus.split)

lemma budget_complete: "budget_inv p s \<Longrightarrow> budget_inv p (snd (do_complete cmp now s))"
proof -
  have m: "budget_inv p s \<Longrightarrow> budget_inv p (complete_member b now mc s)" for b mc s
    by (auto simp: complete_member_def intro!: budget budget_outcome split: option.split)
  assume "budget_inv p s"
  then have "budget_inv p (fold (complete_member b now) mcs s)" for b mcs by (rule budget_fold) (rule m)
  then show ?thesis using \<open>budget_inv p s\<close>
    by (auto simp: do_complete_def close_batch_def Let_def intro!: budget split: option.split)
qed

lemma budget_fail_members: "fail_members e now ms s = Some t \<Longrightarrow> budget_inv p s \<Longrightarrow> budget_inv p t"
  by (induction ms arbitrary: s) (auto intro: budget_outcome split: option.splits)

lemma budget_running_state: "budget_inv p s \<Longrightarrow> budget_inv p (running_state b ex now s)"
  by (auto simp: running_state_def mark_running_def begin_dispatch_def mark_dispatched_def Let_def intro!: budget)

lemma budget_dispatch_run:
  assumes "budget_inv p s" and "do_dispatch_and_run b ex now s = Some (res, t)"
  shows "budget_inv p t"
  using assms(2)
  by (cases rule: dispatch_run_cases)
    (auto intro: assms(1) budget_running_state budget_complete dest: budget_fail_members)

section \<open>Every call keeps the budgets\<close>

text \<open>A request enters with a fresh id, which no batch holds.\<close>

lemma budget_put_request:
  assumes inv: "budget_inv p s" and new: "find_request s i = None"
    and small: "\<forall>d. half_range (amount d (req_meta r))"
  shows "budget_inv p (put_request i r s)"
proof -
  have amt: "amount_in (put_request i r s) d m = amount_in s d m" if "find_request s m \<noteq> None" for d m
    using that new by (auto simp: amount_in_def)
  have "batch_in_budget (budget_of p) (put_request i r s) x" if x: "find_batch s b = Some x" for b x
  proof -
    have in_b: "batch_in_budget (budget_of p) s x" by (rule budget_batch [OF inv x])
    then have known: "\<forall>m \<in> set (bat_members x). find_request s m \<noteq> None"
      by (simp add: batch_in_budget_def within_budget_def)
    then have "usage (put_request i r s) d (bat_members x) = usage s d (bat_members x)" for d
      unfolding usage_def by (intro arg_cong [where f = sum_list] map_cong refl amt) blast
    then show ?thesis
      using in_b known by (auto simp: batch_in_budget_def within_budget_def accum_exact_def)
  qed
  then show ?thesis using inv small by (auto simp: budget_inv_def)
qed

definition small_amounts :: "RequestMetadata \<Rightarrow> bool" where
  "small_amounts meta \<longleftrightarrow> (\<forall>d. half_range (amount d meta))"

definition small_calls :: "Call \<Rightarrow> Impl \<Rightarrow> bool" where
  "small_calls c s \<longleftrightarrow> (case c of Call_submit meta _ \<Rightarrow> small_amounts meta | _ \<Rightarrow> True)"

lemma budget_submit:
  assumes inv: "budget_inv p s" and "struct_inv s" and small: "small_amounts meta"
  shows "budget_inv p (snd (do_submit meta now s))"
proof -
  have new: "find_request s (Id (im_next_request s)) = None"
    using assms(2) dense_fresh by (fastforce simp: struct_inv_def ids_inv_def)
  let ?s = "s\<lparr>im_next_request := im_next_request s + 1, im_next_attempt := im_next_attempt s + 1\<rparr>"
  have "budget_inv p ?s" using budget_prims(12) [OF budget_prims(10) [OF inv]] by simp
  then have put: "req_meta r = meta \<Longrightarrow> budget_inv p (put_attempt aid a (put_request (Id (im_next_request s)) r ?s))" for aid a r
    using new small by (intro budget_prims(2) budget_put_request) (simp_all add: small_amounts_def)
  show ?thesis
    using inv by (auto simp: do_submit_def nr_def na_def Let_def intro!: budget_prims put)
qed

lemma budget_queue: "budget_inv p s \<Longrightarrow> budget_inv p (snd (queue_retry i r num s))"
  by (auto simp: queue_retry_def na_def Let_def intro!: budget)

lemma budget_retry:
  assumes inv: "budget_inv p s" and lim: "safe_limits (budget_of p)" and str: "struct_inv s"
    and "do_retry P i now s = Some (res, t)" and sp: "spare t"
  shows "budget_inv p t"
  using assms(4)
proof (cases rule: retry_cases)
  case (2 r num)
  have "struct_inv (snd (queue_retry i r num s))"
    by (rule keep_queue [OF str 2(1) spare_grows [OF sp grow_tick [OF 2(2)]]])
  then show ?thesis using budget_tick [OF budget_queue [OF inv] lim _ 2(2) sp] by simp
qed (use inv in simp)

lemma budget_prepare: "budget_inv p s \<Longrightarrow> budget_inv p (snd (do_prepare_dispatch b w boot now s))"
  by (auto simp: do_prepare_dispatch_def mark_dispatched_def Let_def intro!: budget split: option.split)

lemma budget_register: "budget_inv p s \<Longrightarrow> budget_inv p (snd (register_worker w boot cap s))"
  by (simp add: register_worker_def Let_def budget_prims)

lemma budget_roll_epoch: "budget_inv p s \<Longrightarrow> budget_inv p (roll_epoch s)"
  by (simp add: roll_epoch_def Let_def budget_prims)

lemma budget_call:
  assumes inv: "budget_inv p s" and str: "struct_inv s" and lim: "safe_limits (budget_of p)"
    and "small_calls c s" and run: "run_call P c s = Some t" and "spare t"
  shows "budget_inv p t"
  using assms
proof (cases c)
  case (Call_merge a b reason now)
  then obtain d u where "do_merge a b s = Some (d, u)" "t = flush u"
    using run by (auto dest!: merge_state)
  then show ?thesis by (simp add: budget_prims budget_merge [OF inv lim])
next
  case (Call_retry i now)
  then obtain r u where "do_retry P i (resolve_now s now) s = Some (r, u)" "t = flush u"
    using run by (auto dest!: retry_state)
  then show ?thesis using assms(6) by (simp add: budget_prims budget_retry [OF inv lim str])
next
  case (Call_tick now)
  then obtain u where "do_tick P (resolve_now s now) s = Some u" "t = flush u"
    using run by (auto dest!: tick_state)
  then show ?thesis using assms(6) by (simp add: budget_prims budget_tick [OF inv lim str])
next
  case (Call_dispatch_and_run b ex now)
  then obtain r u where "do_dispatch_and_run b ex (resolve_now s now) s = Some (r, u)" "t = flush u"
    using run by (auto dest!: dispatch_state)
  then show ?thesis by (simp add: budget_prims budget_dispatch_run [OF inv])
qed (auto simp: submit_def cancel_def complete_def seal_state split_state prepare_dispatch_def expire_def
    small_calls_def intro!: budget_prims budget_register budget_submit budget_cancel budget_complete
      budget_seal budget_split budget_prepare budget_expire budget_roll_epoch)

lemma budget_init: "budget_inv p (Impl_init p clk sink)"
  by (simp add: budget_inv_def Impl_init_def find_request_def find_batch_def)

lemma reachable_budget:
  assumes "reachable P small_calls p s" and "safe_limits (budget_of p)"
  shows "budget_inv p s"
  using assms(1)
  by (rule reachable_invariant) (auto intro: budget_init budget_call [OF _ _ assms(2)])

section \<open>Properties\<close>



end
