(* ===== verification/Wire_Fit.thy ===== *)
theory Wire_Fit
  imports Sched_Budget Coord_Props
begin

text \<open>
  Whatever a coordinator dispatches fits the wire: requests come in over the wire, so their texts
  and enumerators fit, a batch takes its descriptor from a member, and the limit on the members of a
  batch is far below the length a dispatch message may have. The number of members is kept without
  any assumption on the amounts of the requests, because the limit on it is tested in 64 bits on
  32-bit counts.
\<close>

section \<open>The invariant\<close>

definition fit_batch :: "nat \<Rightarrow> Impl \<Rightarrow> BatchRec \<Rightarrow> bool" where
  "fit_batch n s x \<longleftrightarrow> desc_ok (bat_descriptor x) \<and> acc_count (bat_accum x) = of_nat (length (bat_members x)) \<and>
     length (bat_members x) \<le> n \<and> (\<forall>m \<in> set (bat_members x). find_request s m \<noteq> None)"

definition member_limit :: "BatchPolicy \<Rightarrow> nat" where
  "member_limit p = unat (max_requests (budget_of p))"

definition fit_inv :: "BatchPolicy \<Rightarrow> Impl \<Rightarrow> bool" where
  "fit_inv p s \<longleftrightarrow> im_policy s = p \<and> (\<forall>i r. find_request s i = Some r \<longrightarrow> meta_ok (req_meta r)) \<and>
     (\<forall>b x. find_batch s b = Some x \<longrightarrow> fit_batch (member_limit p) s x)"

lemma fit_frame:
  assumes "fit_inv p s" and "im_policy t = im_policy s" and "same_metas s t"
    and "\<And>b x. find_batch t b = Some x \<Longrightarrow> fit_batch (member_limit p) s x"
  shows "fit_inv p t"
proof -
  have m: "map_option req_meta (find_request t i) = map_option req_meta (find_request s i)" for i
    using assms(3) by (simp add: same_metas_def)
  then have "find_request t i = None \<longleftrightarrow> find_request s i = None" for i by (metis map_option_is_None)
  then have "fit_batch (member_limit p) t x = fit_batch (member_limit p) s x" for x by (simp add: fit_batch_def)
  moreover have "meta_ok (req_meta r)" if "find_request t i = Some r" for i r
    using m [of i] that assms(1) by (cases "find_request s i") (auto simp: fit_inv_def)
  ultimately show ?thesis using assms(1,2,4) by (simp add: fit_inv_def)
qed

lemma fit_batchD: "fit_inv p s \<Longrightarrow> find_batch s b = Some x \<Longrightarrow> fit_batch (member_limit p) s x"
  by (simp add: fit_inv_def)

named_theorems fit \<comment> \<open>assignments that keep what fits the wire\<close>

lemma fit_prims [fit]:
  "fit_inv p s \<Longrightarrow> fit_inv p (upd_attempt a h s)"
  "fit_inv p s \<Longrightarrow> fit_inv p (put_attempt a y s)"
  "fit_inv p s \<Longrightarrow> fit_inv p (inc k s)"
  "fit_inv p s \<Longrightarrow> fit_inv p (emit ty rr bb aa tn d s)"
  "fit_inv p s \<Longrightarrow> fit_inv p (flush s)"
  "fit_inv p s \<Longrightarrow> fit_inv p (set_forming ky b s)"
  "fit_inv p s \<Longrightarrow> fit_inv p (set_waiting w s)"
  "fit_inv p s \<Longrightarrow> fit_inv p (set_fairness q s)"
  "fit_inv p s \<Longrightarrow> fit_inv p (dec_forming_now s)"
  "fit_inv p s \<Longrightarrow> fit_inv p (s\<lparr>im_next_request := n\<rparr>)"
  "fit_inv p s \<Longrightarrow> fit_inv p (s\<lparr>im_next_batch := n\<rparr>)"
  "fit_inv p s \<Longrightarrow> fit_inv p (s\<lparr>im_next_attempt := n\<rparr>)"
  "fit_inv p s \<Longrightarrow> fit_inv p (s\<lparr>im_next_generation := n\<rparr>)"
  "fit_inv p s \<Longrightarrow> fit_inv p (s\<lparr>im_sealed_order := ord\<rparr>)"
  "fit_inv p s \<Longrightarrow> fit_inv p (s\<lparr>im_forming := fm\<rparr>)"
  "fit_inv p s \<Longrightarrow> fit_inv p (s\<lparr>im_stats := st\<rparr>)"
  "fit_inv p s \<Longrightarrow> fit_inv p (s\<lparr>im_workers := ws\<rparr>)"
  "fit_inv p s \<Longrightarrow> fit_inv p (s\<lparr>im_epoch := ep\<rparr>)"
  "fit_inv p s \<Longrightarrow> fit_inv p (s\<lparr>im_clock_now := clk\<rparr>)"
  by (simp_all add: fit_inv_def fit_batch_def)

lemma fit_request [fit]:
  assumes "fit_inv p s" and "\<And>r. req_meta (f r) = req_meta r"
  shows "fit_inv p (upd_request i f s)"
proof (rule fit_frame [OF assms(1)])
  show "same_metas s (upd_request i f s)"
    by (simp add: same_metas_def option.map_comp comp_def assms(2))
qed (use assms(1) in \<open>auto dest: fit_batchD\<close>)

lemma fit_new_request:
  assumes "fit_inv p s" and "meta_ok (req_meta r)"
  shows "fit_inv p (put_request i r s)"
  using assms by (auto simp: fit_inv_def fit_batch_def)

lemma fit_upd_batch:
  assumes "fit_inv p s" and "\<And>x. find_batch s b = Some x \<Longrightarrow> fit_batch (member_limit p) s x \<Longrightarrow> fit_batch (member_limit p) s (f x)"
  shows "fit_inv p (upd_batch b f s)"
  by (rule fit_frame [OF assms(1)])
    (use assms in \<open>auto simp: same_metas_def dest: fit_batchD split: if_splits\<close>)

lemma fit_batch_same [fit]:
  "fit_inv p s \<Longrightarrow> (\<And>x. bat_descriptor (f x) = bat_descriptor x \<and> bat_accum (f x) = bat_accum x \<and>
     bat_members (f x) = bat_members x) \<Longrightarrow> fit_inv p (upd_batch b f s)"
  by (rule fit_upd_batch) (simp_all add: fit_batch_def)

lemma fit_put_batch:
  assumes "fit_inv p s" and "fit_batch (member_limit p) s x"
  shows "fit_inv p (put_batch b x s)"
  by (rule fit_frame [OF assms(1)])
    (use assms in \<open>auto simp: same_metas_def dest: fit_batchD split: if_splits\<close>)

lemma fit_requests [fit]:
  "fit_inv p s \<Longrightarrow> (\<And>r. req_meta (f r) = req_meta r) \<Longrightarrow> fit_inv p (upd_requests ms f s)"
  unfolding upd_requests_def by (rule fold_invariant_on [where P = "fit_inv p"]) (simp_all add: fit_request)

lemma fit_advance [fit]: "fit_inv p s \<Longrightarrow> fit_inv p (advance_members st st' ms s)"
  unfolding advance_members_def by (rule fit_requests) simp_all

lemma fit_assign [fit]: "fit_inv p s \<Longrightarrow> fit_inv p (assign_batch b ms s)"
  unfolding assign_batch_def by (rule fit_requests) simp_all

lemma default_fits: "fit_batch n s default_batch"
  by (simp add: fit_batch_def default_batch_def empty_accum_def default_desc_ok)

lemma at_batch_fits: "fit_inv p s \<Longrightarrow> fit_batch (member_limit p) s (at_batch s b)"
  using fit_batchD default_fits by (cases "find_batch s b") (auto simp: at_find)

section \<open>Members\<close>

lemma recompute_fits:
  assumes "desc_ok (bat_descriptor x)" and "length (bat_members x) \<le> n"
    and "\<forall>m \<in> set (bat_members x). find_request s m \<noteq> None" and "\<And>i r. find_request s i = Some r \<Longrightarrow> meta_ok (req_meta r)"
  shows "fit_batch n s (recompute_accum s x)"
proof -
  have "bat_accum (recompute_accum s x) = fold (\<lambda>m a. case find_request s m of None \<Rightarrow> a
      | Some r \<Rightarrow> add_usage r (a\<lparr>acc_count := acc_count a + 1\<rparr>)) (bat_members x) empty_accum"
    by (simp add: recompute_accum_def Let_def split: option.split)
  moreover have "desc_ok (bat_descriptor (recompute_accum s x))"
    using assms(1,4) by (auto simp: recompute_accum_def Let_def meta_ok_def split: option.split)
  ultimately show ?thesis
    using assms(2,3) accum_fold [OF assms(3), of empty_accum] by (simp add: fit_batch_def)
qed

lemma count_fits:
  assumes "allows_add B c1 a b c d c2 a' b' c' d'" and "max_requests B \<noteq> 0"
  shows "unat c1 + unat c2 \<le> unat (max_requests B)"
proof -
  have "(ucast c1 :: u64) + ucast c2 \<le> ucast (max_requests B)"
    using assms by (auto simp: allows_add_def Let_def not_less split: if_splits)
  then show ?thesis by (simp add: word_le_nat_alt unat_count)
qed

lemma join_fits:
  assumes x: "fit_batch n s x" and r: "find_request s i = Some r" "meta_ok (req_meta r)"
    and "fits (to_former_batch x) (to_candidate i r) B" and B: "max_requests B \<noteq> 0" "n = unat (max_requests B)"
  shows "fit_batch n s (join_batch i r x)"
proof -
  have "unat (acc_count (bat_accum x)) + 1 \<le> n"
    using count_fits [OF assms(4) [unfolded fits_def] B(1)] B(2) by (simp add: to_former_batch_def)
  moreover have "unat (max_requests B) < 2 ^ 32" using unsigned_less [of "max_requests B"] by simp
  then have "unat (acc_count (bat_accum x)) = length (bat_members x)"
    using x B(2) by (auto simp: fit_batch_def unat_of_nat)
  ultimately show ?thesis
    using x r by (auto simp: fit_batch_def join_batch_def Let_def meta_ok_def)
qed

section \<open>The handlers\<close>

text \<open>A limit on the members that is set, and small enough for sums of two counts and for a message.\<close>

definition small_limit :: "BatchPolicy \<Rightarrow> bool" where
  "small_limit p \<longleftrightarrow> max_requests (budget_of p) \<noteq> 0 \<and> member_limit p \<le> 2 ^ 20"

lemma fit_add_member:
  assumes "fit_inv p s" and "small_limit p" and "may_join s (at_batch s b) now i r" and r: "find_request s i = Some r"
  shows "fit_inv p (add_member_to_batch b i s)"
proof -
  have "fits (to_former_batch (at_batch s b)) (to_candidate i r) (budget_of p)"
    using assms(1,3) by (simp add: may_join_def fit_inv_def budget_of_def)
  moreover have "meta_ok (req_meta r)" using assms(1) r by (simp add: fit_inv_def)
  ultimately have "fit_inv p (upd_batch b (join_batch i r) s)"
    using assms(2) r join_fits by (intro fit_upd_batch [OF assms(1)]) (auto simp: at_find small_limit_def member_limit_def)
  then show ?thesis by (simp add: add_member_to_batch_def r fit)
qed

lemma fit_fill:
  assumes "fit_inv p s" and "small_limit p"
  shows "fit_inv p (fill_forming P b k now s)"
proof -
  have "fit_inv p (fill_loop P b k now cs s)" for cs
    by (rule fill_loop_rule [where I = "\<lambda>_. fit_inv p"])
      (auto intro: assms fit_prims fit_add_member [OF _ assms(2)])
  then show ?thesis using assms(1) by (simp add: fill_forming_def split: option.split)
qed

lemma forming_record_fits: "fit_batch n s (at_batch s b) \<Longrightarrow> fit_batch n s (forming_record b g k now s)"
  by (auto simp: fit_batch_def forming_record_def Let_def split: option.split list.split)

lemma fit_make_forming: "fit_inv p s \<Longrightarrow> small_limit p \<Longrightarrow> fit_inv p (make_forming P k now s)"
  unfolding make_forming_def open_forming_def settle_forming_def nb_def ng_def Let_def prod.case
  by (intro fit_batch_same fit_fill fit_prims fit_put_batch forming_record_fits at_batch_fits) simp_all

lemma fit_seal: "fit_inv p s \<Longrightarrow> fit_inv p (snd (do_seal b why now s))"
  by (auto simp: do_seal_def Let_def intro!: fit split: option.split)

lemma fit_terminal: "fit_inv p s \<Longrightarrow> fit_inv p (complete_request_terminal i oc st now s)"
  by (auto simp: complete_request_terminal_def Let_def intro!: fit split: option.split)

text \<open>Members are exchanged and the sums formed anew.\<close>

lemma fit_regroup:
  assumes inv: "fit_inv p s"
    and "\<And>x. find_batch s b = Some x \<Longrightarrow> fit_batch (member_limit p) s x \<Longrightarrow> desc_ok (bat_descriptor (f x)) \<and>
      length (bat_members (f x)) \<le> member_limit p \<and> (\<forall>m \<in> set (bat_members (f x)). find_request s m \<noteq> None)"
  shows "fit_inv p (recompute b (upd_batch b f s))"
proof (rule fit_frame [OF inv])
  show "same_metas s (recompute b (upd_batch b f s))" by (simp add: same_metas_def recompute_def)
  have r: "recompute_accum (upd_batch b f s) = recompute_accum s"
    by (intro ext) (simp add: recompute_accum_def Let_def)
  show "fit_batch (member_limit p) s x" if "find_batch (recompute b (upd_batch b f s)) c = Some x" for c x
    using that assms fit_batchD [OF inv]
    by (auto simp: recompute_def r fit_inv_def intro!: recompute_fits split: if_splits)
qed (simp add: recompute_def)

lemma fit_remove_member: "fit_inv p s \<Longrightarrow> fit_inv p (remove_member i b now s)"
  unfolding remove_member_def Let_def
  by (intro fit_batch_same fit_regroup) (auto simp: fit_batch_def intro: le_trans [OF length_removeAll_less_eq])

lemma fit_cancel: "fit_inv p s \<Longrightarrow> fit_inv p (snd (do_cancel i reason now s))"
  by (auto simp: do_cancel_def Let_def intro!: fit fit_remove_member split: option.split)

lemma fit_fold: "fit_inv p s \<Longrightarrow> (\<And>x s. fit_inv p s \<Longrightarrow> fit_inv p (f x s)) \<Longrightarrow> fit_inv p (fold f xs s)"
  by (rule fold_invariant_on [where P = "fit_inv p"])

lemma fit_expire: "fit_inv p s \<Longrightarrow> fit_inv p (expire_locked P now s)"
  unfolding expire_locked_def Let_def
  by (intro fit_fold)
    (auto simp: expire_waiting_def expire_member_def intro!: fit_terminal fit_cancel fit split: option.split)

lemma merged_fits:
  assumes x: "fit_batch n s x" and y: "fit_batch n s y" and "can_merge p x y" and lim: "small_limit p"
    and n: "n = member_limit p"
  shows "length (bat_members x) + length (bat_members y) \<le> n"
proof -
  have small: "length (bat_members x) + length (bat_members y) < 2 ^ 32"
    using x y lim n by (simp add: fit_batch_def small_limit_def)
  have "acc_count (bat_accum x) + acc_count (bat_accum y) = of_nat (length (bat_members x) + length (bat_members y))"
    using x y by (simp add: fit_batch_def)
  then have "unat (acc_count (bat_accum x) + acc_count (bat_accum y)) = length (bat_members x) + length (bat_members y)"
    using small by (simp add: unat_of_nat del: of_nat_add)
  moreover have "unat (0 :: u32) + unat (acc_count (bat_accum x) + acc_count (bat_accum y)) \<le> n"
    using assms(3) lim unfolding n member_limit_def
    by (intro count_fits) (auto simp: can_merge_def budget_of_def small_limit_def split: if_splits)
  ultimately show ?thesis by simp
qed

lemma fit_merge:
  assumes inv: "fit_inv p s" and lim: "small_limit p" and "do_merge a b s = Some (c, t)"
  shows "fit_inv p t"
proof (cases "\<exists>x y. find_batch s a = Some x \<and> find_batch s b = Some y \<and> can_merge (im_policy s) x y")
  case False
  with assms(3) have "t = s" by (auto simp: do_merge_def split: option.splits if_splits)
  with inv show ?thesis by simp
next
  case True
  then obtain x y where xy: "find_batch s a = Some x" "find_batch s b = Some y" "can_merge (im_policy s) x y" by blast
  let ?s = "assign_batch a (bat_members y) s"
  have both: "fit_batch (member_limit p) s x" "fit_batch (member_limit p) s y" using inv xy by (auto dest: fit_batchD)
  then have "length (bat_members x) + length (bat_members y) \<le> member_limit p"
    using merged_fits xy(3) lim inv by (simp add: fit_inv_def)
  then have "fit_inv p (recompute a (upd_batch a (\<lambda>a. a\<lparr>bat_members := bat_members a @ bat_members y,
      bat_parents := bat_parents a @ bat_parents y @ [b], bat_children := bat_children a @ bat_children y\<rparr>) ?s))"
    using xy(1) both by (intro fit_regroup fit_assign inv) (auto simp: fit_batch_def)
  then show ?thesis
    using assms(3) xy by (auto simp: do_merge_def Let_def intro!: fit split: if_splits)
qed

section \<open>Splits and the tick\<close>

lemma fit_batch_find: "find_request t = find_request s \<Longrightarrow> fit_batch n t = fit_batch n s"
  by (simp add: fit_batch_def fun_eq_iff)

lemma fit_parts:
  assumes "fit_batch n s x"
  shows "length (take k (bat_members x)) \<le> n" and "length (drop k (bat_members x)) \<le> n"
    and "\<forall>m \<in> set (take k (bat_members x)). find_request s m \<noteq> None"
    and "\<forall>m \<in> set (drop k (bat_members x)). find_request s m \<noteq> None"
  using assms by (auto simp: fit_batch_def dest: in_set_takeD in_set_dropD)

lemma recompute_fits_of:
  assumes "same_metas s u" and "fit_inv p s" and "desc_ok (bat_descriptor x)" and "length (bat_members x) \<le> member_limit p"
    and "\<forall>m \<in> set (bat_members x). find_request s m \<noteq> None"
  shows "fit_batch (member_limit p) s (recompute_accum u x)"
proof -
  have m: "map_option req_meta (find_request u i) = map_option req_meta (find_request s i)" for i
    using assms(1) by (simp add: same_metas_def)
  then have k: "find_request u i = None \<longleftrightarrow> find_request s i = None" for i by (metis map_option_is_None)
  then have "fit_batch (member_limit p) u = fit_batch (member_limit p) s" by (simp add: fit_batch_def fun_eq_iff)
  moreover have "meta_ok (req_meta r)" if "find_request u i = Some r" for i r
    using m [of i] that assms(2) by (cases "find_request s i") (auto simp: fit_inv_def)
  ultimately show ?thesis using recompute_fits [of x "member_limit p" u] assms(3-5) k by simp
qed

lemma fit_split_child:
  assumes inv: "fit_inv p s" and str: "struct_inv s" and x: "find_batch s b = Some x"
  shows "fit_inv p (snd (split_child b x s))"
proof (rule fit_frame [OF inv])
  have new: "find_batch s (Id (im_next_batch s)) = None" by (rule struct_fresh_batch [OF str])
  have f: "fit_batch (member_limit p) s x" by (rule fit_batchD [OF inv x])
  then have "desc_ok (bat_descriptor x)" "length (bat_members x) div 2 \<le> member_limit p"
    by (auto simp: fit_batch_def)
  then show "fit_batch (member_limit p) s y" if "find_batch (snd (split_child b x s)) c = Some y" for c y
    using that new x fit_parts [OF f] fit_batchD [OF inv]
    by (auto simp: split_child_def nb_def Let_def at_find same_metas_def option.map_comp comp_def copy_lineage_def
        intro!: recompute_fits_of [OF _ inv] split: if_splits)
  show "same_metas s (snd (split_child b x s))"
    by (simp add: same_metas_def split_child_def nb_def Let_def option.map_comp comp_def)
qed (simp add: split_child_def nb_def Let_def recompute_def)

lemma fit_put_recompute:
  assumes inv: "fit_inv p s" and "desc_ok (bat_descriptor x)" and "length (bat_members x) \<le> member_limit p"
    and "\<forall>m \<in> set (bat_members x). find_request s m \<noteq> None"
  shows "fit_inv p (recompute b (put_batch b x s))"
proof (rule fit_frame [OF inv])
  show "fit_batch (member_limit p) s y" if "find_batch (recompute b (put_batch b x s)) c = Some y" for c y
    using that assms fit_batchD [OF inv]
    by (auto intro!: recompute_fits_of [OF _ inv] simp: same_metas_def split: if_splits)
qed (simp_all add: recompute_def same_metas_def)

lemma fit_resealed:
  assumes inv: "fit_inv p s" and "length ms \<le> member_limit p" and "\<forall>m \<in> set ms. find_request s m \<noteq> None"
  shows "fit_inv p (split_resealed b c ms why s)"
proof -
  have put: "fit_inv p (recompute f (put_batch f x u))"
    if "fit_inv p u" "find_request u = find_request s" "bat_members x = ms" "desc_ok (bat_descriptor x)" for f x u
    using that assms(2,3) by (intro fit_put_recompute) simp_all
  have desc: "desc_ok (bat_descriptor (at_batch u d))" if "fit_inv p u" for u d
    using at_batch_fits [OF that] by (simp add: fit_batch_def)
  show ?thesis
    unfolding split_resealed_def nb_def Let_def prod.case
    by (rule fit_prims(4), rule fit_prims(4), rule fit_batch_same, rule fit_batch_same, rule fit_prims(14),
      rule put, rule fit_prims(11), rule fit_batch_same, rule fit_prims(14), rule inv)
      (simp_all add: copy_lineage_def desc fit_batch_same fit_prims inv)
qed

lemma fit_split:
  assumes inv: "fit_inv p s" and str: "struct_inv s"
  shows "fit_inv p (snd (do_split b why s))"
proof (cases "find_batch s b")
  case (Some x)
  obtain c t where t: "split_child b x s = (c, t)" by force
  have ft: "fit_inv p t" using fit_split_child [OF inv str Some] t by simp
  have "map_option req_meta (find_request t i) = map_option req_meta (find_request s i)" for i
    using t by (auto simp: split_child_def nb_def Let_def option.map_comp comp_def)
  then have "find_request t i = None \<longleftrightarrow> find_request s i = None" for i by (metis map_option_is_None)
  then have "fit_inv p (split_resealed b c (take n (bat_members x)) why t)" for n
    using fit_parts [OF fit_batchD [OF inv Some]] by (intro fit_resealed ft) simp_all
  then show ?thesis
    using inv ft by (auto simp: do_split_def Some t Let_def intro!: fit_prims)
qed (use inv in \<open>simp add: do_split_def\<close>)

lemma fit_tick_splits:
  "struct_inv s \<Longrightarrow> spare (fold tick_split is s) \<Longrightarrow> fit_inv p s \<Longrightarrow> fit_inv p (fold tick_split is s)"
proof (induction "is" arbitrary: s)
  case (Cons i "is")
  then have "spare (tick_split i s)" using grow_fold [of tick_split] grow_tick_split spare_grows by auto
  moreover have "fit_inv p (tick_split i s)"
    using Cons.prems by (simp add: tick_split_def Let_def fit_split split: option.split)
  ultimately show ?case using Cons keep_tick_split by simp
qed simp

lemma fit_merge_neighbours: "merge_neighbours v s = Some t \<Longrightarrow> fit_inv p s \<Longrightarrow> small_limit p \<Longrightarrow> fit_inv p t"
proof (induction v s rule: merge_neighbours.induct)
  case (1 x y v s)
  then show ?case by (auto split: if_splits option.splits dest: fit_merge)
qed auto

lemma fit_merge_groups: "merge_groups vs s = Some t \<Longrightarrow> fit_inv p s \<Longrightarrow> small_limit p \<Longrightarrow> fit_inv p t"
  by (induction vs arbitrary: s) (auto split: option.splits dest: fit_merge_neighbours)

lemma fit_tick_fills:
  assumes "small_limit p"
  shows "fit_inv p (snd ts) \<Longrightarrow> fit_inv p (snd (fold (tick_fill P now) bs ts))"
proof (rule fold_invariant_on [where P = "\<lambda>ts. fit_inv p (snd ts)"])
  fix b and ts :: "BatchId list \<times> Impl"
  assume "fit_inv p (snd ts)"
  then show "fit_inv p (snd (tick_fill P now b ts))"
    by (cases ts) (auto simp: tick_fill_def Let_def intro!: fit_batch_same fit_fill assms split: option.split)
qed

lemma fit_until_merge:
  assumes "fit_inv p s" and "small_limit p"
  shows "fit_inv p (tick_until_merge P now s)"
proof -
  define s1 where "s1 = expire_locked P now s"
  define s2 where "s2 = fold (tick_form P now) (map fst (plat_bucket_iter P (im_waiting s1))) s1"
  obtain bs s3 where s3: "fold (tick_fill P now) (map snd (im_forming s2)) ([], s2) = (bs, s3)" by force
  have "fit_inv p s2" unfolding s2_def s1_def
    by (intro fit_fold fit_expire assms(1)) (simp add: tick_form_def fit_make_forming assms(2))
  then have "fit_inv p s3"
    using fit_tick_fills [OF assms(2), of "([], s2)" P now "map snd (im_forming s2)"] s3 by simp
  then have "fit_inv p (fold (tick_seal now) bs s3)"
    by (rule fit_fold) (simp add: tick_seal_def fit_seal split: option.split)
  then show ?thesis by (simp add: tick_until_merge_def s1_def [symmetric] s2_def [symmetric] s3)
qed

lemma fit_tick:
  assumes inv: "fit_inv p s" and lim: "small_limit p" and str: "struct_inv s"
    and "do_tick P now s = Some t" and "spare t"
  shows "fit_inv p t"
proof -
  let ?u = "tick_until_merge P now s"
  have "spare ?u" using spare_grows [OF assms(5) grow_after_merge [OF assms(4)]] .
  then obtain v where v: "tick_merge ?u = Some v" "struct_inv v"
    using tick_merge_run [OF tick_until_merge_run [OF str]] by blast
  have "fit_inv p v"
    using v(1) fit_until_merge [OF inv lim] lim by (auto simp: tick_merge_def dest: fit_merge_groups split: if_splits)
  moreover have "t = fold tick_split [0..<length (im_sealed_order v)] v"
    using assms(4) v split_loop_total [OF own_ids_struct, of v 0] by (simp add: do_tick_def)
  ultimately show ?thesis using fit_tick_splits v(2) assms(5) by simp
qed

section \<open>The coordinator's calls\<close>

lemma fit_complete: "fit_inv p s \<Longrightarrow> fit_inv p (snd (do_complete cmp now s))"
proof -
  have "fit_inv p s \<Longrightarrow> fit_inv p (apply_member_outcome i r aid a mc now s)" for i r aid a mc s
    by (auto simp: apply_member_outcome_def apply_success_def apply_failure_def apply_terminal_def
        requeue_def record_outcome_def record_result_def set_state_def na_def Let_def
        intro!: fit split: CompletionStatus.split)
  then have m: "fit_inv p s \<Longrightarrow> fit_inv p (complete_member b now mc s)" for b mc s
    by (auto simp: complete_member_def intro!: fit split: option.split)
  assume "fit_inv p s"
  then have "fit_inv p (fold (complete_member b now) mcs s)" for b mcs by (rule fit_fold) (rule m)
  then show ?thesis using \<open>fit_inv p s\<close>
    by (auto simp: do_complete_def close_batch_def Let_def intro!: fit split: option.split)
qed

lemma fit_submit: "fit_inv p s \<Longrightarrow> meta_ok meta \<Longrightarrow> fit_inv p (snd (do_submit meta now s))"
  by (auto simp: do_submit_def nr_def na_def Let_def intro!: fit_prims fit_new_request)

lemma fit_prepare: "fit_inv p s \<Longrightarrow> fit_inv p (snd (do_prepare_dispatch b w boot now s))"
  by (auto simp: do_prepare_dispatch_def mark_dispatched_def Let_def intro!: fit split: option.split)

lemma fit_own_call:
  assumes inv: "fit_inv p s" and str: "struct_inv s" and lim: "small_limit p"
    and "own_call c" and run: "run_call P c s = Some t" and "spare t"
  shows "fit_inv p t"
proof (cases c)
  case (Call_tick now)
  then obtain u where "do_tick P (resolve_now s now) s = Some u" "t = flush u"
    using run by (auto dest!: tick_state)
  then show ?thesis using assms(6) by (simp add: fit_prims fit_tick [OF inv lim str])
qed (use assms in \<open>auto simp: own_call_def submit_def cancel_def prepare_dispatch_def register_worker_def roll_epoch_def
    Let_def intro!: fit_prims fit_submit fit_cancel fit_prepare\<close>)

lemma fit_init: "fit_inv p (Impl_init p clk sink)"
  by (simp add: fit_inv_def Impl_init_def find_request_def find_batch_def)

text \<open>What is handed out fits a dispatch message.\<close>

lemma prepared_fits:
  assumes inv: "fit_inv p s" and lim: "small_limit p" and "prepare_dispatch b w boot now s = (Inr ex, t)"
  shows "exec_ok ex"
proof -
  obtain x where x: "find_batch s b = Some x"
    and ex: "ex = build_execution (mark_dispatched b w boot (resolve_now s now) s)
      (at_batch (mark_dispatched b w boot (resolve_now s now) s) b)"
    using assms(3) by (auto simp: prepare_dispatch_def do_prepare_dispatch_def Let_def split: option.splits if_splits)
  define u where "u = mark_dispatched b w boot (resolve_now s now) s"
  have u: "fit_inv p u" unfolding u_def mark_dispatched_def Let_def by (intro fit_advance fit_batch_same inv) simp
  obtain y where y: "find_batch u b = Some y" using x by (simp add: u_def mark_dispatched_view [OF x])
  have fit: "fit_batch (member_limit p) u y" by (rule fit_batchD [OF u y])
  have "length (List.map_filter (member_work u) (bat_members y)) \<le> member_limit p"
    using fit by (simp add: fit_batch_def List.map_filter_def) (metis le_trans length_filter_le)
  moreover have "member_work_ok m" if "m \<in> set (List.map_filter (member_work u) (bat_members y))" for m
    using that u by (auto simp: List.map_filter_def member_work_def member_work_ok_def fit_inv_def meta_ok_def)
  ultimately show ?thesis
    using fit lim by (auto simp: ex u_def [symmetric] at_find y build_execution_def exec_ok_def fit_batch_def small_limit_def)
qed

end
