(* ===== verification/Cluster.thy ===== *)
theory Cluster
  imports Round_Trip Place_Props Handed Wire_Fit
begin

text \<open>
  The whole system: one coordinator, workers that run \<open>worker.cpp\<close> with the CPU executor, drivers
  that send what they like except reports, and a network that may lose, delay, repeat and reorder
  what the coordinator has sent. The reports of such workers are always complete, so that the
  coordinator is an orderly caller of its scheduler.
\<close>

section \<open>Executions that have been handed out\<close>

definition handed_ok :: "Impl \<Rightarrow> BatchExecution \<Rightarrow> bool" where
  "handed_ok s ex \<longleftrightarrow> (\<exists>x. find_batch s (ex_batch ex) = Some x \<and> handed_state (bat_state x) \<and>
     (bat_state x = BS_dispatched \<longrightarrow> map mw_request (ex_members ex) = bat_members x)) \<and>
     (\<forall>x. find_batch s (ex_batch ex) = Some x \<longrightarrow> bat_state x = BS_dispatched \<longrightarrow> (\<forall>m \<in> set (ex_members ex).
        \<exists>r. find_request s (mw_request m) = Some r \<and> req_current_attempt r = mw_attempt m))"

lemma handed_same:
  "handed_ok s ex \<Longrightarrow> find_request t = find_request s \<Longrightarrow> find_batch t = find_batch s \<Longrightarrow> handed_ok t ex"
  by (simp add: handed_ok_def)

lemma handed_rests:
  assumes "handed_ok s ex" and "rests D s t"
    and "\<And>y m. find_batch t (ex_batch ex) = Some y \<Longrightarrow> bat_state y = BS_dispatched \<Longrightarrow> m \<in> set (ex_members ex) \<Longrightarrow>
      mw_request m \<notin> D"
  shows "handed_ok t ex"
proof -
  obtain x where x: "find_batch s (ex_batch ex) = Some x" "handed_state (bat_state x)"
    "bat_state x = BS_dispatched \<longrightarrow> map mw_request (ex_members ex) = bat_members x"
    using assms(1) by (auto simp: handed_ok_def)
  then obtain y where y: "find_batch t (ex_batch ex) = Some y" "same_work x y"
    using assms(2) unfolding rests_def by blast
  have "\<exists>r. find_request t (mw_request m) = Some r \<and> req_current_attempt r = mw_attempt m"
    if st: "bat_state y = BS_dispatched" and m: "m \<in> set (ex_members ex)" for m
  proof -
    have "bat_state x = BS_dispatched" using y(2) st by (simp add: same_work_def)
    then obtain r where "find_request s (mw_request m) = Some r" "req_current_attempt r = mw_attempt m"
      using assms(1) x(1) m by (auto simp: handed_ok_def)
    then show ?thesis using assms(2) assms(3) [OF y(1) st m] unfolding rests_def by metis
  qed
  then show ?thesis using x y by (auto simp: handed_ok_def same_work_def)
qed

lemma handed_prepared:
  assumes "struct_inv s" and "prepare_dispatch b w boot now s = (Inr ex, t)"
  shows "handed_ok t ex"
proof -
  obtain u where pd: "do_prepare_dispatch b w boot (resolve_now s now) s = (Inr ex, u)" and t: "t = flush u"
    using assms(2) by (cases "do_prepare_dispatch b w boot (resolve_now s now) s") (simp add: prepare_dispatch_def)
  show ?thesis
    using prepare_facts [OF assms(1) pd] prepare_frame [OF pd]
    by (fastforce simp: handed_ok_def handed_state_def t)
qed

definition honest_report :: "BatchExecution \<Rightarrow> BatchCompletion \<Rightarrow> bool" where
  "honest_report ex cmp \<longleftrightarrow> (\<exists>w boot. cmp = worker_completion w boot ex (cpu_execute ex))"

lemma honest_fields:
  assumes "honest_report ex cmp"
  shows "comp_batch cmp = ex_batch ex" and "mc_request ` set (comp_members cmp) = mw_request ` set (ex_members ex)"
  using assms by (auto simp: honest_report_def worker_completion_def cpu_execute_def succeeded_member_def
      image_image)

lemma honest_full:
  assumes "honest_report ex cmp" and "handed_ok s ex" and "find_batch s (ex_batch ex) = Some x"
    and "bat_state x = BS_dispatched"
  shows "full_report s (bat_members x) (comp_members cmp)"
proof -
  have ms: "set (bat_members x) = mw_request ` set (ex_members ex)"
    using assms(2-4) by (auto simp: handed_ok_def simp flip: set_map)
  have mc: "set (comp_members cmp) = (\<lambda>m. succeeded_member (cpu_member m)) ` set (ex_members ex)"
    using assms(1) by (auto simp: honest_report_def worker_completion_def cpu_execute_def)
  show ?thesis
    using assms(2-4) unfolding full_report_def ms mc
    by (auto simp: handed_ok_def succeeded_member_def decisive_def)
qed

section \<open>The coordinator's calls are orderly\<close>

lemma reachable_forming:
  assumes "reachable P ok p s"
  shows "std_ok (im_forming s)"
  using assms
proof (rule reachable_invariant)
  show "std_ok (im_forming (Impl_init p clk sink))" for clk sink by (simp add: Impl_init_def)
  show "std_ok (im_forming t)" if "struct_inv s" "std_ok (im_forming s)" "run_call P c s = Some t" for s c t
    using that forming.i_call by blast
qed

lemma own_orderly: "own_call c \<Longrightarrow> orderly c s"
  by (cases c) (simp_all add: own_call_def orderly_def)

lemma own_reachable:
  assumes "driven own_call P s t" and "spare t" and "reachable P orderly p s"
  shows "reachable P orderly p t \<and> rests {} s t \<and> (small_limit p \<longrightarrow> fit_inv p s \<longrightarrow> fit_inv p t)"
proof -
  have "list_all own_call cs \<Longrightarrow> run_calls P cs s = Some t \<Longrightarrow> reachable P orderly p s \<Longrightarrow>
      reachable P orderly p t \<and> rests {} s t \<and> (small_limit p \<longrightarrow> fit_inv p s \<longrightarrow> fit_inv p t)" for cs
  proof (induction cs arbitrary: s)
    case (Cons c cs)
    then obtain u where u: "run_call P c s = Some u" "run_calls P cs u = Some t" "own_call c" "list_all own_call cs"
      by (auto split: option.splits)
    have "driven own_call P u t" using u(2,4) by (auto simp: driven_def)
    then have sp: "spare u" using grow_driven driven_wire spare_grows assms(2) by blast
    have "reachable P orderly p u"
      using reach_step [OF Cons.prems(3) own_orderly [OF u(3)] u(1) sp] .
    moreover have "rests (reported c) s u"
      by (rule rest_call [OF reachable_struct [OF Cons.prems(3)] reachable_forming [OF Cons.prems(3)] u(1) sp])
        (use u(3) in \<open>auto simp: own_call_def\<close>)
    moreover have "reported c = {}" using u(3) by (cases c) (simp_all add: own_call_def)
    moreover have "fit_inv p u" if "small_limit p" "fit_inv p s"
      by (rule fit_own_call [OF that(2) reachable_struct [OF Cons.prems(3)] that(1) u(3,1) sp])
    ultimately show ?case using Cons.IH [OF u(4) u(2)] by (auto intro: rests_trans)
  qed simp
  then show ?thesis using assms(1,3) by (auto simp: driven_def)
qed

text \<open>An honest report, and what it leaves of the executions that are still out.\<close>

lemma report_closes:
  assumes "completion_current s cmp"
  shows "\<exists>y. find_batch (snd (do_complete cmp now s)) (comp_batch cmp) = Some y \<and> bat_state y \<noteq> BS_dispatched"
proof -
  obtain x where x: "find_batch s (comp_batch cmp) = Some x" using assms by (auto simp: completion_current_def)
  obtain y where "find_batch (fold (complete_member (comp_batch cmp) now) (comp_members cmp) s) (comp_batch cmp) = Some y"
    using same_batches_find [OF same_batches_members x] .
  then show ?thesis by (simp add: complete_current [OF assms] close_batch_def)
qed

lemma handed_after_report:
  assumes R: "reachable P orderly p s" and rep: "honest_report ex cmp" "handed_ok s ex" and ok: "handed_ok s ex'"
  shows "handed_ok (snd (do_complete cmp now s)) ex'"
proof (cases "completion_current s cmp")
  case False
  show ?thesis by (rule handed_same [OF ok]) (use complete_stale(2) [OF False, of now] in auto)
next
  case True
  then obtain x where x: "find_batch s (ex_batch ex) = Some x" "bat_state x = BS_dispatched"
    using rep honest_fields(1) [OF rep(1)] by (auto simp: completion_current_def handed_ok_def handed_state_def)
  show ?thesis
  proof (rule handed_rests [OF ok rest_complete])
    fix y m
    assume y: "find_batch (snd (do_complete cmp now s)) (ex_batch ex') = Some y" "bat_state y = BS_dispatched"
      and m: "m \<in> set (ex_members ex')"
    then have other: "ex_batch ex' \<noteq> ex_batch ex"
      using report_closes [OF True, of now] honest_fields(1) [OF rep(1)] by auto
    obtain z where z: "find_batch s (ex_batch ex') = Some z" "handed_state (bat_state z)"
      "bat_state z = BS_dispatched \<longrightarrow> map mw_request (ex_members ex') = bat_members z"
      using ok by (auto simp: handed_ok_def)
    then have "same_work z y" using rest_complete [of cmp s now] y(1) unfolding rests_def by fastforce
    then have "bat_state z = BS_dispatched" using y(2) by (simp add: same_work_def)
    then have "mw_request m \<in> set (cells {} s (ex_batch ex'))"
      using z m by (simp add: cells_def) (metis imageI list.set_map)
    moreover have "set (cells {} s (ex_batch ex)) = mw_request ` set (ex_members ex)"
      using x rep(2) by (auto simp: cells_def handed_ok_def simp flip: set_map)
    ultimately show "mw_request m \<notin> mc_request ` set (comp_members cmp)"
      using placed_sole [OF reachable_placed [OF R]] other honest_fields(2) [OF rep(1)] by blast
  qed
qed

section \<open>Runs of the system\<close>

text \<open>
  \<open>W\<close> holds the frames the coordinator has sent. A report that reaches the coordinator is the answer
  of some worker to one of them; all other messages are arbitrary.
\<close>

definition honest :: "FrameMessage set \<Rightarrow> CoordEvent \<Rightarrow> bool" where
  "honest W e \<longleftrightarrow> (\<forall>ch m t. e = Ev_message ch m t \<longrightarrow> fm_type m = MT_complete \<longrightarrow>
     (\<exists>f \<in> W. \<exists>w boot cap. worker_message w boot (CpuExecutor cap) f = Worker_answer m))"

inductive cluster :: "Platform \<Rightarrow> Coord \<Rightarrow> FrameMessage set \<Rightarrow> bool" for P where
  cluster_start: "cluster P (coord_init t) {}"
| cluster_step: "cluster P c W \<Longrightarrow> event_ok e c \<Longrightarrow> honest W e \<Longrightarrow> coord_event P e c = Some (out, c') \<Longrightarrow>
    spare (co_fabric c') \<Longrightarrow> cluster P c' (W \<union> snd ` set out)"

lemma coord_limit: "small_limit coord_policy"
  by (simp add: small_limit_def member_limit_def budget_of_def coord_policy_def Let_def)

definition wire_inv :: "Impl \<Rightarrow> FrameMessage set \<Rightarrow> bool" where
  "wire_inv s W \<longleftrightarrow> (\<forall>f \<in> W. fm_type f = MT_dispatch \<longrightarrow>
     (\<exists>ex. f = dispatch_frame ex \<and> exec_ok ex \<and> handed_ok s ex))"

definition system_inv :: "Platform \<Rightarrow> Impl \<Rightarrow> FrameMessage set \<Rightarrow> bool" where
  "system_inv P s W \<longleftrightarrow> reachable P orderly coord_policy s \<and> fit_inv coord_policy s \<and> wire_inv s W"

lemma worker_reports:
  assumes "worker_message w boot (CpuExecutor cap) f = Worker_answer m" and "f \<in> W" and "wire_inv s W"
  shows "\<exists>ex wc. f = dispatch_frame ex \<and> exec_ok ex \<and> handed_ok s ex \<and>
    decode_complete (fm_body m) = Some wc \<and> wc_completion wc = worker_completion w boot ex (cpu_execute ex)"
proof -
  have "fm_type f = MT_dispatch" using assms(1) by (auto simp: worker_message_def split: if_splits)
  then obtain ex where ex: "f = dispatch_frame ex" "exec_ok ex" "handed_ok s ex"
    using assms(2,3) by (auto simp: wire_inv_def)
  let ?wc = "\<lparr>wc_completion = worker_completion w boot ex (cpu_execute ex)\<rparr>"
  have "m = \<lparr>fm_type = MT_complete, fm_body = encode_complete ?wc\<rparr>"
    using assms(1) worker_answers [OF ex(2), of w boot cap] by (simp add: ex(1))
  then have "decode_complete (fm_body m) = Some ?wc"
    using complete_msg.decode_encode [of ?wc] cpu_completion_ok [OF ex(2)] by simp
  then show ?thesis using ex by (intro exI [of _ ex] exI [of _ ?wc]) simp
qed

lemma report_step:
  assumes inv: "system_inv P s W"
    and rep: "report_call m s t" and hon: "\<exists>f \<in> W. \<exists>w boot cap. worker_message w boot (CpuExecutor cap) f = Worker_answer m"
    and sp: "spare t"
  shows "system_inv P t W"
proof -
  have R: "reachable P orderly coord_policy s" and fs: "fit_inv coord_policy s" and W: "wire_inv s W"
    using inv by (simp_all add: system_inv_def)
  obtain ex wc where ex: "handed_ok s ex" "decode_complete (fm_body m) = Some wc" "honest_report ex (wc_completion wc)"
    using worker_reports W hon unfolding honest_report_def by blast
  obtain now where t: "t = snd (complete (wc_completion wc) (-1) (at_clock now s))"
    using rep ex(2) by (auto simp: report_call_def)
  define s0 where "s0 = at_clock now s"
  have t': "t = flush (snd (do_complete (wc_completion wc) (resolve_now s0 (-1)) s0))"
    by (simp add: t complete_def s0_def)
  have same: "find_request s0 = find_request s" "find_batch s0 = find_batch s" by (simp_all add: s0_def at_clock_def)
  have "grows s0 t" unfolding t s0_def by (intro grow_driven driven_complete)
  then have R0: "reachable P orderly coord_policy s0"
    using own_reachable [OF driven_at _ R] spare_grows [OF sp] by (simp add: s0_def)
  have h0: "handed_ok s0 e" if "handed_ok s e" for e using that same by (rule handed_same)
  have "orderly (Call_complete (wc_completion wc) (-1)) s0"
    using h0 [OF ex(1)] honest_full [OF ex(3) h0 [OF ex(1)]] honest_fields(1) [OF ex(3)]
    by (auto simp: orderly_def handed_ok_def handed_state_def)
  from reach_step [OF R0 this _ sp] have "reachable P orderly coord_policy t" by (simp add: t s0_def)
  moreover have "fit_inv coord_policy s0" using fs by (simp add: s0_def at_clock_def fit_prims)
  then have "fit_inv coord_policy t" unfolding t' by (intro fit_prims fit_complete)
  moreover have "handed_ok t e" if "handed_ok s e" for e
    unfolding t' using handed_same [OF handed_after_report [OF R0 ex(3) h0 [OF ex(1)] h0 [OF that]]] by simp
  ultimately show ?thesis using W unfolding system_inv_def wire_inv_def by blast
qed

lemma handed_driven:
  assumes "handed_ok s ex" and "driven own_call P s t" and "spare t" and "reachable P orderly p s"
  shows "handed_ok t ex"
  using handed_rests [OF assms(1), of "{}"] own_reachable [OF assms(2-4)] by simp

lemma system_driven:
  assumes "system_inv P s W" and "driven own_call P s t" and "spare t"
  shows "system_inv P t W"
proof -
  note R = assms(1) [unfolded system_inv_def, THEN conjunct1]
  have "wire_inv t W"
    using assms(1) handed_driven [OF _ assms(2,3) R] unfolding system_inv_def wire_inv_def by blast
  then show ?thesis
    using assms(1) own_reachable [OF assms(2,3) R] coord_limit by (simp add: system_inv_def)
qed

lemma handed_on_way_ok:
  assumes "handed_on_way P ex s t" and "spare t" and "system_inv P s W"
  shows "exec_ok ex \<and> handed_ok t ex"
proof -
  obtain u v b w boot now where way: "driven own_call P s u" "prepare_dispatch b w boot now u = (Inr ex, v)"
    "driven own_call P v t"
    using assms(1) by (auto simp: handed_on_way_def)
  have uv: "driven own_call P u v" using driven_methods(4) [of P u b w boot now] way(2) by simp
  have v: "spare v" by (rule spare_grows [OF assms(2) grow_driven [OF driven_wire [OF way(3)]]])
  then have "spare u" by (rule spare_grows) (rule grow_driven [OF driven_wire [OF uv]])
  then have u: "system_inv P u W" by (rule system_driven [OF assms(3) way(1)])
  then have Ru: "reachable P orderly coord_policy u" by (simp add: system_inv_def)
  have Rv: "reachable P orderly coord_policy v" using own_reachable [OF uv v Ru] by simp
  have "handed_ok t ex"
    by (rule handed_driven [OF handed_prepared [OF reachable_struct [OF Ru] way(2)] way(3) assms(2) Rv])
  moreover have "exec_ok ex" using u prepared_fits [OF _ coord_limit way(2)] by (simp add: system_inv_def)
  ultimately show ?thesis by simp
qed

lemma cluster_inv: "cluster P c W \<Longrightarrow> system_inv P (co_fabric c) W"
proof (induction rule: cluster.induct)
  case (cluster_start t)
  then show ?case by (simp add: coord_init_def reach_init wire_inv_def system_inv_def fit_init)
next
  case (cluster_step c W e out c')
  note cases = event_cases [OF cluster_step.hyps(4)]
  have sp: "spare (co_fabric c')" by (rule cluster_step.hyps(5))
  have old: "system_inv P (co_fabric c') W"
  proof (cases "driven own_call P (co_fabric c) (co_fabric c')")
    case True
    then show ?thesis using system_driven [OF cluster_step.IH _ sp] by blast
  next
    case False
    then obtain ch m t where "e = Ev_message ch m t" "report_call m (co_fabric c) (co_fabric c')" using cases by blast
    moreover from this have "\<exists>f \<in> W. \<exists>w boot cap. worker_message w boot (CpuExecutor cap) f = Worker_answer m"
      using cluster_step.hyps(3) by (auto simp: honest_def report_call_def)
    ultimately show ?thesis using report_step [OF cluster_step.IH] sp by blast
  qed
  have "wire_inv (co_fabric c') (snd ` set out)"
    unfolding wire_inv_def
  proof (intro ballI impI)
    fix f
    assume "f \<in> snd ` set out" and ty: "fm_type f = MT_dispatch"
    then obtain ch where f: "(ch, f) \<in> set out" by auto
    then obtain ex where "f = dispatch_frame ex" "handed_on_way P ex (co_fabric c) (co_fabric c')"
      using cases ty by (auto simp: sent_on_way_def)
    then show "\<exists>ex. f = dispatch_frame ex \<and> exec_ok ex \<and> handed_ok (co_fabric c') ex"
      using handed_on_way_ok [OF _ sp cluster_step.IH] by blast
  qed
  with old show ?case by (auto simp: system_inv_def wire_inv_def)
qed

section \<open>What a worker's answer does\<close>

lemma complete_ended:
  assumes "find_request s (mc_request mc) = Some r" and "req_current_attempt r = mc_attempt mc"
    and "find_attempt s (mc_attempt mc) = Some a" and "finished a"
  shows "complete_member b now mc s = s"
  using assms by (auto simp: complete_member_def finished_def)

text \<open>
  A report of success for different requests under their current, different attempts; a request
  whose attempt has ended has ended itself.
\<close>

definition answered :: "Impl \<Rightarrow> MemberCompletion \<Rightarrow> bool" where
  "answered s mc \<longleftrightarrow> mc_status mc = CS_success \<and>
     (\<exists>r a. find_request s (mc_request mc) = Some r \<and> req_current_attempt r = mc_attempt mc \<and>
        find_attempt s (mc_attempt mc) = Some a \<and> (finished a \<longrightarrow> is_request_terminal (req_state r)))"

definition settled_by :: "TimePoint \<Rightarrow> Impl \<Rightarrow> Impl \<Rightarrow> MemberCompletion \<Rightarrow> bool" where
  "settled_by now s t mc \<longleftrightarrow>
     (\<exists>r a. find_request s (mc_request mc) = Some r \<and> find_attempt s (mc_attempt mc) = Some a \<and>
        (if finished a then find_request t (mc_request mc) = Some r \<and> is_request_terminal (req_state r)
         else find_request t (mc_request mc) = Some (completed_request r) \<and>
           find_attempt t (mc_attempt mc) = Some (succeeded_attempt now (mc_result mc) a)))"

lemma answer_all:
  assumes "\<forall>mc \<in> set mcs. answered s mc" and "distinct (map mc_request mcs)" and "distinct (map mc_attempt mcs)"
  shows "(\<forall>mc \<in> set mcs. settled_by now s (fold (complete_member b now) mcs s) mc) \<and>
    (\<forall>i. i \<notin> mc_request ` set mcs \<longrightarrow> find_request (fold (complete_member b now) mcs s) i = find_request s i) \<and>
    (\<forall>k. k \<notin> mc_attempt ` set mcs \<longrightarrow> find_attempt (fold (complete_member b now) mcs s) k = find_attempt s k)"
  using assms
proof (induction mcs arbitrary: s)
  case (Cons mc mcs)
  let ?t = "complete_member b now mc s"
  obtain r a where ra: "find_request s (mc_request mc) = Some r" "req_current_attempt r = mc_attempt mc"
    "find_attempt s (mc_attempt mc) = Some a" "mc_status mc = CS_success"
    "finished a \<Longrightarrow> is_request_terminal (req_state r)"
    using Cons.prems(1) by (auto simp: answered_def)
  have self: "settled_by now s ?t mc"
    using complete_one [OF ra(1-3) _ ra(4), of b now] complete_ended [OF ra(1-3), of b now] ra by (simp add: settled_by_def)
  have same: "i \<noteq> mc_request mc \<Longrightarrow> find_request ?t i = find_request s i"
    "k \<noteq> mc_attempt mc \<Longrightarrow> find_attempt ?t k = find_attempt s k" for i k
    using complete_one [OF ra(1-3) _ ra(4), of b now] complete_ended [OF ra(1-3), of b now]
    by (cases "finished a"; simp)+
  have new: "mc_request mc \<notin> mc_request ` set mcs" "mc_attempt mc \<notin> mc_attempt ` set mcs" using Cons.prems by simp_all
  have keep: "find_request ?t (mc_request m) = find_request s (mc_request m) \<and>
      find_attempt ?t (mc_attempt m) = find_attempt s (mc_attempt m)" if "m \<in> set mcs" for m
    using same new that by (metis image_eqI)
  then have "\<forall>m \<in> set mcs. answered ?t m" using Cons.prems(1) by (simp add: answered_def)
  note IH = Cons.IH [OF this]
  let ?u = "fold (complete_member b now) mcs ?t"
  have u: "\<forall>m \<in> set mcs. settled_by now ?t ?u m" "\<And>i. i \<notin> mc_request ` set mcs \<Longrightarrow> find_request ?u i = find_request ?t i"
    "\<And>k. k \<notin> mc_attempt ` set mcs \<Longrightarrow> find_attempt ?u k = find_attempt ?t k"
    using IH Cons.prems by simp_all
  have "settled_by now s ?u m" if m: "m \<in> set mcs" for m
  proof -
    have "settled_by now s ?u m = settled_by now ?t ?u m" unfolding settled_by_def by (simp only: keep [OF m])
    then show ?thesis using u(1) m by simp
  qed
  moreover have "settled_by now s ?u mc = settled_by now s ?t mc"
    unfolding settled_by_def by (simp only: u(2) [OF new(1)] u(3) [OF new(2)])
  ultimately show ?case using self u(2,3) same by auto
qed simp

lemma handed_answered:
  fixes w :: WorkerId and boot :: WorkerBootId
  assumes p: "placed {} {} s" and att: "att_inv s" and str: "struct_inv s" and h: "handed_ok s ex" and x: "find_batch s (ex_batch ex) = Some x"
    and st: "bat_state x = BS_dispatched"
  defines "mcs \<equiv> comp_members (worker_completion w boot ex (cpu_execute ex))"
  shows "(\<forall>mc \<in> set mcs. answered s mc) \<and> distinct (map mc_request mcs) \<and> distinct (map mc_attempt mcs)"
proof -
  have ms: "map mw_request (ex_members ex) = bat_members x" using h x st by (auto simp: handed_ok_def)
  have mem: "\<exists>r. find_request s (mw_request m) = Some r \<and> req_current_attempt r = mw_attempt m"
    if "m \<in> set (ex_members ex)" for m
    using h x st that by (auto simp: handed_ok_def)
  have fields: "map mc_request mcs = map mw_request (ex_members ex)" "map mc_attempt mcs = map mw_attempt (ex_members ex)"
    by (simp_all add: mcs_def worker_completion_def cpu_execute_def succeeded_member_def comp_def)
  have dist: "distinct (map mw_request (ex_members ex))"
    using placed_distinct [OF p, of "ex_batch ex"] x st by (simp add: ms cells_def)
  moreover have "inj_on mw_attempt (set (ex_members ex))"
  proof (rule inj_onI)
    fix m m'
    assume m: "m \<in> set (ex_members ex)" "m' \<in> set (ex_members ex)" "mw_attempt m = mw_attempt m'"
    then have "mw_request m = mw_request m'" using mem [OF m(1)] mem [OF m(2)] att_owner [OF att] by metis
    moreover have "inj_on mw_request (set (ex_members ex))" using dist unfolding distinct_map by simp
    ultimately show "m = m'" using m(1,2) by (metis inj_onD)
  qed
  then have "distinct (map mw_attempt (ex_members ex))" using dist unfolding distinct_map by simp
  moreover have "\<exists>r a. find_request s (mw_request m) = Some r \<and> req_current_attempt r = mw_attempt m \<and>
      find_attempt s (mw_attempt m) = Some a \<and> (finished a \<longrightarrow> is_request_terminal (req_state r))"
    if m: "m \<in> set (ex_members ex)" for m
  proof -
    obtain r where r: "find_request s (mw_request m) = Some r" "req_current_attempt r = mw_attempt m"
      using mem [OF m] by blast
    then obtain a where "find_attempt s (mw_attempt m) = Some a"
      using struct_attempt [OF str r(1)] by auto
    then show ?thesis using r att_ended [OF att r(1)] by (auto simp: finished_def ended_def)
  qed
  ultimately show ?thesis
    unfolding fields by (auto simp: answered_def mcs_def worker_completion_def cpu_execute_def succeeded_member_def)
qed

text \<open>An answer that the coordinator accepts completes its batch and ends all members.\<close>

lemma accepted_answer:
  fixes now :: TimePoint and w :: WorkerId and boot :: WorkerBootId
  assumes p: "placed {} {} s" and att: "att_inv s" and str: "struct_inv s" and h: "handed_ok s ex"
  defines "cmp \<equiv> worker_completion w boot ex (cpu_execute ex)"
  assumes cur: "completion_current s cmp"
  shows "fst (do_complete cmp now s) = Inr ()" (is ?ok)
    and "map_option bat_state (find_batch (snd (do_complete cmp now s)) (ex_batch ex)) = Some BS_completed" (is ?done)
    and "\<forall>mc \<in> set (comp_members cmp). settled_by now s (snd (do_complete cmp now s)) mc" (is ?each)
proof -
  have b: "comp_batch cmp = ex_batch ex" by (simp add: cmp_def worker_completion_def)
  obtain x where x: "find_batch s (ex_batch ex) = Some x" "bat_state x = BS_dispatched"
    using cur h b by (auto simp: completion_current_def handed_ok_def handed_state_def)
  have ms: "map mw_request (ex_members ex) = bat_members x" using h x by (auto simp: handed_ok_def)
  let ?u = "fold (complete_member (ex_batch ex) now) (comp_members cmp) s"
  note accepted = complete_current [OF cur, of now, unfolded b]
  have each: "\<forall>mc \<in> set (comp_members cmp). settled_by now s ?u mc"
    using handed_answered [OF p att str h x, of w boot] answer_all by (simp add: cmp_def)
  obtain y where y: "find_batch ?u (ex_batch ex) = Some y" "bat_members y = bat_members x"
    using same_batches_find [OF same_batches_members x(1)] by (metis same_batch_def)
  have "\<exists>r. find_request ?u i = Some r \<and> is_request_terminal (req_state r)" if "i \<in> set (bat_members y)" for i
  proof -
    have "i \<in> mw_request ` set (ex_members ex)" using that y(2) ms by (metis set_map)
    then have "i \<in> mc_request ` set (comp_members cmp)"
      by (auto simp: cmp_def worker_completion_def cpu_execute_def succeeded_member_def image_image)
    then obtain mc where "mc \<in> set (comp_members cmp)" "i = mc_request mc" by blast
    then show ?thesis using bspec [OF each]
      by (fastforce simp: settled_by_def completed_request_def is_request_terminal_def split: if_splits)
  qed
  then have "all_terminal ?u (bat_members y)" by (fastforce simp: all_terminal_def list_all_iff)
  note closed = close_completed [OF y(1) this, of now]
  show ?ok ?done using accepted closed by simp_all
  have views: "find_request (snd (do_complete cmp now s)) = find_request ?u"
    "find_attempt (snd (do_complete cmp now s)) = find_attempt ?u"
    by (simp_all add: accepted close_batch_def)
  show ?each using each unfolding settled_by_def views .
qed

end
