(* ===== verification/Cluster_Props.thy ===== *)
theory Cluster_Props
  imports Cluster
begin

text \<open>
  A run of the whole system, evaluated: worker 3 registers, a driver connects and submits one
  request, and the coordinator forms a batch for it, seals it and sends it to the worker. The
  properties of the system are applied to this run.
\<close>

section \<open>The driver's request\<close>

definition lone_submit :: FrameMessage where
  "lone_submit = \<lparr>fm_type = MT_submit, fm_body = encode_submit \<lparr>sub_meta = sample_meta\<rparr>\<rparr>"

lemma sample_meta_ok: "meta_ok sample_meta"
  by (simp add: meta_ok_def sample_meta_def default_metadata_def sample_descriptor_def desc_ok_def
      default_descriptor_def default_device_def time_ok_def string_ok_short enum_ok_defs LatencyClass_cast_def
      PriorityClass_cast_def Phase_cast_def Dtype_cast_def Backend_cast_def ExecutionMode_cast_def)

lemma lone_decodes: "decode_submit (fm_body lone_submit) = Some \<lparr>sub_meta = sample_meta\<rparr>"
  using submit_msg.decode_encode [of "\<lparr>sub_meta = sample_meta\<rparr>"] sample_meta_ok by (simp add: lone_submit_def)

definition lone0 :: Impl where
  "lone0 = at_clock 9 (co_fabric sample_coord1)"

definition lone_workers :: "(WorkerId \<times> WorkerRec) list" where
  "lone_workers = im_workers (co_fabric sample_coord1)"

lemma coord_policy_fields [simp]:
  "pol_fairness coord_policy = pol_fairness default_policy"
  "pol_merge coord_policy = pol_merge default_policy"
  "pol_split coord_policy = pol_split default_policy"
  "latency_max_wait_ns (pol_wait coord_policy) = Map.empty" "\<not> immediate_seal_when_solo (pol_wait coord_policy)"
  "budget (pol_constraints coord_policy) = \<lparr>max_requests = 8, max_input_tokens = 100000, max_output_tokens = 0,
     max_work = 100000, max_memory_bytes = 0\<rparr>"
  "global_max_wait_ns (pol_constraints coord_policy) = 1000000"
  "minimum_preferred_batch (pol_constraints coord_policy) = 1"
  by (simp_all add: coord_policy_def default_policy_def)

definition lone1 :: Impl where
  "lone1 = at_clock 9 (snd (submit sample_meta (-1) lone0))"

definition lone_request :: RequestRec where
  "lone_request = sample_request\<lparr>req_submitted := 9\<rparr>"

lemma lone0_fields [simp]:
  "im_policy lone0 = coord_policy" "im_clock_now lone0 = 9" "im_epoch lone0 = Id 1"
  "im_next_batch lone0 = 1" "im_next_generation lone0 = 1" "im_next_request lone0 = 1"
  "im_next_attempt lone0 = 1" "im_requests lone0 = []" "im_attempts lone0 = []" "im_batches lone0 = []"
  "im_forming lone0 = []" "im_sealed_order lone0 = []" "im_waiting lone0 = []" "im_workers lone0 = lone_workers"
  by (simp_all add: lone0_def lone_workers_def sample_coord1_def sample_coord_def set_conn_def coord_init_def
      Impl_init_def register_worker_def at_clock_def eval_prims)

lemma lone1_fields [simp]:
  "im_policy lone1 = coord_policy" "im_clock_now lone1 = 9" "im_epoch lone1 = Id 1"
  "im_next_batch lone1 = 1" "im_next_generation lone1 = 1"
  "im_requests lone1 = [(Id 1, lone_request)]" "im_attempts lone1 = [(Id 1, sample_attempt)]"
  "im_batches lone1 = []" "im_forming lone1 = []" "im_sealed_order lone1 = []"
  "im_waiting lone1 = [(sample_key, [Id 1])]" "im_workers lone1 = lone_workers"
  by (simp_all add: lone1_def submit_def do_submit_def eval_prims at_clock_def default_policy_def oversized_def
      lone_request_def sample_request_def default_request_def default_attempt_def sample_attempt_def)

lemma lone_submitted: "\<exists>so s. submit sample_meta (-1) lone0 = (Inr so, s) \<and> lone1 = at_clock 9 s"
  by (simp add: lone1_def)
    (simp add: submit_def do_submit_def eval_prims default_policy_def oversized_def)

lemma lone_workers:
  "lone_workers = [(Id 0, \<lparr>wk_cap = default_capability\<lparr>cap_worker := Id 0, cap_backend := BK_cpu\<rparr>, wk_boot = Id 0,
       wk_live = True, wk_running = []\<rparr>),
     (Id 3, default_worker\<lparr>wk_cap := worker_capability (Id 3), wk_boot := Id 4, wk_live := True\<rparr>)]"
  by (simp add: lone_workers_def sample_coord1_def sample_coord_def set_conn_def coord_init_def Impl_init_def
      register_worker_def at_clock_def eval_prims)

section \<open>The tick\<close>

definition lone_empty :: BatchRec where
  "lone_empty = sample_empty\<lparr>bat_formed_ns := 9\<rparr>"

definition lone_open :: Impl where
  "lone_open = snd (open_forming sample_key 9 lone1)"

lemma lone_open_fields [simp]:
  "fst (open_forming sample_key 9 lone1) = Id 1"
  "im_policy lone_open = coord_policy" "im_requests lone_open = [(Id 1, lone_request)]"
  "im_batches lone_open = [(Id 1, lone_empty)]" "im_forming lone_open = [(sample_key, Id 1)]"
  "im_attempts lone_open = [(Id 1, sample_attempt)]" "im_sealed_order lone_open = []"
  "im_waiting lone_open = [(sample_key, [Id 1])]" "im_workers lone_open = lone_workers"
  "im_epoch lone_open = Id 1" "im_clock_now lone_open = 9"
  by (simp_all add: lone_open_def open_forming_def forming_record_def eval_prims default_batch_def
      lone_request_def sample_request_def sample_empty_def lone_empty_def)

definition lone_filled :: Impl where
  "lone_filled = set_waiting (index_remove sample_key (Id 1)) (add_member_to_batch (Id 1) (Id 1) lone_open)"

lemma lone_fill: "fill_forming plain_platform (Id 1) sample_key 9 lone_open = lone_filled"
proof -
  have bt: "by_tenant lone_open (at_batch lone_open (Id 1)) 9 [Id 1] = [(Id 7, [Id 1])]"
    by (simp add: by_tenant_def group_step_def find_request_def lone_request_def sample_request_def may_join_def
        is_waiting_state_def expired_def has_deadline_def default_policy_def at_outstanding_cap_def
        fits_def allows_add_def std_at_def Let_def to_former_batch_def to_candidate_def
        at_batch_def lone_empty_def sample_empty_def default_batch_def empty_accum_def)
  have "pick_member plain_platform lone_open [(Id 7, [Id 1])] = Id 1"
    by (simp add: pick_member_def select_next_def std_keys_def std_at_def Let_def)
  then have "fill_loop plain_platform (Id 1) sample_key 9 [Id 1] lone_open
      = fill_loop plain_platform (Id 1) sample_key 9 [] lone_filled"
    by (subst fill_loop.simps) (simp add: bt Let_def lone_filled_def)
  also have "\<dots> = lone_filled"
    by (subst fill_loop.simps) (simp add: by_tenant_def)
  finally show ?thesis
    by (simp add: fill_forming_def find_batch_def index_bucket_def)
qed

definition lone_formed :: Impl where
  "lone_formed = make_forming plain_platform sample_key 9 lone1"

definition lone_batch :: BatchRec where
  "lone_batch = sample_batch\<lparr>bat_formed_ns := 9, bat_allowed_wait_ns := 1000000\<rparr>"

definition lone_member :: RequestRec where
  "lone_member = sample_member\<lparr>req_submitted := 9\<rparr>"

lemmas eval_lone = lone_batch_def lone_member_def lone_request_def lone_empty_def eval_sample

lemma lone_formed_settle: "lone_formed = settle_forming (Id 1) 9 lone_filled"
  using lone_fill by (simp add: lone_formed_def make_forming_def split_beta lone_open_def [symmetric])

lemma lone_filled_fields:
  "im_policy lone_filled = coord_policy" "im_requests lone_filled = [(Id 1, lone_member)]"
  "im_batches lone_filled = [(Id 1, lone_batch\<lparr>bat_allowed_wait_ns := kNoDeadline\<rparr>)]"
  "im_forming lone_filled = [(sample_key, Id 1)]" "im_attempts lone_filled = [(Id 1, sample_attempt)]"
  "im_sealed_order lone_filled = []" "im_waiting lone_filled = []" "im_workers lone_filled = lone_workers"
  "im_epoch lone_filled = Id 1" "im_clock_now lone_filled = 9"
  by (simp_all add: lone_filled_def eval_prims add_member_to_batch_def join_batch_def add_usage_def eval_lone)

lemma lone_formed_fields [simp]:
  "im_policy lone_formed = coord_policy" "im_requests lone_formed = [(Id 1, lone_member)]"
  "im_batches lone_formed = [(Id 1, lone_batch)]"
  "im_forming lone_formed = [(sample_key, Id 1)]" "im_attempts lone_formed = [(Id 1, sample_attempt)]"
  "im_sealed_order lone_formed = []" "im_waiting lone_formed = []" "im_workers lone_formed = lone_workers"
  "im_epoch lone_formed = Id 1" "im_clock_now lone_formed = 9"
  by (simp_all add: lone_formed_settle settle_forming_def lone_filled_fields Let_def upd_batch_def
      std_modify_def compute_allowed_wait_def earliest_arrival_def find_request_def has_deadline_def
      kNoDeadline_def eval_lone)

definition lone_sealed :: Impl where
  "lone_sealed = snd (do_seal (Id 1) SR_max_wait_elapsed 9 lone_formed)"

lemma lone_sealed_fields [simp]:
  "im_policy lone_sealed = coord_policy"
  "im_requests lone_sealed = [(Id 1, lone_member\<lparr>req_state := RS_batched\<rparr>)]"
  "im_batches lone_sealed = [(Id 1, lone_batch\<lparr>bat_state := BS_sealed, bat_sealed_ns := 9\<rparr>)]"
  "im_forming lone_sealed = []" "im_attempts lone_sealed = [(Id 1, sample_attempt)]"
  "im_sealed_order lone_sealed = [Id 1]" "im_waiting lone_sealed = []" "im_workers lone_sealed = lone_workers"
  "im_epoch lone_sealed = Id 1" "im_clock_now lone_sealed = 9"
  by (simp_all add: lone_sealed_def do_seal_def eval_prims advance_members_def upd_requests_def eval_lone)

lemma lone_tick: "do_tick plain_platform 9 lone1 = Some lone_sealed"
proof -
  have e: "expire_locked plain_platform 9 lone1 = lone1"
    by (simp add: expire_locked_def plain_platform_def past_deadline_def find_request_def
        lone_request_def sample_request_def has_deadline_def forming_members_def)
  have "lone_formed\<lparr>im_batches := im_batches lone_formed\<rparr> = lone_formed" by simp
  then have same: "lone_formed\<lparr>im_batches := [(Id 1, lone_batch)]\<rparr> = lone_formed"
    by (simp only: lone_formed_fields)
  have key: "bat_key lone_batch = sample_key" by (simp add: eval_lone)
  have "fill_forming plain_platform (Id 1) sample_key 9 lone_formed = lone_formed"
    by (simp add: fill_forming_def find_batch_def index_bucket_def)
  moreover have "compute_allowed_wait lone_formed lone_batch 9 = 1000000"
    by (simp add: compute_allowed_wait_def find_request_def has_deadline_def kNoDeadline_def eval_lone)
  moreover have "lone_batch\<lparr>bat_allowed_wait_ns := 1000000\<rparr> = lone_batch" by (simp add: lone_batch_def)
  ultimately have "tick_fill plain_platform 9 (Id 1) ([], lone_formed) =
      (if dec_action (decide coord_policy (to_former_batch lone_batch) [] 9) = Act_seal
       then ([Id 1], lone_formed) else ([], lone_formed))"
    by (simp add: tick_fill_def find_batch_def key Let_def upd_batch_def std_modify_def at_batch_def std_at_def same
        remaining_candidates_def index_bucket_def)
  moreover have "dec_action (decide coord_policy (to_former_batch lone_batch) [] 9) = Act_seal"
    by (simp add: decide_def Let_def to_former_batch_def eval_lone)
  ultimately have "tick_fill plain_platform 9 (Id 1) ([], lone_formed) = ([Id 1], lone_formed)" by simp
  moreover have "tick_form plain_platform 9 sample_key lone1 = lone_formed"
    by (simp add: tick_form_def lone_formed_def)
  moreover have "tick_seal 9 (Id 1) lone_formed = lone_sealed"
    by (simp add: tick_seal_def sealed_reason_for_def find_batch_def lone_sealed_def)
      (simp add: eval_lone)
  ultimately have u: "tick_until_merge plain_platform 9 lone1 = lone_sealed"
    by (simp add: tick_until_merge_def e Let_def)
  have "tick_merge lone_sealed = Some lone_sealed"
    by (simp add: tick_merge_def default_policy_def sealed_by_key_def find_batch_def std_at_def)
  moreover have "max_worker_batch_size lone_sealed = 64"
    by (simp add: max_worker_batch_size_def lone_workers default_capability_def worker_capability_def)
  then have "tick_split 0 lone_sealed = lone_sealed"
    by (simp add: tick_split_def find_batch_def Let_def eval_lone)
  then have "split_loop 0 lone_sealed = Some lone_sealed"
    by (subst split_loop.simps, simp, subst split_loop.simps, simp)
  ultimately show ?thesis by (simp add: do_tick_def u)
qed

section \<open>The request is sent to the worker\<close>

definition lone2 :: Impl where
  "lone2 = at_clock 9 (flush lone_sealed)"

definition lone_exec :: BatchExecution where
  "lone_exec = build_execution (mark_dispatched (Id 1) (Id 3) (Id 4) 9 lone2)
     (at_batch (mark_dispatched (Id 1) (Id 3) (Id 4) 9 lone2) (Id 1))"

definition lone3 :: Impl where
  "lone3 = snd (prepare_dispatch (Id 1) (Id 3) (Id 4) (-1) lone2)"

lemma lone_prepared: "prepare_dispatch (Id 1) (Id 3) (Id 4) (-1) lone2 = (Inr lone_exec, lone3)"
proof -
  have "find_batch lone2 (Id 1) \<noteq> None \<and> bat_state (the (find_batch lone2 (Id 1))) = BS_sealed"
    by (simp add: lone2_def at_clock_def find_batch_def)
  moreover have "worker_current lone2 (Id 3) (Id 4)"
    by (simp add: worker_current_def lone2_def at_clock_def lone_workers)
  moreover have "resolve_now lone2 (-1) = 9" by (simp add: resolve_now_def lone2_def at_clock_def)
  ultimately show ?thesis
    by (auto simp: lone3_def prepare_dispatch_def do_prepare_dispatch_def lone_exec_def Let_def)
qed

lemma lone3_fields [simp]:
  "im_requests lone3 = [(Id 1, lone_member\<lparr>req_state := RS_dispatched\<rparr>)]"
  "im_attempts lone3 = [(Id 1, sample_attempt)]" "std_keys (im_batches lone3) = [Id 1]"
  "im_batches lone3 = [(Id 1, lone_batch\<lparr>bat_state := BS_dispatched, bat_sealed_ns := 9, bat_dispatched_ns := 9,
     bat_worker := Id 3, bat_boot := Id 4\<rparr>)]"
  by (simp_all add: lone3_def lone2_def prepare_dispatch_def do_prepare_dispatch_def mark_dispatched_def eval_prims
      at_clock_def worker_current_def lone_workers advance_members_def upd_requests_def eval_lone)

definition lone_coord2 :: Coord where
  "lone_coord2 = set_conn 6 Conn_fresh sample_coord1"

definition lone_coord3 :: Coord where
  "lone_coord3 = (set_conn 6 Conn_driver lone_coord2)\<lparr>co_fabric := lone3\<rparr>"

lemma lone_event:
  "\<exists>f. coord_event plain_platform (Ev_message 6 lone_submit (\<lambda>_. 9)) lone_coord2
     = Some ([(5, dispatch_frame lone_exec), (6, f)], lone_coord3)"
proof -
  obtain so s where so: "submit sample_meta (-1) lone0 = (Inr so, s)" and s: "at_clock 9 s = lone1"
    using lone_submitted by metis
  define c where "c = set_conn 6 Conn_driver lone_coord2"
  have fab: "at_clock 9 (co_fabric c) = lone0" by (simp add: lone0_def c_def lone_coord2_def set_conn_def)
  have ws: "co_workers c = [(Id 3, \<lparr>slot_ch = 5, slot_boot = Id 4\<rparr>)]" "co_running c"
    "co_conns lone_coord2 6 = Some Conn_fresh" "co_conns lone_coord2 5 = Some (Conn_worker (Id 3))"
    by (simp_all add: c_def lone_coord2_def sample_coord1_def sample_coord_def set_conn_def coord_init_def)
  have "tick plain_platform (-1) lone1 = Some (\<lparr>rep_sealed_batches = [Id 1], rep_forming = 0\<rparr>, flush lone_sealed)"
    by (simp add: tick_def resolve_now_def lone_tick)
  then have "handle_submit plain_platform (\<lambda>_. 9) 6 lone_submit c
      = Some ([(5, dispatch_frame lone_exec), (6, submit_response so [Id 1])], c\<lparr>co_fabric := lone3\<rparr>)"
    using lone_prepared ws(1)
    by (simp add: handle_submit_def lone_decodes fab so s Let_def split_beta lone2_def [symmetric])
  then have "first_message plain_platform (\<lambda>_. 9) 6 lone_submit lone_coord2
      = Some ([(5, dispatch_frame lone_exec), (6, submit_response so [Id 1])], lone_coord3)"
    using ws(2) by (simp add: first_message_def driver_message_def lone_submit_def lone_coord3_def c_def)
  then show ?thesis using ws(3,4) by (simp add: sends_alive_iff alive_def)
qed

lemma cluster_quiet:
  "cluster P c W \<Longrightarrow> event_ok e c \<Longrightarrow> honest W e \<Longrightarrow> coord_event P e c = Some ([], c') \<Longrightarrow> spare (co_fabric c') \<Longrightarrow>
   cluster P c' W"
  using cluster_step [of P c W e "[]" c'] by simp

lemma lone_cluster: "\<exists>W. cluster plain_platform lone_coord3 W \<and> dispatch_frame lone_exec \<in> W"
proof -
  let ?P = plain_platform
  have "coord_event ?P (Ev_accept 5) (coord_init 0) = Some ([], sample_coord)"
    by (simp add: sample_coord_def coord_init_def set_conn_def Let_def)
  moreover have "spare (co_fabric sample_coord)"
    by (intro spare_small) (simp_all add: sample_coord_def set_conn_def coord_init_def Impl_init_def std_keys_def)
  ultimately have "cluster ?P sample_coord {}"
    by (rule cluster_quiet [OF cluster_start, rotated 2])
      (simp_all add: event_ok_def honest_def alive_def coord_init_def)
  then have "cluster ?P sample_coord1 {}"
    by (rule cluster_quiet [OF _ _ _ sample_coord1_step sample_coord1_spare])
      (simp_all add: event_ok_def honest_def register_frame_def)
  then have c2: "cluster ?P lone_coord2 {}"
  proof (rule cluster_quiet)
    show "coord_event ?P (Ev_accept 6) sample_coord1 = Some ([], lone_coord2)"
      by (simp add: lone_coord2_def sample_coord1_def sample_coord_def coord_init_def set_conn_def Let_def)
    show "event_ok (Ev_accept 6) sample_coord1"
      by (simp add: event_ok_def alive_def sample_coord1_def sample_coord_def coord_init_def set_conn_def)
    show "spare (co_fabric lone_coord2)" using sample_coord1_spare by (simp add: lone_coord2_def set_conn_def)
  qed (simp add: honest_def)
  obtain f where f: "coord_event ?P (Ev_message 6 lone_submit (\<lambda>_. 9)) lone_coord2
     = Some ([(5, dispatch_frame lone_exec), (6, f)], lone_coord3)"
    using lone_event by blast
  have "spare (co_fabric lone_coord3)" by (intro spare_small) (simp_all add: lone_coord3_def std_keys_def)
  then show ?thesis
    using cluster_step [OF c2 _ _ f] by (auto simp: event_ok_def honest_def lone_submit_def)
qed

section \<open>Properties\<close>



text \<open>
  C2: what comes back from a worker settles its batch or is refused and changes no record, however
  late and however often it comes. Every frame of a run that a worker answers is the dispatch of a batch,
  and its answer is decoded. If it is current, it is accepted: the batch is completed, members that
  were open are completed with the output computed for them, and all others had ended and stay as
  they are. If not, no request, batch or attempt is changed.
\<close>

theorem every_answer_is_settled:
  assumes "cluster P c W" and "f \<in> W" and "worker_message w boot (CpuExecutor cap) f = Worker_answer m"
  shows "\<exists>ex wc rr c'. f = dispatch_frame ex \<and> exec_ok ex \<and> decode_complete (fm_body m) = Some wc \<and>
    handle_complete t ch m c = ([(ch, result_ack rr)], c') \<and>
    (if completion_current (co_fabric c) (wc_completion wc)
     then rr = Inr () \<and> map_option bat_state (find_batch (co_fabric c') (ex_batch ex)) = Some BS_completed \<and>
       (\<forall>k \<in> set (ex_members ex). \<exists>r a. find_request (co_fabric c) (mw_request k) = Some r \<and>
          find_attempt (co_fabric c) (mw_attempt k) = Some a \<and>
          (if finished a then is_request_terminal (req_state r) \<and> find_request (co_fabric c') (mw_request k) = Some r
           else map_option req_state (find_request (co_fabric c') (mw_request k)) = Some RS_completed \<and>
             map_option att_result (find_attempt (co_fabric c') (mw_attempt k)) = Some (mr_output (cpu_member k))))
     else (\<exists>e. rr = Inl e) \<and> find_request (co_fabric c') = find_request (co_fabric c) \<and>
       find_batch (co_fabric c') = find_batch (co_fabric c) \<and> find_attempt (co_fabric c') = find_attempt (co_fabric c))"
proof -
  define s where "s = at_clock (t 0) (co_fabric c)"
  have inv: "system_inv P (co_fabric c) W" by (rule cluster_inv [OF assms(1)])
  then have W: "wire_inv (co_fabric c) W" by (simp add: system_inv_def)
  obtain ex wc where ex: "f = dispatch_frame ex" "exec_ok ex" "handed_ok (co_fabric c) ex"
    "decode_complete (fm_body m) = Some wc" "wc_completion wc = worker_completion w boot ex (cpu_execute ex)"
    using worker_reports [OF assms(3,2) W] by blast
  have same: "find_request s = find_request (co_fabric c)" "find_batch s = find_batch (co_fabric c)"
    "find_attempt s = find_attempt (co_fabric c)" "completion_current s = completion_current (co_fabric c)"
    by (simp_all add: s_def at_clock_def completion_current_def worker_current_def fun_eq_iff)
  have h: "handed_ok s ex" by (rule handed_same [OF ex(3) same(1,2)])
  let ?cmp = "wc_completion wc" and ?now = "resolve_now s (-1)"
  define u where "u = snd (do_complete ?cmp ?now s)"
  have run: "handle_complete t ch m c = ([(ch, result_ack (fst (do_complete ?cmp ?now s)))], c\<lparr>co_fabric := flush u\<rparr>)"
    by (simp add: handle_complete_def ex(4) complete_def u_def split_beta flip: s_def)
  show ?thesis
  proof (cases "completion_current (co_fabric c) ?cmp")
    case False
    then have "\<not> completion_current s ?cmp" by (simp add: same)
    note stale = complete_stale [OF this, of ?now]
    have "\<exists>e. fst (do_complete ?cmp ?now s) = Inl e" using stale(1) by (auto simp: Result_err_def)
    moreover have "find_request u = find_request s" "find_batch u = find_batch s" "find_attempt u = find_attempt s"
      using stale(2) by (auto simp: u_def)
    ultimately show ?thesis using False ex run by (auto simp: same)
  next
    case True
    have R: "reachable P orderly coord_policy (co_fabric c)" using inv by (simp add: system_inv_def)
    have "placed {} {} s" "att_inv s" "struct_inv s"
      using reachable_placed [OF R] att_reachable [OF R] reachable_struct [OF R]
      by (simp_all add: s_def at_clock_def place_prims att_prims keep_fields)
    note closed = accepted_answer [OF this h, of w boot, folded ex(5), OF True [folded same(4)], of ?now, folded u_def]
    have "\<exists>r a. find_request (co_fabric c) (mw_request k) = Some r \<and> find_attempt (co_fabric c) (mw_attempt k) = Some a \<and>
          (if finished a then is_request_terminal (req_state r) \<and> find_request u (mw_request k) = Some r
           else map_option req_state (find_request u (mw_request k)) = Some RS_completed \<and>
             map_option att_result (find_attempt u (mw_attempt k)) = Some (mr_output (cpu_member k)))"
      if "k \<in> set (ex_members ex)" for k
    proof -
      have fields: "mc_request (succeeded_member (cpu_member k)) = mw_request k"
        "mc_attempt (succeeded_member (cpu_member k)) = mw_attempt k"
        "mc_result (succeeded_member (cpu_member k)) = mr_output (cpu_member k)"
        by (simp_all add: succeeded_member_def)
      have "succeeded_member (cpu_member k) \<in> set (comp_members ?cmp)"
        using that by (simp add: ex(5) worker_completion_def cpu_execute_def)
      with closed(3) have "settled_by ?now s u (succeeded_member (cpu_member k))" by blast
      then obtain r a where "find_request s (mw_request k) = Some r" "find_attempt s (mw_attempt k) = Some a"
        "if finished a then find_request u (mw_request k) = Some r \<and> is_request_terminal (req_state r)
         else find_request u (mw_request k) = Some (completed_request r) \<and>
           find_attempt u (mw_attempt k) = Some (succeeded_attempt ?now (mr_output (cpu_member k)) a)"
        unfolding settled_by_def fields by blast
      then show ?thesis
        by (intro exI [of _ r] exI [of _ a])
          (simp add: same completed_request_def succeeded_attempt_def split: if_splits)
    qed
    note each = this
    let ?c = "c\<lparr>co_fabric := flush u\<rparr>"
    have view: "find_request (co_fabric ?c) = find_request u" "find_attempt (co_fabric ?c) = find_attempt u"
      "find_batch (co_fabric ?c) = find_batch u" by simp_all
    show ?thesis
      by (intro exI [of _ ex] exI [of _ wc] exI [of _ "Inr ()"] exI [of _ ?c], unfold if_P [OF True] view)
        (intro conjI ex(1,2,4) refl ballI each closed(2) run [unfolded closed(1)])
  qed
qed

lemma lone_exec_fields:
  "ex_batch lone_exec = Id 1" "ex_generation lone_exec = Id 1" "ex_epoch lone_exec = Id 1"
  "ex_descriptor lone_exec = sample_descriptor"
  "ex_members lone_exec = [\<lparr>mw_request = Id 1, mw_attempt = Id 1, mw_work = 3, mw_input_tokens = 0,
     mw_output_tokens = 0, mw_payload = []\<rparr>]"
  by (simp_all add: lone_exec_def lone2_def build_execution_def mark_dispatched_def eval_prims at_clock_def
      advance_members_def upd_requests_def member_work_def List.map_filter_simps eval_lone)

lemma lone_exec_ok: "exec_ok lone_exec"
  using sample_meta_ok by (simp add: exec_ok_def lone_exec_fields member_work_ok_def string_ok_short meta_ok_def)

lemma lone_answer_current:
  "completion_current lone3 (worker_completion (Id 3) (Id 4) lone_exec (cpu_execute lone_exec))"
proof -
  have "im_epoch lone3 = Id 1" "im_workers lone3 = lone_workers"
    by (simp_all add: lone3_def lone2_def prepare_dispatch_def do_prepare_dispatch_def mark_dispatched_def eval_prims
        at_clock_def worker_current_def lone_workers advance_members_def upd_requests_def eval_lone)
  then show ?thesis
    by (simp add: completion_current_def worker_completion_def lone_exec_fields worker_current_def lone_workers
        find_batch_def) (simp add: eval_lone)
qed

theorem every_answer_is_settled_witness:
  "\<exists>W m c'. cluster plain_platform lone_coord3 W \<and> dispatch_frame lone_exec \<in> W \<and>
     worker_message (Id 3) (Id 4) (CpuExecutor default_capability) (dispatch_frame lone_exec) = Worker_answer m \<and>
     handle_complete (\<lambda>_. 9) 5 m lone_coord3 = ([(5, result_ack (Inr ()))], c') \<and>
     map_option bat_state (find_batch (co_fabric c') (Id 1)) = Some BS_completed"
proof -
  obtain W where W: "cluster plain_platform lone_coord3 W" "dispatch_frame lone_exec \<in> W" using lone_cluster by blast
  let ?wc = "\<lparr>wc_completion = worker_completion (Id 3) (Id 4) lone_exec (cpu_execute lone_exec)\<rparr>"
  define m where "m = \<lparr>fm_type = MT_complete, fm_body = encode_complete ?wc\<rparr>"
  have m: "worker_message (Id 3) (Id 4) (CpuExecutor default_capability) (dispatch_frame lone_exec) = Worker_answer m"
    using worker_answers [OF lone_exec_ok] by (simp add: m_def)
  have dec: "decode_complete (fm_body m) = Some ?wc"
    using complete_msg.decode_encode [of ?wc] cpu_completion_ok [OF lone_exec_ok] by (simp add: m_def)
  define f where "f = dispatch_frame lone_exec"
  have same: "ex = lone_exec" if "f = dispatch_frame ex" "exec_ok ex" for ex
    using that dispatch_msg.decode_encode [of "\<lparr>disp_exec = ex\<rparr>"]
      dispatch_msg.decode_encode [of "\<lparr>disp_exec = lone_exec\<rparr>"] lone_exec_ok
    by (simp add: dispatch_frame_def f_def)
  have "completion_current (co_fabric lone_coord3) (wc_completion ?wc)"
    using lone_answer_current by (simp add: lone_coord3_def)
  then obtain c' where "handle_complete (\<lambda>_. 9) 5 m lone_coord3 = ([(5, result_ack (Inr ()))], c')"
    "map_option bat_state (find_batch (co_fabric c') (Id 1)) = Some BS_completed"
    using every_answer_is_settled [OF W m, folded f_def, of "\<lambda>_. 9" 5] dec lone_exec_fields(1)
    by (auto dest: same)
  then show ?thesis using W m by blast
qed

end
