(* ===== verification/Recovery_Props.thy ===== *)
theory Recovery_Props
  imports Recovery Sched_Props
begin

text \<open>
  What a process that starts from a state file gets, for every state a runtime can be in, however
  many calls and recoveries came before.
\<close>

lemma sample_lifetime: "lifetime plain_platform sample2" "lifetime plain_platform sample1"
  using sample_any by (auto intro: reachable_lifetime)

text \<open>
  C23: a recovery restores every request, attempt and batch but for the fields that are not saved
  (the sealing time and the flag of the authoritative completion of a request, the error code of an
  attempt, the outcomes, results, cancellations, allowed wait and local flag of a batch; its
  descriptor is that of its first member), the id counters, the epoch and the served work of every tenant, and
  keeps the policy of the process that recovers.
\<close>

theorem recovery_restores_the_records:
  assumes "lifetime P s"
  shows "find_request (load_persisted (build_persisted s) s0) = map_option restored_request \<circ> find_request s \<and>
    find_attempt (load_persisted (build_persisted s) s0) = map_option restored_attempt \<circ> find_attempt s \<and>
    find_batch (load_persisted (build_persisted s) s0) = map_option (restored_batch s) \<circ> find_batch s \<and>
    im_epoch (load_persisted (build_persisted s) s0) = im_epoch s \<and>
    im_next_request (load_persisted (build_persisted s) s0) = im_next_request s \<and>
    im_next_batch (load_persisted (build_persisted s) s0) = im_next_batch s \<and>
    im_next_attempt (load_persisted (build_persisted s) s0) = im_next_attempt s \<and>
    im_next_generation (load_persisted (build_persisted s) s0) = im_next_generation s \<and>
    (\<forall>t. served (im_fairness (load_persisted (build_persisted s) s0)) t = served (im_fairness s) t) \<and>
    im_policy (load_persisted (build_persisted s) s0) = im_policy s0"
  using lifetime_good [OF assms]
  by (simp add: recovered_requests recovered_attempts recovered_batches recovered_epoch served_def
      recovered_served load_persisted_fields(3-5) build_persisted_counters)

theorem recovery_restores_the_records_witness:
  "find_request (load_persisted (build_persisted sample2) sample0) (Id 1)
     = Some (sample_member\<lparr>req_state := RS_batched, req_in_waiting := False\<rparr>) \<and>
   im_next_batch (load_persisted (build_persisted sample2) sample0) = im_next_batch sample2"
  using recovery_restores_the_records [OF sample_lifetime(1), of sample0]
  by (simp add: find_request_def [of sample2] restored_request_def is_waiting_state_def sample_member_def
      sample_request_def)

text \<open>
  C11: the tables stay consistent through any calls and any crashes with recoveries between them:
  ids are dense and below their counters, every record is stored under its id, members of a batch
  are known requests with the key of the batch, the waiting index holds requests under their
  keys, the forming table names fillable batches with the right key, the seal order repeats
  nothing, and the ordered maps are sorted.
\<close>

theorem recovery_keeps_the_invariant:
  assumes "lifetime P s"
  shows "struct_inv s \<and> store_inv s"
  using lifetime_good [OF assms] by (simp add: good_tables_def)

theorem recovery_keeps_the_invariant_witness:
  "struct_inv (load_persisted (build_persisted sample2) sample1)"
  using recovery_keeps_the_invariant [OF life_recover [OF sample_lifetime]] by blast

text \<open>
  C24: a recovery rebuilds the queues from the records alone. The waiting index holds every request
  that is eligible or waiting, in the order of the ids, whether or not the saved runtime had it in
  the index; the seal order is the order of the ids of the sealed batches, not that of their
  sealing; the forming table names the forming batch with the largest id of each key.
\<close>

theorem recovery_rebuilds_the_queues:
  shows "index_ids (im_waiting (load_persisted (build_persisted s) s0)) k
      = [req_id r. (_, r) \<leftarrow> im_requests s, is_waiting_state (req_state r) \<and>
           CompatibilityKey_build (m_descriptor (req_meta r)) = k] \<and>
    im_sealed_order (load_persisted (build_persisted s) s0)
      = [bat_id b. (_, b) \<leftarrow> im_batches s, bat_state b = BS_sealed] \<and>
    map_of (im_forming (load_persisted (build_persisted s) s0)) k
      = (case rev [b. (_, b) \<leftarrow> im_batches s, bat_state b = BS_forming \<and> bat_key b = k] of
           [] \<Rightarrow> None | b # _ \<Rightarrow> Some (bat_id b))"
  by (simp add: recovered_waiting recovered_order recovered_forming_exact)


lemma sample2_served: "fc_served (im_fairness sample2) = [(Id 7, 3)]"
proof -
  have "fc_served (im_fairness sample1) = []"
    by (simp add: sample1_def submit_def do_submit_def sample0_def Impl_init_def eval_prims
        default_policy_def oversized_def fairness_init_def note_submission_def default_request_def)
  then have "fc_served (im_fairness sample_filled) = [(Id 7, 3)]"
    by (simp add: sample_filled_def sample_open eval_prims add_member_to_batch_def sample_request_def
        note_placed_def)
  then have "fc_served (im_fairness sample_formed) = [(Id 7, 3)]"
    by (simp add: sample_formed_settle settle_forming_def Let_def)
  then show ?thesis
    by (simp add: sample2_def sample_sealed_def do_seal_def find_batch_def Let_def)
qed

definition sample_saved :: PersistedRuntime where
  "sample_saved = build_persisted sample2"

lemma sample_saved_parts:
  "rt_requests sample_saved = [persist_request (sample_member\<lparr>req_state := RS_batched\<rparr>)]"
  "rt_attempts sample_saved = [persist_attempt sample_attempt]"
  "rt_batches sample_saved = [persist_batch (sample_batch\<lparr>bat_state := BS_sealed, bat_sealed_ns := 6\<rparr>)]"
  "rt_fairness_served sample_saved = [(to_string_u64 7, 3)]"
  by (simp_all add: sample_saved_def build_persisted_def served_all_def sample2_served)

lemma length_seven: "length (to_string_u64 7) = 1"
  by (simp add: to_string_u64_def nat_to_string.simps)

lemma sample_key_length: "length (key_digest sample_key) = 32"
  unfolding sample_key_def by (rule length_build)

lemma sample_descriptor_ok: "descriptor_ok sample_descriptor"
  using default_descriptor_ok
  by (simp add: sample_descriptor_def descriptor_ok_def desc_ok_def string_ok_short)

lemma sample_request_ok: "request_ok (persist_request (sample_member\<lparr>req_state := RS_batched\<rparr>))"
  by (simp add: request_ok_def persist_request_def sample_member_def sample_request_def sample_descriptor_ok
      time_ok_def null_id_def is_null_def string_ok_short)
    (simp add: sample_meta_def default_metadata_def enum_ok_def enum_ok_defs LatencyClass_cast_def
      PriorityClass_cast_def word_le_nat_alt)

lemma sample_attempt_ok: "attempt_ok (persist_attempt sample_attempt)"
  by (simp add: attempt_ok_def persist_attempt_def sample_attempt_def default_attempt_def time_ok_def
      is_null_def null_id_def string_ok_short enum_ok_def enum_ok_defs CompletionStatus_cast_def word_le_nat_alt)

lemma sample_batch_ok: "batch_ok [Id 1] (persist_batch (sample_batch\<lparr>bat_state := BS_sealed, bat_sealed_ns := 6\<rparr>))"
  by (simp add: batch_ok_def persist_batch_def kMaxRecords_def is_null_def null_id_def time_ok_def)
    (simp add: sample_batch_def sample_empty_def default_batch_def sample_key_length)

lemma sample_saved_ok: "runtime_ok sample_saved"
proof -
  have "pr_id (persist_request (sample_member\<lparr>req_state := RS_batched\<rparr>)) = Id 1"
    by (simp add: persist_request_def sample_member_def sample_request_def)
  then show ?thesis
    by (simp add: runtime_ok_def sample_saved_parts kMaxRecords_def sample_request_ok sample_attempt_ok
        sample_batch_ok members_disjoint_def std_ok_def std_keys_def string_ok_short length_seven)
qed

lemma sample_saved_size: "length (save_bytes sample_saved) \<le> 1000"
  by (simp add: save_bytes_def save_body_def sample_saved_parts length_Sha256_digest write_request_def
      write_attempt_def write_batch_def write_served_def write_ids_def write_descriptor_def
      persist_request_def persist_attempt_def persist_batch_def wlen sample_attempt_def length_seven
      default_attempt_def eval_sample sample_meta_def default_metadata_def sample_descriptor_def
      default_descriptor_def default_device_def sample_key_length)


end
