(* ===== verification/Cli_Props.thy ===== *)
theory Cli_Props
  imports Cli Recovery_Props
begin

text \<open>
  What commands do to the state file that the next command starts from.
\<close>

section \<open>Saving at the end of a command\<close>

text \<open>The image fits the loader's bounds and has no lineage; the file system does its part.\<close>

definition storable :: "Impl \<Rightarrow> bool" where
  "storable s \<longleftrightarrow> runtime_ok (build_persisted s) \<and> (\<forall>x \<in> set (im_batches s). bat_parents (snd x) = []) \<and>
     length (save_bytes (build_persisted s)) \<le> kMaxRecords * 8 + 4096"

definition disk_ok :: "CliOs \<Rightarrow> Impl \<Rightarrow> bool" where
  "disk_ok os s \<longleftrightarrow> sv_open (cli_save os) \<and> sv_write (cli_save os) \<and> sv_rename (cli_save os) \<and> length (save_bytes (build_persisted s)) \<le> sv_reached (cli_save os)"

lemma persist_saves:
  assumes "disk_ok os s" and "state \<noteq> []"
  shows "\<exists>fs'. persist os state s fs = ([], fs') \<and> fs' state = Some (save_bytes (build_persisted s))"
proof -
  have "tmp_name state \<noteq> state" by (simp add: tmp_name_def)
  then show ?thesis
    using assms by (auto simp: disk_ok_def persist_def persist_to_def save_def Let_def)
qed

lemma image_loads:
  assumes "storable s" and "fs state = Some (save_bytes (build_persisted s))"
  shows "load True True state fs = Inr (build_persisted s)"
proof -
  have "\<forall>b \<in> set (rt_batches (build_persisted s)). pb_parents b = []"
    using assms(1) by (auto simp: storable_def build_persisted_def persist_batch_def)
  then show ?thesis
    using assms saved_image_parsed by (simp add: load_def storable_def)
qed

lemma persisted_frame [simp]:
  "build_persisted (flush s) = build_persisted s" "build_persisted (at_clock c s) = build_persisted s"
  by (simp_all add: build_persisted_def flush_def at_clock_def served_all_def)

lemma find_at_clock [simp]:
  "find_request (at_clock c s) = find_request s" "find_batch (at_clock c s) = find_batch s"
  by (simp_all add: fun_eq_iff find_request_def find_batch_def at_clock_def)

section \<open>A state file that is refused\<close>

lemma empty_fabric:
  "find_request (cli_fabric os) = Map.empty" "find_batch (cli_fabric os) = Map.empty"
  "rt_requests (build_persisted (cli_fabric os)) = []" "rt_batches (build_persisted (cli_fabric os)) = []"
  by (simp_all add: cli_fabric_def Impl_init_def build_persisted_def fun_eq_iff find_request_def find_batch_def)

lemma empty_commands:
  assumes "find_request s = Map.empty" and "find_batch s = Map.empty"
  shows "\<exists>e. cancel i reason now s = (Inl e, flush s)" "\<exists>e. seal b why now s = (Inl e, flush s)"
    "\<exists>e. split b how now s = (Inl e, flush s)" "\<exists>e. merge b c because now s = Some (Inl e, flush s)"
  using assms
  by (simp_all add: cancel_def do_cancel_def seal_def split_def do_split_def merge_def do_merge_def Result_err_def
      is_null_def null_id_def Let_def)

lemma main_changes:
  "cli_main P os t (''cancel'' # opts) fs
    = Some (run_cancel os (''cancel'' # opts) (arg_value (''cancel'' # opts) ''--state'') fs)"
  "cli_main P os t (''seal'' # opts) fs
    = run_seal_split_merge os (''seal'' # opts) (arg_value (''seal'' # opts) ''--state'') ''seal'' fs"
  "cli_main P os t (''split'' # opts) fs
    = run_seal_split_merge os (''split'' # opts) (arg_value (''split'' # opts) ''--state'') ''split'' fs"
  "cli_main P os t (''merge'' # opts) fs
    = run_seal_split_merge os (''merge'' # opts) (arg_value (''merge'' # opts) ''--state'') ''merge'' fs"
  by (simp_all add: cli_main_def Let_def del: arg_value.simps)


definition sample_os :: CliOs where
  "sample_os = \<lparr>cli_told = True, cli_readable = True, cli_save = \<lparr>sv_open = True, sv_write = True,
     sv_reached = 1000, sv_rename = True\<rparr>, cli_clock = (\<lambda>i. 9)\<rparr>"

lemma sample_os_simps [simp]:
  "cli_told sample_os" "cli_readable sample_os" "cli_clock sample_os i = 9"
  "cli_save sample_os = \<lparr>sv_open = True, sv_write = True, sv_reached = 1000, sv_rename = True\<rparr>"
  by (simp_all add: sample_os_def)

lemma empty_image_size: "length (save_bytes (build_persisted (cli_fabric os))) \<le> 1000"
  by (simp add: save_bytes_def save_body_def length_Sha256_digest build_persisted_def cli_fabric_def Impl_init_def
      fairness_init_def served_all_def wlen)


section \<open>A change that lasts\<close>

lemma cancelled_states:
  assumes "do_cancel i reason now s = (Inr (), c)"
  shows "map_option req_state \<circ> find_request c = (map_option req_state \<circ> find_request s)(i \<mapsto> RS_cancelled)"
  using assms
  by (auto simp: do_cancel_def Let_def remove_member_def Result_err_def fun_eq_iff split: option.splits if_splits)

lemma cancel_args:
  assumes "state \<noteq> ''--request''"
  shows "arg_value [''cancel'', ''--state'', state, ''--request'', n] ''--state'' = state"
    and "arg_value [''cancel'', ''--state'', state, ''--request'', n] ''--request'' = n"
  using assms by simp_all


lemma sample1_served: "fc_served (im_fairness sample1) = []"
  by (simp add: sample1_def submit_def do_submit_def sample0_def Impl_init_def eval_prims
      default_policy_def oversized_def fairness_init_def note_submission_def default_request_def)

lemma sample1_saved:
  "rt_requests (build_persisted sample1) = [persist_request sample_request]"
  "rt_attempts (build_persisted sample1) = [persist_attempt sample_attempt]"
  "rt_batches (build_persisted sample1) = []" "rt_fairness_served (build_persisted sample1) = []"
  by (simp_all add: build_persisted_def served_all_def sample1_served)

lemma sample1_loaded:
  "im_requests (load_persisted (build_persisted sample1) s0) = [(Id 1, sample_request)]"
  "im_attempts (load_persisted (build_persisted sample1) s0) = [(Id 1, sample_attempt)]"
  "im_batches (load_persisted (build_persisted sample1) s0) = []"
  "fc_served (im_fairness (load_persisted (build_persisted sample1) s0)) = []"
  by (simp_all add: load_persisted_def sample1_saved Let_def load_request_def load_attempt_def clear_runtime_def
      restore_request_def restore_attempt_def persist_request_def persist_attempt_def sample_request_def
      sample_attempt_def default_request_def default_attempt_def is_waiting_state_def set_waiting_def
      put_request_def put_attempt_def set_fairness_def fairness_reset_def sample_meta_def)

definition sample_back :: Impl where
  "sample_back = at_clock 9 (load_persisted (build_persisted sample1) (cli_fabric sample_os))"

definition sample_cancelled :: Impl where
  "sample_cancelled = snd (do_cancel (Id 1) CR_client_request 9 sample_back)"

lemma sample_back_fields:
  "im_requests sample_back = [(Id 1, sample_request)]" "im_attempts sample_back = [(Id 1, sample_attempt)]"
  "im_batches sample_back = []" "fc_served (im_fairness sample_back) = []"
  by (simp_all add: sample_back_def at_clock_def sample1_loaded)

lemma sample_cancelled_fields:
  "do_cancel (Id 1) CR_client_request 9 sample_back = (Inr (), sample_cancelled)"
  "im_requests sample_cancelled = [(Id 1, sample_request\<lparr>req_state := RS_cancelled, req_in_waiting := False\<rparr>)]"
  "im_attempts sample_cancelled = [(Id 1, end_attempt RS_cancelled CS_cancelled 9 sample_attempt)]"
  "im_batches sample_cancelled = []" "fc_served (im_fairness sample_cancelled) = []"
  by (simp_all add: sample_cancelled_def do_cancel_def find_request_def sample_back_fields sample_request_def
      is_request_terminal_def in_batch_state_def Let_def upd_request_def upd_attempt_def std_modify_def
      set_waiting_def inc_def emit_def)

lemma sample_request_stored:
  "request_ok (persist_request (sample_request\<lparr>req_state := st, req_in_waiting := w\<rparr>))"
  by (simp add: request_ok_def persist_request_def sample_request_def sample_descriptor_ok
      time_ok_def null_id_def is_null_def string_ok_short)
    (simp add: sample_meta_def default_metadata_def enum_ok_def enum_ok_defs LatencyClass_cast_def
      PriorityClass_cast_def word_le_nat_alt)

lemma one_request_storable:
  assumes "im_requests s = [(Id 1, sample_request\<lparr>req_state := st, req_in_waiting := w\<rparr>)]"
    and "im_attempts s = [(Id 1, a)]" and "attempt_ok (persist_attempt a)" and "att_result a = []"
    and "im_batches s = []" and "fc_served (im_fairness s) = []"
  shows "storable s \<and> length (save_bytes (build_persisted s)) \<le> 1000"
proof -
  have parts: "rt_requests (build_persisted s) = [persist_request (sample_request\<lparr>req_state := st, req_in_waiting := w\<rparr>)]"
    "rt_attempts (build_persisted s) = [persist_attempt a]" "rt_batches (build_persisted s) = []"
    "rt_fairness_served (build_persisted s) = []"
    using assms by (simp_all add: build_persisted_def served_all_def)
  have "length (save_bytes (build_persisted s)) \<le> 1000"
    using assms(4) by (simp add: save_bytes_def save_body_def parts length_Sha256_digest write_request_def
        write_attempt_def write_ids_def write_descriptor_def persist_request_def persist_attempt_def wlen
        sample_request_def sample_meta_def default_metadata_def sample_descriptor_def
        default_descriptor_def default_device_def)
  moreover from this have "storable s"
    using assms(3,5) sample_request_stored
    by (simp add: storable_def runtime_ok_def parts kMaxRecords_def members_disjoint_def)
  ultimately show ?thesis by simp
qed


end
