(* ===== verification/Cuda_Executor.thy ===== *)
theory Cuda_Executor
  imports Executor
begin

text \<open>
  The CUDA executor (\<open>executor/cuda_executor.cu\<close>). Parameters stand for what is not in the
  repository: the answers of the CUDA runtime to the calls of one \<open>execute\<close>, in order (0 is success),
  its error texts, floating-point arithmetic, and the sum the device forms with atomic additions.
  The state is the number of calls made and of live device allocations.
\<close>

section \<open>The environment\<close>

record ('d, 'f) CudaEnv =
  cu_answer :: "nat \<Rightarrow> int"
  cu_error_string :: "int \<Rightarrow> string"
  cu_double :: "u64 \<Rightarrow> 'd" \<comment> \<open>\<open>static_cast<double>(k) * 0.001\<close>\<close>
  cu_zero :: 'd
  cu_add :: "'d \<Rightarrow> 'd \<Rightarrow> 'd"
  cu_narrow :: "'d \<Rightarrow> 'f" \<comment> \<open>\<open>static_cast<float>\<close>\<close>
  cu_float :: "u64 \<Rightarrow> 'f" \<comment> \<open>\<open>static_cast<float>(k) * 0.001f\<close>\<close>
  cu_float_zero :: 'f
  cu_device_sum :: "'f list \<Rightarrow> 'f"
  cu_mismatch :: "'f \<Rightarrow> 'f \<Rightarrow> bool" \<comment> \<open>a NaN, or farther apart than the tolerance\<close>
  cu_show :: "'f \<Rightarrow> string"

record DeviceState =
  dv_calls :: nat
  dv_live :: nat

section \<open>The pattern\<close>

definition cap_elems :: "u64 \<Rightarrow> u64" where
  "cap_elems work = (let n = (if work = 0 then 1 else work) in if n > 1048576 then 1048576 else n)"

definition member_seed :: "MemberWork \<Rightarrow> u32" where
  "member_seed m = ucast (id_value (mw_request m) XOR (mw_work m * 0x9E3779B9))"

definition pattern :: "u32 \<Rightarrow> nat \<Rightarrow> u64" where
  "pattern seed i = (of_nat i * 2654435761 + ucast seed) AND 0xffff"

definition host_sum :: "('d, 'f) CudaEnv \<Rightarrow> MemberWork \<Rightarrow> 'f" where
  "host_sum env m = cu_narrow env (fold (\<lambda>i sum. cu_add env sum (cu_double env (pattern (member_seed m) i)))
     [0..<unat (cap_elems (mw_work m))] (cu_zero env))"

text \<open>\<open>offsets\<close> and \<open>total\<close>.\<close>

fun offsets_from :: "u64 \<Rightarrow> MemberWork list \<Rightarrow> u64 list \<times> u64" where
  "offsets_from start [] = ([], start)"
| "offsets_from start (m # ms) =
     (let (os, t) = offsets_from (start + cap_elems (mw_work m)) ms in (start # os, t))"

text \<open>\<open>host_data[offsets[m] + i] = ...\<close>.\<close>

definition write_member :: "('d, 'f) CudaEnv \<Rightarrow> u64 \<times> MemberWork \<Rightarrow> 'f list \<Rightarrow> 'f list" where
  "write_member env e xs = fold (\<lambda>i xs. xs[unat (fst e) + i := cu_float env (pattern (member_seed (snd e)) i)])
     [0..<unat (cap_elems (mw_work (snd e)))] xs"

definition host_data :: "('d, 'f) CudaEnv \<Rightarrow> MemberWork list \<Rightarrow> 'f list" where
  "host_data env ms = (let (os, n) = offsets_from 0 ms
     in fold (write_member env) (zip os ms) (replicate (unat n) (cu_float_zero env)))"

text \<open>
  The kernel on \<open>g\<close> blocks of 256 threads: thread \<open>i\<close> adds element \<open>i\<close> if there is one.
\<close>

definition grid_blocks :: "u64 \<Rightarrow> nat" where
  "grid_blocks n = max 1 (unat ((n + 255) div 256))"

definition sum_kernel :: "('d, 'f) CudaEnv \<Rightarrow> 'f list \<Rightarrow> u64 \<Rightarrow> 'f" where
  "sum_kernel env xs n = cu_device_sum env (map ((!) xs) (filter (\<lambda>i. i < unat n) [0..<256 * grid_blocks n]))"

definition device_sums :: "('d, 'f) CudaEnv \<Rightarrow> 'f list \<Rightarrow> MemberWork list \<Rightarrow> 'f list" where
  "device_sums env data ms = map (\<lambda>(off, m). sum_kernel env (drop (unat off) data) (cap_elems (mw_work m)))
     (zip (fst (offsets_from 0 ms)) ms)"

section \<open>Execution\<close>

text \<open>\<open>CUDA_CHECK(expr)\<close>: return an error unless the next call of the runtime succeeds.\<close>

definition cuda_check :: "('d, 'f) CudaEnv \<Rightarrow> string \<Rightarrow> (nat \<Rightarrow> nat) \<Rightarrow> (DeviceState \<Rightarrow> 'a Result \<times> DeviceState) \<Rightarrow>
    DeviceState \<Rightarrow> 'a Result \<times> DeviceState" where
  "cuda_check env expr eff rest d =
     (let e = cu_answer env (dv_calls d);
          d = d\<lparr>dv_calls := Suc (dv_calls d)\<rparr>
      in if e \<noteq> 0
         then (Result_err EC_internal (take 255 (expr @ '' (error '' @ to_string_i64 e @ '': '' @
                 cu_error_string env e @ '')'')), d)
         else rest (d\<lparr>dv_live := eff (dv_live d)\<rparr>))"

definition free_both :: "('d, 'f) CudaEnv \<Rightarrow> 'a Result \<Rightarrow> DeviceState \<Rightarrow> 'a Result \<times> DeviceState" where
  "free_both env r = cuda_check env ''cudaFree(d_data)'' (\<lambda>n. n - 1)
     (cuda_check env ''cudaFree(d_out)'' (\<lambda>n. n - 1) (Pair r))"

definition cuda_output :: "('d, 'f) CudaEnv \<Rightarrow> BatchExecution \<Rightarrow> MemberWork \<Rightarrow> 'f \<Rightarrow> MemberResult" where
  "cuda_output env b m dv = \<lparr>mr_request = mw_request m, mr_attempt = mw_attempt m,
     mr_output = ''cuda:work='' @ to_string_u64 (mw_work m) @ '';phase='' @
       (if d_phase (ex_descriptor b) = PH_prefill then ''prefill'' else ''decode'') @ '';sum='' @ cu_show env dv\<rparr>"

text \<open>The verification loop, from member \<open>k\<close> on, with the results so far.\<close>

fun verify :: "('d, 'f) CudaEnv \<Rightarrow> BatchExecution \<Rightarrow> nat \<Rightarrow> (MemberWork \<times> 'f) list \<Rightarrow> MemberResult list \<Rightarrow>
    DeviceState \<Rightarrow> MemberResult list Result \<times> DeviceState" where
  "verify env b k [] results d = free_both env (Inr results) d"
| "verify env b k ((m, dv) # ms) results d =
     (let hv = host_sum env m
      in if cu_mismatch env dv hv
         then free_both env (Result_err EC_internal (''CUDA result mismatch for member '' @ nat_to_string k @
                '' (device='' @ cu_show env dv @ '' host='' @ cu_show env hv @ '')'')) d
         else verify env b (Suc k) ms (results @ [cuda_output env b m dv]) d)"

definition cuda_execute :: "('d, 'f) CudaEnv \<Rightarrow> BatchExecution \<Rightarrow> DeviceState \<Rightarrow>
    MemberResult list Result \<times> DeviceState" where
  "cuda_execute env b =
     (let ms = ex_members b in
      cuda_check env ''cudaMalloc(&d_data, sizeof(float) * static_cast<std::size_t>(total))'' Suc (
      cuda_check env ''cudaMalloc(&d_out, sizeof(float) * n_out)'' Suc (
      cuda_check env ''cudaMemcpy(d_data, host_data.data(), sizeof(float) * host_data.size(), cudaMemcpyHostToDevice)'' id (
      cuda_check env ''cudaDeviceSynchronize()'' id (
      cuda_check env ''cudaMemset(d_out, 0, sizeof(float) * n_out)'' id (
      cuda_check env ''cudaGetLastError()'' id (
      cuda_check env ''cudaDeviceSynchronize()'' id (
      cuda_check env ''cudaMemcpy(device_sums.data(), d_out, sizeof(float) * device_sums.size(), cudaMemcpyDeviceToHost)'' id (
      verify env b 0 (zip ms (device_sums env (host_data env ms) ms)) [])))))))))"

text \<open>The executor as the scheduler sees it, on a device with nothing allocated.\<close>

definition CudaExecutor :: "('d, 'f) CudaEnv \<Rightarrow> ExecutorCapability \<Rightarrow> IExecutor" where
  "CudaExecutor env c = \<lparr>exec_capability = c,
     exec_execute = (\<lambda>b. fst (cuda_execute env b \<lparr>dv_calls = 0, dv_live = 0\<rparr>))\<rparr>"

definition cuda_cancel :: "BatchId \<Rightarrow> bool" where
  "cuda_cancel batch = False"

text \<open>
  The line about the installed device, and what \<open>err\<close> is set to. The answer of \<open>cudaMemGetInfo\<close> is not
  looked at: without one the total stays 0.
\<close>

record DeviceProp =
  prop_name :: string
  prop_major :: int
  prop_minor :: int

definition gpu_info :: "(int \<Rightarrow> string) \<Rightarrow> int \<Rightarrow> int \<Rightarrow> DeviceProp \<Rightarrow> u64 option \<Rightarrow> string \<Rightarrow> string \<times> string" where
  "gpu_info error_string got_device got_prop prop mem err =
     (if got_device \<noteq> 0 then ([], error_string got_device)
      else if got_prop \<noteq> 0 then ([], error_string got_prop)
      else (prop_name prop @ '' | compute_capability='' @ to_string_i64 (prop_major prop) @ ''.'' @
        to_string_i64 (prop_minor prop) @ '' | total_mem='' @
        to_string_u64 ((case mem of None \<Rightarrow> 0 | Some n \<Rightarrow> n) div 1048576) @ '' MiB'', err))"

section \<open>Members keep their results\<close>

lemma cuda_check_Inr:
  "cuda_check env expr eff rest d = (Inr x, d') \<Longrightarrow>
   \<exists>d0. rest d0 = (Inr x, d')"
  by (auto simp: cuda_check_def Let_def Result_err_def split: if_splits)

lemma verify_results:
  "verify env b k ms rs d = (Inr out, d') \<Longrightarrow> out = rs @ map (\<lambda>(m, dv). cuda_output env b m dv) ms"
proof (induction ms arbitrary: k rs)
  case Nil
  then show ?case by (auto simp: free_both_def dest!: cuda_check_Inr)
next
  case (Cons e ms)
  then show ?case
    by (cases e) (auto simp: Let_def free_both_def Result_err_def
        dest!: cuda_check_Inr Cons.IH split: if_splits)
qed

lemma length_offsets [simp]: "length (fst (offsets_from n ms)) = length ms"
  by (induction ms arbitrary: n) (auto simp: split_beta Let_def)

lemma length_device_sums [simp]: "length (device_sums env data ms) = length ms"
  by (simp add: device_sums_def)

lemma outputs_ids:
  "length dvs = length ms \<Longrightarrow> map mr_request (map (\<lambda>(m, dv). cuda_output env b m dv) (zip ms dvs)) = map mw_request ms \<and>
    map mr_attempt (map (\<lambda>(m, dv). cuda_output env b m dv) (zip ms dvs)) = map mw_attempt ms"
proof (induction ms arbitrary: dvs)
  case (Cons m ms)
  then show ?case by (cases dvs) (simp_all add: cuda_output_def)
qed simp

text \<open>Whatever the device answers, reported results are those of all members, in their order.\<close>

lemma cuda_results:
  assumes "cuda_execute env b d = (Inr rs, d')"
  shows "map mr_request rs = map mw_request (ex_members b) \<and> map mr_attempt rs = map mw_attempt (ex_members b)"
proof -
  let ?ms = "ex_members b"
  let ?sums = "device_sums env (host_data env ?ms) ?ms"
  obtain d0 where "verify env b 0 (zip ?ms ?sums) [] d0 = (Inr rs, d')"
    using assms by (auto simp: cuda_execute_def Let_def dest!: cuda_check_Inr)
  then have rs: "rs = map (\<lambda>(m, dv). cuda_output env b m dv) (zip ?ms ?sums)" using verify_results by fastforce
  then show ?thesis using outputs_ids [of ?sums ?ms] by simp
qed

interpretation cuda: faithful_executor "exec_execute (CudaExecutor env c)" for env c
proof
  fix b rs r
  assume ex: "exec_execute (CudaExecutor env c) b = Inr rs" and r: "r \<in> set rs"
  obtain d' where "cuda_execute env b \<lparr>dv_calls = 0, dv_live = 0\<rparr> = (Inr rs, d')"
    using ex by (cases "cuda_execute env b \<lparr>dv_calls = 0, dv_live = 0\<rparr>") (simp add: CudaExecutor_def)
  note res = cuda_results [OF this]
  obtain i where i: "i < length rs" "r = rs ! i" using r by (metis in_set_conv_nth)
  then have "i < length (ex_members b)" using res by (metis length_map)
  moreover have "mr_request r = mw_request (ex_members b ! i)" "mr_attempt r = mw_attempt (ex_members b ! i)"
    using res i calculation by (metis nth_map)+
  ultimately show "\<exists>m \<in> set (ex_members b). mr_request r = mw_request m \<and> mr_attempt r = mw_attempt m"
    by (metis nth_mem)
qed

lemma CudaExecutor_faithful: "executor_faithful (CudaExecutor env c)"
  by (simp add: executor_faithful_def cuda.faithful_executor_axioms)

section \<open>The device sees every member's data\<close>

definition member_floats :: "('d, 'f) CudaEnv \<Rightarrow> MemberWork \<Rightarrow> 'f list" where
  "member_floats env m = map (\<lambda>i. cu_float env (pattern (member_seed m) i)) [0..<unat (cap_elems (mw_work m))]"

definition elements :: "MemberWork list \<Rightarrow> nat" where
  "elements ms = sum_list (map (\<lambda>m. unat (cap_elems (mw_work m))) ms)"

lemma cap_elems_bounds: "0 < unat (cap_elems w)" "unat (cap_elems w) \<le> 2 ^ 20"
  by (auto simp: cap_elems_def Let_def unat_gt_0 word_le_nat_alt not_less)

lemma elements_Cons [simp]: "elements (m # ms) = unat (cap_elems (mw_work m)) + elements ms"
  by (simp add: elements_def)

lemma length_member_floats [simp]: "length (member_floats env m) = unat (cap_elems (mw_work m))"
  by (simp add: member_floats_def)

lemma write_elements:
  "length mid = k \<Longrightarrow> fold (\<lambda>i xs. xs[length pre + i := g i]) [0..<k] (pre @ mid @ post) = pre @ map g [0..<k] @ post"
proof (induction k arbitrary: mid post)
  case (Suc k)
  obtain x mid' where "mid = mid' @ [x]" "length mid' = k"
    using Suc.prems by (metis length_Suc_conv_rev)
  then show ?case using Suc.IH [of mid' "x # post"] by (simp add: list_update_append)
qed simp

lemma unat_add_fits: "unat (a :: u64) + unat b < 2 ^ 64 \<Longrightarrow> unat (a + b) = unat a + unat b"
  by (simp add: unat_add_lem [THEN iffD1])

lemma grid_covers: "filter (\<lambda>i. i < unat (cap_elems w)) [0..<256 * grid_blocks (cap_elems w)] = [0..<unat (cap_elems w)]"
proof -
  let ?n = "cap_elems w"
  have "unat (?n + 255) = unat ?n + 255"
    using unat_add_fits [of ?n 255] cap_elems_bounds(2) [of w] by simp
  then have "unat ?n \<le> 256 * grid_blocks ?n"
    by (simp add: grid_blocks_def unat_div)
  then have "[0..<256 * grid_blocks ?n] = [0..<unat ?n] @ [unat ?n..<256 * grid_blocks ?n]"
    by (metis le0 upt_add_eq_append le_add_diff_inverse)
  then show ?thesis by (simp add: filter_id_conv filter_empty_conv)
qed

lemma sum_kernel_members:
  "sum_kernel env (member_floats env m @ xs) (cap_elems (mw_work m)) = cu_device_sum env (member_floats env m)"
proof -
  have "map ((!) (member_floats env m @ xs)) [0..<unat (cap_elems (mw_work m))] = member_floats env m"
    by (rule nth_equalityI) (simp_all add: nth_append)
  then show ?thesis by (simp add: sum_kernel_def grid_covers)
qed

lemma layout:
  assumes "unat start + elements ms < 2 ^ 64" and "length pre = unat start" and "length rest = elements ms"
  shows "fold (write_member env) (zip (fst (offsets_from start ms)) ms) (pre @ rest)
      = pre @ concat (map (member_floats env) ms) \<and>
    map (\<lambda>(off, m). sum_kernel env (drop (unat off) (pre @ concat (map (member_floats env) ms)))
        (cap_elems (mw_work m))) (zip (fst (offsets_from start ms)) ms)
      = map (\<lambda>m. cu_device_sum env (member_floats env m)) ms \<and>
    unat (snd (offsets_from start ms)) = unat start + elements ms"
  using assms
proof (induction ms arbitrary: start pre rest)
  case (Cons m ms)
  let ?n = "cap_elems (mw_work m)"
  have next_start: "unat (start + ?n) = unat start + unat ?n"
    using Cons.prems(1) by (intro unat_add_fits) simp
  obtain mid post where rest: "rest = mid @ post" "length mid = unat ?n"
    using Cons.prems(3) by (metis elements_Cons append_take_drop_id length_take le_add1 min.absorb2)
  have written: "write_member env (start, m) (pre @ rest) = (pre @ member_floats env m) @ post"
    using write_elements [of mid "unat ?n" pre "\<lambda>i. cu_float env (pattern (member_seed m) i)" post] rest Cons.prems(2)
    by (simp add: write_member_def member_floats_def)
  note IH = Cons.IH [of "start + ?n" "pre @ member_floats env m" post]
  have "sum_kernel env (member_floats env m @ tl) ?n = cu_device_sum env (member_floats env m)" for tl
    by (simp add: sum_kernel_members)
  then show ?case
    using IH Cons.prems rest written next_start by (auto simp: split_beta Let_def)
qed (simp add: elements_def)

lemma elements_small: "elements ms \<le> length ms * 2 ^ 20"
proof (induction ms)
  case (Cons m ms)
  then show ?case using cap_elems_bounds(2) [of "mw_work m"] by simp
qed (simp add: elements_def)

lemma device_sums_members:
  assumes "length ms < 2 ^ 43"
  shows "device_sums env (host_data env ms) ms = map (\<lambda>m. cu_device_sum env (member_floats env m)) ms"
proof -
  have small: "unat (0 :: u64) + elements ms < 2 ^ 64" using elements_small [of ms] assms by simp
  have "unat (snd (offsets_from 0 ms)) = elements ms"
    using layout [OF small, of "[]" "replicate (elements ms) undefined" env] by simp
  then show ?thesis
    using layout [OF small, of "[]" "replicate (elements ms) (cu_float_zero env)" env]
    by (simp add: device_sums_def host_data_def split_beta)
qed

lemma verify_passes:
  "\<forall>(m, dv) \<in> set ms. \<not> cu_mismatch env dv (host_sum env m) \<Longrightarrow>
   verify env b k ms rs d = free_both env (Inr (rs @ map (\<lambda>(m, dv). cuda_output env b m dv) ms)) d"
  by (induction ms arbitrary: k rs) (auto simp: Let_def)

lemma cuda_check_ok [simp]:
  "cu_answer env (dv_calls d) = 0 \<Longrightarrow>
   cuda_check env expr eff rest d = rest (d\<lparr>dv_calls := Suc (dv_calls d), dv_live := eff (dv_live d)\<rparr>)"
  by (simp add: cuda_check_def)

lemma cuda_check_fails:
  "cu_answer env (dv_calls d) \<noteq> 0 \<Longrightarrow>
   \<exists>e. cuda_check env expr eff rest d = (Inl e, d\<lparr>dv_calls := Suc (dv_calls d)\<rparr>)"
  by (simp add: cuda_check_def Let_def Result_err_def)


definition int_env :: "(int, int) CudaEnv" where
  "int_env = \<lparr>cu_answer = (\<lambda>_. 0), cu_error_string = (\<lambda>_. []), cu_double = uint, cu_zero = 0, cu_add = (+),
     cu_narrow = id, cu_float = uint, cu_float_zero = 0, cu_device_sum = sum_list, cu_mismatch = (\<noteq>),
     cu_show = to_string_i64\<rparr>"

definition one_member :: BatchExecution where
  "one_member = \<lparr>ex_batch = Id 1, ex_generation = Id 1, ex_epoch = Id 1, ex_worker = Id 0,
     ex_descriptor = default_descriptor, ex_members = [\<lparr>mw_request = Id 1, mw_attempt = Id 2, mw_work = 2,
       mw_input_tokens = 0, mw_output_tokens = 0, mw_payload = []\<rparr>]\<rparr>"

lemma int_sums_agree: "cu_device_sum int_env (member_floats int_env m) = host_sum int_env m"
proof -
  have "fold (\<lambda>i s. s + f i) ks a = a + sum_list (map f ks)" for f :: "nat \<Rightarrow> int" and ks a
    by (induction ks arbitrary: a) (simp_all add: add.assoc [symmetric])
  from this [of "\<lambda>i. uint (pattern (member_seed m) i)" _ 0] show ?thesis
    by (simp add: int_env_def member_floats_def host_sum_def)
qed


section \<open>Errors leak device memory\<close>

text \<open>
  \<open>CUDA_CHECK\<close> returns without freeing. When the \<open>k\<close>-th call is the first that fails, the buffers
  allocated before it stay allocated.
\<close>

lemma cuda_error_leaks:
  assumes "\<forall>j < k. cu_answer env (dv_calls d + j) = 0" and "cu_answer env (dv_calls d + k) \<noteq> 0" and "k < 8"
  shows "\<exists>e. cuda_execute env b d = (Inl e, d\<lparr>dv_calls := dv_calls d + Suc k, dv_live := dv_live d + min k 2\<rparr>)"
proof -
  have ok: "j < k \<Longrightarrow> cu_answer env (dv_calls d + j) = 0" for j using assms(1) by blast
  have "k = 0 \<or> k = 1 \<or> k = 2 \<or> k = 3 \<or> k = 4 \<or> k = 5 \<or> k = 6 \<or> k = 7" using assms(3) by auto
  then show ?thesis
    using ok [of 0] ok [of 1] ok [of 2] ok [of 3] ok [of 4] ok [of 5] ok [of 6] assms(2)
    by (elim disjE) (simp_all add: cuda_execute_def cuda_check_def Let_def Result_err_def eval_nat_numeral)
qed

end
