(* ===== verification/Spec2Isabelle.thy ===== *)
theory Spec2Isabelle
  imports Anomalies Cluster_Props Cli_Props Cuda_Executor
begin

text \<open>
  Batch Fabric groups compatible inference requests into batches, hands the batches to workers and
  keeps account of every request and attempt. This library models its C++ sources: the scheduler
  (\<open>src/src/scheduler.cpp\<close>), the parts the scheduler is built from, the state file, the wire protocol
  with its transport, and the three programs under \<open>src/app\<close>.

  \<^bold>\<open>How the program hangs together.\<close> \<open>BatchFabric\<close> holds the whole state of a runtime behind one mutex.
  Requests wait in buckets of equal compatibility key; a tick fills forming batches from the buckets,
  seals those the formation engine decides to seal, and merges or splits sealed ones. A sealed batch
  is run in process by an executor or handed to a worker, and a completion report ends it. The
  coordinator process drives one runtime from messages of drivers and workers, the worker process
  answers dispatch messages with the outcomes of an executor, and each command of the command line
  program recovers a runtime from a file, changes it and saves it again.

  \<^bold>\<open>Theories, in the order of their imports.\<close>
  \<^item> \<open>BF_Prelude\<close>: machine types, named collections of facts, results as sums. \<open>Std_Map\<close>: the ordered
    maps of the runtime as sorted lists of entries.
  \<^item> \<open>Enums\<close>, \<open>Ids\<close>, \<open>Results\<close> (\<open>enums\<close>, \<open>id.hpp\<close>, \<open>error\<close>, \<open>result.hpp\<close>, \<open>event\<close>): the vocabulary. A raw
    constructor stands for the integer values of an enum that name no enumerator.
  \<^item> \<open>Byte_IO\<close>, \<open>Hash\<close>, \<open>Identity\<close>, \<open>Policy\<close>, \<open>Compatibility\<close>, \<open>Fairness\<close>, \<open>Formation\<close>, \<open>Executor\<close>, \<open>Clock\<close>,
    \<open>Cuda_Executor\<close>: one theory for each file of that name, with the lemmas that make it correct: the
    streaming hash against the block-wise one, exactness of budgets, fairness of the tenant choice,
    monotonicity of the decision to seal, faithfulness of the executors.
  \<^item> \<open>Sched_State\<close> (the record \<open>Impl\<close>), \<open>Sched_Ops\<close> (submission, filling, sealing, splitting, merging,
    cancellation, expiry, ticks, retries), \<open>Sched_Api\<close> (completion, dispatch, the public methods).
    Each handler is one function, with every branch of the code and its early returns.
  \<^item> \<open>Sched_Inv\<close>, \<open>Sched_Keep\<close>, \<open>Sched_Store\<close>, \<open>Reach\<close>: the invariant of the tables, that every handler
    keeps it, and the runs of a runtime as an inductive relation over public calls. \<open>Sched_Live\<close> has
    the lemmas about ticks that end and leave nothing overdue. \<open>Scenario\<close> and \<open>Scenario_Wait\<close> are the
    small concrete runs the witnesses use. \<open>Sched_Props\<close>: the properties of the scheduler.
    \<open>Sched_Budget\<close>: no batch outgrows the limits of the policy, over all runs, with the
    64-bit sums of the code tied to the exact ones. \<open>Attempt_Inv\<close>: no two requests share
    their current attempt, and a request whose current attempt has ended has ended itself.
  \<^item> \<open>Place_Inv\<close>, \<open>Place_Form\<close>, \<open>Place_Split\<close>, \<open>Place_Report\<close>, \<open>Place_Props\<close>: where a request is. An invariant
    \<open>placed B D\<close>, kept by every handler, says that a request is in one place that fits its state,
    apart from batches \<open>B\<close> and requests \<open>D\<close> that a handler is rearranging. It holds for callers that
    are \<open>orderly\<close>: reports answer for all members, only ended requests are retried, batches are run
    in their own epoch. \<open>Place_Props\<close> and \<open>Anomalies\<close> show what the scheduler does to other callers.
  \<^item> \<open>Introspection\<close> (\<open>snapshot.hpp\<close>, \<open>explain.hpp\<close>), \<open>Persistence\<close> (\<open>persistence.cpp\<close>), \<open>Recovery\<close> and
    \<open>Recovery_Props\<close> (saving and loading a runtime): round trips, refusal of bad images, what a
    recovery restores.
  \<^item> \<open>Protocol\<close>, \<open>Transport\<close>: message codecs and framing over a stream that may be cut anywhere.
  \<^item> \<open>Worker\<close>, \<open>Coordinator\<close>, \<open>Coord_Props\<close>, \<open>Round_Trip\<close>: the two processes. The coordinator refines the
    scheduler: each event is a sequence of public calls. \<open>Round_Trip\<close> composes scheduler,
    codecs, worker and executor.
  \<^item> \<open>Handed\<close>, \<open>Wire_Fit\<close>, \<open>Cluster\<close>, \<open>Cluster_Props\<close>: the whole system, one coordinator with drivers
    and workers. \<open>cluster\<close> is its step relation: drivers send what they like except reports,
    connections come and go, and a report is the answer of the worker program (with the CPU
    executor) to some frame sent earlier, so that frames may be lost, delayed, repeated and
    reordered. \<open>Handed\<close>: work that has been handed out is left alone until it is reported.
    \<open>Wire_Fit\<close>: whatever is handed out fits the wire. Both make each report complete, so that the
    coordinator is an orderly caller, which gives the properties in \<open>Cluster_Props\<close>; its concrete
    run goes from the registration of a worker to a request that is dispatched and answered.
  \<^item> \<open>Cli\<close>, \<open>Cli_Props\<close>: the command line program and the life of its state file. \<open>Anomalies\<close>: facts that
    back the findings of this development.

  \<^bold>\<open>Conventions.\<close> Identifiers and counters are 64-bit words and wrap; times are integers, bounded by
  \<open>time_ok\<close> where they are encoded. A pointer into a table is the key of the record, and a write
  through it is \<open>upd_request\<close>, \<open>upd_batch\<close> or \<open>upd_attempt\<close>. Undefined behaviour (a null pointer
  used, a vector changed while it is iterated, a channel used after its deletion, an overflow of
  signed arithmetic) is \<open>None\<close>; it is never assumed away. Events are collected in the state
  and given to the sink by \<open>flush\<close>.

  \<^bold>\<open>Bounds and fuel.\<close> No model uses fuel. Loops that are not structural are terminating functions:
  filling by the number of candidates, the worker loop and the receive loops by what is left of the
  stream. The loop over sealed batches that may split is a partial function whose result is shown
  to exist while ids are left; \<open>spare\<close> says that an id is unused, which is so until a counter has
  wrapped. The benchmark's limit of 100000 iterations is the code's own.

  \<^bold>\<open>Parameters.\<close> Code outside the repository is a parameter: the rounding of a \<open>long double\<close> quotient
  and the iteration order of the unordered map (\<open>Platform\<close>), the answers of sockets, files and the
  CUDA runtime, floating-point arithmetic, executors supplied by a caller.

  \<^bold>\<open>Not modelled.\<close> The interleaving of threads inside one message of the coordinator: a message is one
  step, which is exact for the scheduler (one mutex) but not for the time between looking up a worker
  and sending to it. The branches for Windows, the parsing of the port and id arguments of the
  coordinator and worker programs and what they print, and the times the benchmark measures. The examples
  and the separate benchmark program (\<open>src/examples\<close>, \<open>src/benchmarks\<close>) only call the public methods.
\<close>

end
